(* ===== verification/Prelude.thy ===== *)
theory Prelude
  imports Main "HOL-Library.Word"
begin

text \<open>
  Shared vocabulary of the development: the exceptions the Python scripts raise, results as
  sums, a state-and-exception monad for the scripts that change the outside world, Python's
  byte strings and slices, decimal printing, and insertion-ordered dictionaries.
  A \<open>str\<close> is modelled by its UTF-8 encoding, so a \<^typ>\<open>string\<close> is both a text and the content
  of a text file; data read from sockets is a list of \<^typ>\<open>8 word\<close>.
\<close>

named_theorems res_simps \<open>unfolding of results\<close>
named_theorems io_simps \<open>unfolding of stateful programs\<close>

section \<open>Exceptions and results\<close>

datatype exn =
    ValueError string
  | RuntimeError string
  | OSError string
  | EOFError string
  | TimeoutError string
  | AssertionError string
  | UsageError string
  | SystemExit string
  | CalledProcessError "string list"
  | KeyError string
  | IndexError
  | ZeroDivisionError
  | TimeoutExpired "string list"
  | StopIteration

type_synonym 'a res = "exn + 'a"

definition bind_res :: "'a res \<Rightarrow> ('a \<Rightarrow> 'b res) \<Rightarrow> 'b res" where
  "bind_res m f = (case m of Inl e \<Rightarrow> Inl e | Inr x \<Rightarrow> f x)"

lemma bind_res_simps [simp]:
  "bind_res (Inl e) f = Inl e"
  "bind_res (Inr x) f = f x"
  by (simp_all add: bind_res_def)

lemma bind_res_assoc: "bind_res (bind_res m f) g = bind_res m (\<lambda>x. bind_res (f x) g)"
  by (cases m) simp_all

lemma bind_res_Inr_iff [res_simps]:
  "bind_res m f = Inr y \<longleftrightarrow> (\<exists>x. m = Inr x \<and> f x = Inr y)"
  by (cases m) simp_all

lemma bind_res_Inl_iff [res_simps]:
  "bind_res m f = Inl e \<longleftrightarrow> m = Inl e \<or> (\<exists>x. m = Inr x \<and> f x = Inl e)"
  by (cases m) auto

lemma bind_res_cong [fundef_cong]:
  assumes "m = m'" and "\<And>x. m' = Inr x \<Longrightarrow> f x = f' x"
  shows "bind_res m f = bind_res m' f'"
  using assms by (cases m') simp_all

definition guard :: "bool \<Rightarrow> exn \<Rightarrow> unit res" where
  "guard b e = (if b then Inr () else Inl e)"

lemma guard_iff [res_simps]:
  "guard b e = Inr u \<longleftrightarrow> b"
  "guard b e = Inl e' \<longleftrightarrow> \<not> b \<and> e' = e"
  by (auto simp: guard_def)

lemma guard_simps [simp]: "guard True e = Inr ()" "guard False e = Inl e"
  by (simp_all add: guard_def)

text \<open>A loop over a list whose body may raise.\<close>

fun map_res :: "('a \<Rightarrow> 'b res) \<Rightarrow> 'a list \<Rightarrow> 'b list res" where
  "map_res f [] = Inr []"
| "map_res f (x # xs) = bind_res (f x) (\<lambda>y. bind_res (map_res f xs) (\<lambda>ys. Inr (y # ys)))"

fun fold_res :: "('a \<Rightarrow> 's \<Rightarrow> 's res) \<Rightarrow> 'a list \<Rightarrow> 's \<Rightarrow> 's res" where
  "fold_res f [] s = Inr s"
| "fold_res f (x # xs) s = bind_res (f x s) (fold_res f xs)"

lemma fold_res_append: "fold_res f (xs @ ys) s = bind_res (fold_res f xs s) (fold_res f ys)"
  by (induction xs arbitrary: s) (simp_all add: bind_res_def split: sum.splits)

lemma map_res_Inr_length: "map_res f xs = Inr ys \<Longrightarrow> length ys = length xs"
  by (induction xs arbitrary: ys) (auto simp: res_simps)

lemma map_res_Inr: "(\<And>x. x \<in> set xs \<Longrightarrow> f x = Inr (g x)) \<Longrightarrow> map_res f xs = Inr (map g xs)"
  by (induction xs) simp_all

lemma map_res_cong [fundef_cong]:
  assumes "xs = ys" and "\<And>x. x \<in> set ys \<Longrightarrow> f x = g x"
  shows "map_res f xs = map_res g ys"
  using assms by (induction ys arbitrary: xs) auto

lemma fold_res_cong [fundef_cong]:
  assumes "xs = ys" and "s = s'" and "\<And>x s. x \<in> set ys \<Longrightarrow> f x s = g x s"
  shows "fold_res f xs s = fold_res g ys s'"
  using assms by (induction ys arbitrary: xs s s') (auto simp: bind_res_def split: sum.splits)

section \<open>Programs with effects\<close>

text \<open>
  A program takes the world and returns its outcome with the world it leaves: an exception
  keeps the effects that happened before it, as in Python.
\<close>

type_synonym ('w, 'a) io = "'w \<Rightarrow> 'a res \<times> 'w"

definition ret :: "'a \<Rightarrow> ('w, 'a) io" where
  "ret x w = (Inr x, w)"

definition raise :: "exn \<Rightarrow> ('w, 'a) io" where
  "raise e w = (Inl e, w)"

definition bnd :: "('w, 'a) io \<Rightarrow> ('a \<Rightarrow> ('w, 'b) io) \<Rightarrow> ('w, 'b) io" where
  "bnd m f w = (case m w of (Inl e, w') \<Rightarrow> (Inl e, w') | (Inr x, w') \<Rightarrow> f x w')"

definition gets :: "('w \<Rightarrow> 'a) \<Rightarrow> ('w, 'a) io" where
  "gets f w = (Inr (f w), w)"

definition modify :: "('w \<Rightarrow> 'w) \<Rightarrow> ('w, unit) io" where
  "modify f w = (Inr (), f w)"

definition lift_res :: "'a res \<Rightarrow> ('w, 'a) io" where
  "lift_res r w = (r, w)"

definition when_io :: "bool \<Rightarrow> ('w, unit) io \<Rightarrow> ('w, unit) io" where
  "when_io b m = (if b then m else ret ())"

definition seq :: "('w, 'a) io \<Rightarrow> ('w, 'b) io \<Rightarrow> ('w, 'b) io" where
  "seq m k = bnd m (\<lambda>_. k)"

text \<open>\<open>try: body finally: last\<close>: an exception of the final block replaces the body's.\<close>

definition try_finally :: "('w, 'a) io \<Rightarrow> ('w, unit) io \<Rightarrow> ('w, 'a) io" where
  "try_finally m fin w =
     (case m w of (r, w') \<Rightarrow>
        (case fin w' of (Inl e, w'') \<Rightarrow> (Inl e, w'') | (Inr _, w'') \<Rightarrow> (r, w'')))"

text \<open>\<open>try: body except: handler\<close> for the exceptions the predicate selects.\<close>

definition try_except :: "('w, 'a) io \<Rightarrow> (exn \<Rightarrow> bool) \<Rightarrow> (exn \<Rightarrow> ('w, 'a) io) \<Rightarrow> ('w, 'a) io" where
  "try_except m sel h w =
     (case m w of (Inl e, w') \<Rightarrow> if sel e then h e w' else (Inl e, w') | (Inr x, w') \<Rightarrow> (Inr x, w'))"

primrec for_io :: "'a list \<Rightarrow> ('a \<Rightarrow> ('w, unit) io) \<Rightarrow> ('w, unit) io" where
  "for_io [] f = ret ()"
| "for_io (x # xs) f = seq (f x) (for_io xs f)"

primrec map_io :: "('a \<Rightarrow> ('w, 'b) io) \<Rightarrow> 'a list \<Rightarrow> ('w, 'b list) io" where
  "map_io f [] = ret []"
| "map_io f (x # xs) = bnd (f x) (\<lambda>y. bnd (map_io f xs) (\<lambda>ys. ret (y # ys)))"

lemmas io_defs [io_simps] =
  ret_def raise_def bnd_def gets_def modify_def lift_res_def when_io_def seq_def

lemma bnd_Inr_iff:
  "bnd m f w = (Inr y, w'') \<longleftrightarrow> (\<exists>x w'. m w = (Inr x, w') \<and> f x w' = (Inr y, w''))"
  by (auto simp: bnd_def split: prod.splits sum.splits)

lemma seq_Inr_iff:
  "seq m k w = (Inr y, w'') \<longleftrightarrow> (\<exists>x w'. m w = (Inr x, w') \<and> k w' = (Inr y, w''))"
  by (simp add: seq_def bnd_Inr_iff)

lemma ret_iff: "ret x w = (r, w') \<longleftrightarrow> r = Inr x \<and> w' = w"
  by (auto simp: ret_def)

lemma for_io_append: "for_io (xs @ ys) f = seq (for_io xs f) (for_io ys f)"
  by (induction xs) (auto simp: io_simps fun_eq_iff split: prod.splits sum.splits)

text \<open>A predicate on worlds that no step of a loop breaks survives the loop, error or not.\<close>

lemma for_io_invariant:
  assumes "\<And>x w. x \<in> set xs \<Longrightarrow> I w \<Longrightarrow> I (snd (f x w))" and "I w"
  shows "I (snd (for_io xs f w))"
  using assms
proof (induction xs arbitrary: w)
  case Nil
  then show ?case by (simp add: ret_def)
next
  case (Cons x xs)
  then have "I (snd (f x w))" by simp
  moreover have "\<And>w. I w \<Longrightarrow> I (snd (for_io xs f w))" using Cons by simp
  ultimately show ?case
    by (auto simp: seq_def bnd_def split: prod.splits sum.splits)
qed

text \<open>
  Two judgements about programs: \<open>reads m\<close> says that \<open>m\<close> leaves the world as it is, \<open>raises P m\<close>
  that every exception of \<open>m\<close> satisfies \<open>P\<close>. The rules follow the structure of programs.
\<close>

definition reads :: "('w, 'a) io \<Rightarrow> bool" where
  "reads m \<longleftrightarrow> (\<forall>w. snd (m w) = w)"

definition raises :: "(exn \<Rightarrow> bool) \<Rightarrow> ('w, 'a) io \<Rightarrow> bool" where
  "raises P m \<longleftrightarrow> (\<forall>w e. fst (m w) = Inl e \<longrightarrow> P e)"

named_theorems reads_intros \<open>programs that only read\<close>
named_theorems raises_intros \<open>programs that raise only certain exceptions\<close>

lemma reads_basic [reads_intros]:
  "reads (ret x)" "reads (raise e)" "reads (gets f)" "reads (lift_res r)"
  by (simp_all add: reads_def io_simps)

lemma reads_bnd [reads_intros]: "reads m \<Longrightarrow> (\<And>x. reads (f x)) \<Longrightarrow> reads (bnd m f)"
  by (auto simp: reads_def bnd_def split: prod.splits sum.splits) (metis snd_conv)+

lemma reads_seq [reads_intros]: "reads m \<Longrightarrow> reads k \<Longrightarrow> reads (seq m k)"
  by (simp add: seq_def reads_bnd)

lemma reads_when [reads_intros]: "reads m \<Longrightarrow> reads (when_io b m)"
  by (simp add: when_io_def reads_basic)

lemma reads_if [reads_intros]: "reads m \<Longrightarrow> reads k \<Longrightarrow> reads (if b then m else k)"
  by simp

lemma reads_for [reads_intros]: "(\<And>x. x \<in> set xs \<Longrightarrow> reads (f x)) \<Longrightarrow> reads (for_io xs f)"
  by (induction xs) (simp_all add: reads_basic reads_seq)

lemma reads_map [reads_intros]: "(\<And>x. x \<in> set xs \<Longrightarrow> reads (f x)) \<Longrightarrow> reads (map_io f xs)"
  by (induction xs) (simp_all add: reads_basic reads_bnd)

lemma readsD: "reads m \<Longrightarrow> m w = (r, w') \<Longrightarrow> w' = w"
  by (metis reads_def snd_conv)

lemma raises_basic [raises_intros]:
  "raises P (ret x)" "P e \<Longrightarrow> raises P (raise e)" "raises P (gets f)" "raises P (modify g)"
  by (simp_all add: raises_def io_simps)

lemma raises_bnd [raises_intros]: "raises P m \<Longrightarrow> (\<And>x. raises P (f x)) \<Longrightarrow> raises P (bnd m f)"
  by (auto simp: raises_def bnd_def split: prod.splits sum.splits) (metis fst_conv)+

lemma raises_seq [raises_intros]: "raises P m \<Longrightarrow> raises P k \<Longrightarrow> raises P (seq m k)"
  by (simp add: seq_def raises_bnd)

lemma raises_when [raises_intros]: "raises P m \<Longrightarrow> raises P (when_io b m)"
  by (simp add: when_io_def raises_basic)

lemma raises_if [raises_intros]: "raises P m \<Longrightarrow> raises P k \<Longrightarrow> raises P (if b then m else k)"
  by simp

lemma raises_for [raises_intros]: "(\<And>x. x \<in> set xs \<Longrightarrow> raises P (f x)) \<Longrightarrow> raises P (for_io xs f)"
  by (induction xs) (simp_all add: raises_basic raises_seq)

lemma raises_map [raises_intros]: "(\<And>x. x \<in> set xs \<Longrightarrow> raises P (f x)) \<Longrightarrow> raises P (map_io f xs)"
  by (induction xs) (simp_all add: raises_basic raises_bnd)

lemma raises_finally [raises_intros]: "raises P m \<Longrightarrow> raises P k \<Longrightarrow> raises P (try_finally m k)"
  by (auto simp: raises_def try_finally_def split: prod.splits sum.splits) (metis fst_conv)+

text \<open>A third judgement: \<open>keeps I m\<close> says that \<open>m\<close> does not break \<open>I\<close>, whether it returns or raises.\<close>

definition keeps :: "('w \<Rightarrow> bool) \<Rightarrow> ('w, 'a) io \<Rightarrow> bool" where
  "keeps I m \<longleftrightarrow> (\<forall>w. I w \<longrightarrow> I (snd (m w)))"

named_theorems keeps_intros \<open>programs that keep a predicate on worlds\<close>

lemma keeps_reads: "reads m \<Longrightarrow> keeps I m"
  by (simp add: keeps_def reads_def)

lemma keeps_basic [keeps_intros]:
  "keeps I (ret x)" "keeps I (raise e)" "keeps I (gets f)" "keeps I (lift_res r)"
  by (intro keeps_reads reads_basic)+

lemma keeps_bnd [keeps_intros]: "keeps I m \<Longrightarrow> (\<And>x. keeps I (f x)) \<Longrightarrow> keeps I (bnd m f)"
  by (auto simp: keeps_def bnd_def split: prod.splits sum.splits)

lemma keeps_seq [keeps_intros]: "keeps I m \<Longrightarrow> keeps I k \<Longrightarrow> keeps I (seq m k)"
  by (simp add: seq_def keeps_bnd)

lemma keeps_when [keeps_intros]: "keeps I m \<Longrightarrow> keeps I (when_io b m)"
  by (simp add: when_io_def keeps_basic)

lemma keeps_if [keeps_intros]: "keeps I m \<Longrightarrow> keeps I k \<Longrightarrow> keeps I (if b then m else k)"
  by simp

lemma keeps_for [keeps_intros]: "(\<And>x. x \<in> set xs \<Longrightarrow> keeps I (f x)) \<Longrightarrow> keeps I (for_io xs f)"
  by (simp add: keeps_def for_io_invariant)

lemma keeps_map [keeps_intros]: "(\<And>x. x \<in> set xs \<Longrightarrow> keeps I (f x)) \<Longrightarrow> keeps I (map_io f xs)"
  by (induction xs) (simp_all add: keeps_basic keeps_bnd)

lemma keeps_finally [keeps_intros]: "keeps I m \<Longrightarrow> keeps I k \<Longrightarrow> keeps I (try_finally m k)"
  by (auto simp: keeps_def try_finally_def split: prod.splits sum.splits)

lemma keeps_except [keeps_intros]: "keeps I m \<Longrightarrow> (\<And>e. keeps I (h e)) \<Longrightarrow> keeps I (try_except m sel h)"
  by (auto simp: keeps_def try_except_def split: prod.splits sum.splits)

lemma keeps_case_prod [keeps_intros]: "(\<And>x y. keeps I (f x y)) \<Longrightarrow> keeps I (case p of (x, y) \<Rightarrow> f x y)"
  by (cases p) simp

lemma keeps_case_option [keeps_intros]:
  "keeps I m \<Longrightarrow> (\<And>x. keeps I (f x)) \<Longrightarrow> keeps I (case p of None \<Rightarrow> m | Some x \<Rightarrow> f x)"
  by (cases p) simp_all

lemma keepsD: "keeps I m \<Longrightarrow> m w = (r, w') \<Longrightarrow> I w \<Longrightarrow> I w'"
  by (metis keeps_def snd_conv)

lemma raisesD: "raises P m \<Longrightarrow> m w = (Inl e, w') \<Longrightarrow> P e"
  by (metis raises_def fst_conv)

text \<open>A fourth: \<open>yields P m\<close> says that what \<open>m\<close> returns satisfies \<open>P\<close>.\<close>

definition yields :: "('a \<Rightarrow> bool) \<Rightarrow> ('w, 'a) io \<Rightarrow> bool" where
  "yields P m \<longleftrightarrow> (\<forall>w x w'. m w = (Inr x, w') \<longrightarrow> P x)"

lemma yieldsD: "yields P m \<Longrightarrow> m w = (Inr x, w') \<Longrightarrow> P x"
  unfolding yields_def by blast

lemma yields_all: "yields P m \<longleftrightarrow> (\<forall>w. case m w of (Inl e, w') \<Rightarrow> True | (Inr x, w') \<Rightarrow> P x)"
  by (auto simp: yields_def split: prod.splits sum.splits)

lemma yields_case: "yields P m \<Longrightarrow> (case m w of (Inl e, w') \<Rightarrow> True | (Inr x, w') \<Rightarrow> P x)"
  by (simp only: yields_all)

lemma yields_case_pair:
  "yields (\<lambda>(x, y). P x y) m \<Longrightarrow> (case m w of (Inl e, w') \<Rightarrow> True | (Inr (x, y), w') \<Rightarrow> P x y)"
  by (auto simp: yields_def split: prod.splits sum.splits)

lemma yields_bnd: "yields Q m \<Longrightarrow> (\<And>x. Q x \<Longrightarrow> yields P (f x)) \<Longrightarrow> yields P (bnd m f)"
  by (fastforce simp: yields_def bnd_Inr_iff)

lemma yields_mono: "yields Q m \<Longrightarrow> (\<And>x. Q x \<Longrightarrow> P x) \<Longrightarrow> yields P m"
  unfolding yields_def by blast

lemma yields_last: "(\<And>x. yields P (f x)) \<Longrightarrow> yields P (bnd m f)"
  by (fastforce simp: yields_def bnd_Inr_iff)

lemma yields_seq: "yields P k \<Longrightarrow> yields P (seq m k)"
  unfolding seq_def by (rule yields_last)

lemma yields_ret: "yields P (ret x) \<longleftrightarrow> P x"
  by (simp add: yields_def ret_iff)

lemma yields_raise: "yields P (raise e)"
  by (simp add: yields_def raise_def)

lemma yields_unless: "yields P m \<Longrightarrow> yields P (if b then raise e else m)"
  by (simp add: yields_raise)

lemma yields_lift_bnd: "(\<And>x. r = Inr x \<Longrightarrow> yields P (f x)) \<Longrightarrow> yields P (bnd (lift_res r) f)"
  by (rule yields_bnd [of "\<lambda>x. r = Inr x"]) (simp_all add: yields_def lift_res_def)

lemma yields_lift: "yields P (lift_res r) \<longleftrightarrow> (\<forall>x. r = Inr x \<longrightarrow> P x)"
  by (simp add: yields_def lift_res_def)

lemma yields_map: "(\<And>x. yields (P x) (f x)) \<Longrightarrow> yields (list_all2 P xs) (map_io f xs)"
proof (induction xs)
  case (Cons x xs)
  show ?case unfolding map_io.simps
    by (rule yields_bnd [OF Cons.prems], rule yields_bnd [OF Cons.IH [OF Cons.prems]]) (simp add: yields_ret)
qed (simp add: yields_ret)

text \<open>A program that checks first: it stops with the world untouched, or it is what follows.\<close>

lemma seq_reads:
  assumes "reads m"
  shows "seq m k w = (case fst (m w) of Inl e \<Rightarrow> (Inl e, w) | Inr x \<Rightarrow> k w)"
  using assms by (cases "m w") (auto simp: seq_def bnd_def reads_def split: sum.splits; metis snd_conv)

lemma bnd_reads:
  assumes "reads m"
  shows "bnd m f w = (case fst (m w) of Inl e \<Rightarrow> (Inl e, w) | Inr x \<Rightarrow> f x w)"
  using assms by (cases "m w") (auto simp: bnd_def reads_def split: sum.splits; metis snd_conv)

lemma for_checks:
  "for_io xs (\<lambda>x. bnd (gets (bad x)) (\<lambda>b. if b then raise (e x) else ret ())) w =
     (case filter (\<lambda>x. bad x w) xs of [] \<Rightarrow> (Inr (), w) | x # _ \<Rightarrow> (Inl (e x), w))"
  by (induction xs) (auto simp: io_simps split: list.splits)

section \<open>Bytes, slices and integers\<close>

type_synonym byte = "8 word"
type_synonym bytes = "byte list"

definition slice :: "nat \<Rightarrow> nat \<Rightarrow> 'a list \<Rightarrow> 'a list" where
  "slice i j xs = take (j - i) (drop i xs)"

definition at :: "'a list \<Rightarrow> nat \<Rightarrow> 'a res" where
  "at xs i = (if i < length xs then Inr (xs ! i) else Inl IndexError)"

lemma at_Inr_iff [res_simps]: "at xs i = Inr x \<longleftrightarrow> i < length xs \<and> x = xs ! i"
  by (auto simp: at_def)

lemma at_Inl_iff [res_simps]: "at xs i = Inl e \<longleftrightarrow> length xs \<le> i \<and> e = IndexError"
  by (auto simp: at_def)

lemma length_slice [simp]: "length (slice i j xs) = min (j - i) (length xs - i)"
  by (simp add: slice_def)

lemma slice_append_left [simp]: "j \<le> length xs \<Longrightarrow> slice i j (xs @ ys) = slice i j xs"
  by (simp add: slice_def)

lemma slice_append_right [simp]:
  "length xs \<le> i \<Longrightarrow> slice i j (xs @ ys) = slice (i - length xs) (j - length xs) ys"
  by (simp add: slice_def)

lemma slice_all [simp]: "length xs \<le> j \<Longrightarrow> slice 0 j xs = xs"
  by (simp add: slice_def)

lemma slice_take_drop: "i \<le> j \<Longrightarrow> take i xs @ slice i j xs = take j xs"
proof -
  assume "i \<le> j"
  then have "take j xs = take (i + (j - i)) xs" by simp
  also have "\<dots> = take i xs @ take (j - i) (drop i xs)" by (rule take_add)
  finally show ?thesis by (simp add: slice_def)
qed

lemma slice_drop: "slice i (i + n) xs @ drop (i + n) xs = drop i xs"
  by (metis add_diff_cancel_left' append_take_drop_id drop_drop add.commute slice_def)

lemma drop_header: "length h = k \<Longrightarrow> drop (k + n) (h @ xs) = drop n xs"
  by simp

lemma slice_header: "length h = k \<Longrightarrow> slice k (k + n) (h @ xs) = take n xs"
  by (simp add: slice_def)

definition from_bytes_big :: "bytes \<Rightarrow> nat" where
  "from_bytes_big bs = foldl (\<lambda>a b. 256 * a + unat b) 0 bs"

definition to_bytes_big2 :: "nat \<Rightarrow> bytes" where
  "to_bytes_big2 n = [word_of_nat (n div 256), word_of_nat n]"

lemma unat_byte_less [simp]: "unat (b :: byte) < 256"
  using unsigned_less [of b, where 'a = nat] by simp

lemma from_bytes_big_simps [simp]:
  "from_bytes_big [] = 0"
  "from_bytes_big [a] = unat a"
  "from_bytes_big [a, b] = 256 * unat a + unat b"
  by (simp_all add: from_bytes_big_def)

lemma length_to_bytes_big2 [simp]: "length (to_bytes_big2 n) = 2"
  by (simp add: to_bytes_big2_def)

lemma from_to_bytes_big2 [simp]:
  assumes "n < 65536"
  shows "from_bytes_big (to_bytes_big2 n) = n"
proof -
  have "unat (word_of_nat (n div 256) :: byte) = n div 256"
    using assms by (simp add: unat_of_nat)
  moreover have "unat (word_of_nat n :: byte) = n mod 256"
    by (simp add: unat_of_nat)
  ultimately show ?thesis
    by (simp add: to_bytes_big2_def)
qed

lemma from_bytes_big2_less: "length bs = 2 \<Longrightarrow> from_bytes_big bs < 65536"
proof -
  assume "length bs = 2"
  then obtain a b where bs: "bs = [a, b]"
    by (auto simp: numeral_2_eq_2 length_Suc_conv)
  have "unat a < 256" "unat b < 256" by simp_all
  then have "256 * unat a + unat b < 65536" by linarith
  then show ?thesis by (simp add: bs)
qed

section \<open>Decimal numerals\<close>

definition digit :: "nat \<Rightarrow> char" where
  "digit d = char_of (48 + d)"

fun dec :: "nat \<Rightarrow> string" where
  "dec n = (if n < 10 then [digit n] else dec (n div 10) @ [digit (n mod 10)])"

declare dec.simps [simp del]

definition dec_int :: "int \<Rightarrow> string" where
  "dec_int i = (if i < 0 then ''-'' @ dec (nat (- i)) else dec (nat i))"

definition is_digit :: "char \<Rightarrow> bool" where
  "is_digit c \<longleftrightarrow> 48 \<le> (of_char c :: nat) \<and> (of_char c :: nat) \<le> 57"

definition digit_val :: "char \<Rightarrow> nat" where
  "digit_val c = of_char c - 48"

definition undec :: "string \<Rightarrow> nat" where
  "undec s = foldl (\<lambda>a c. 10 * a + digit_val c) 0 s"

lemma of_char_digit [simp]: "d < 10 \<Longrightarrow> (of_char (digit d) :: nat) = 48 + d"
  by (simp add: digit_def of_char_of)

lemma is_digit_digit [simp]: "d < 10 \<Longrightarrow> is_digit (digit d)"
  by (simp add: is_digit_def)

lemma digit_val_digit [simp]: "d < 10 \<Longrightarrow> digit_val (digit d) = d"
  by (simp add: digit_val_def)

lemma dec_nonempty [simp]: "dec n \<noteq> []"
  by (subst dec.simps) simp

lemma dec_digits: "c \<in> set (dec n) \<Longrightarrow> is_digit c"
proof (induction n rule: dec.induct)
  case (1 n)
  then show ?case by (cases "n < 10") (auto simp: dec.simps [of n])
qed

lemma undec_append: "undec (s @ [c]) = 10 * undec s + digit_val c"
  by (simp add: undec_def)

lemma undec_dec [simp]: "undec (dec n) = n"
proof (induction n rule: dec.induct)
  case (1 n)
  show ?case
  proof (cases "n < 10")
    case True
    then show ?thesis by (simp add: dec.simps [of n] undec_def)
  next
    case False
    with 1 show ?thesis by (simp add: dec.simps [of n] undec_append)
  qed
qed

lemma dec_inject [simp]: "dec m = dec n \<longleftrightarrow> m = n"
  by (metis undec_dec)

section \<open>Insertion-ordered dictionaries\<close>

text \<open>
  A \<open>dict\<close> is an association list with distinct keys: assigning to a present key keeps its
  place, a new key goes to the end, as Python guarantees.
\<close>

fun dict_set :: "'k \<Rightarrow> 'v \<Rightarrow> ('k \<times> 'v) list \<Rightarrow> ('k \<times> 'v) list" where
  "dict_set k v [] = [(k, v)]"
| "dict_set k v ((k', v') # d) = (if k' = k then (k, v) # d else (k', v') # dict_set k v d)"

definition dict_update :: "('k \<times> 'v) list \<Rightarrow> ('k \<times> 'v) list \<Rightarrow> ('k \<times> 'v) list" where
  "dict_update d upd = fold (\<lambda>(k, v). dict_set k v) upd d"

lemma map_of_dict_set [simp]: "map_of (dict_set k v d) = (map_of d)(k \<mapsto> v)"
  by (induction k v d rule: dict_set.induct) auto

lemma keys_dict_set [simp]: "fst ` set (dict_set k v d) = insert k (fst ` set d)"
  by (induction k v d rule: dict_set.induct) auto

lemma keys_list_dict_set:
  "map fst (dict_set k v d) = (if k \<in> fst ` set d then map fst d else map fst d @ [k])"
  by (induction k v d rule: dict_set.induct) auto

lemma distinct_dict_set [simp]:
  "distinct (map fst (dict_set k v d)) = distinct (map fst d)"
  by (induction k v d rule: dict_set.induct) (auto simp: image_iff)

lemma dict_set_new: "k \<notin> fst ` set d \<Longrightarrow> dict_set k v d = d @ [(k, v)]"
  by (induction k v d rule: dict_set.induct) auto

lemma map_of_dict_update:
  "map_of (dict_update d upd) = map_of d ++ map_of (rev upd)"
proof (induction upd arbitrary: d)
  case Nil
  then show ?case by (simp add: dict_update_def)
next
  case (Cons kv upd)
  obtain k v where kv: "kv = (k, v)" by (cases kv)
  have "map_of (dict_update d (kv # upd)) = map_of (dict_update (dict_set k v d) upd)"
    by (simp add: dict_update_def kv)
  also have "\<dots> = map_of d ++ map_of (rev (kv # upd))"
    by (simp add: Cons.IH kv fun_eq_iff map_add_def split: option.splits)
  finally show ?case .
qed

lemma distinct_dict_update: "distinct (map fst d) \<Longrightarrow> distinct (map fst (dict_update d upd))"
  by (induction upd arbitrary: d) (auto simp: dict_update_def)

definition dict_get :: "string \<Rightarrow> (string \<times> 'v) list \<Rightarrow> 'v res" where
  "dict_get k d = (case map_of d k of None \<Rightarrow> Inl (KeyError k) | Some v \<Rightarrow> Inr v)"

lemma dict_get_Inr_iff [res_simps]: "dict_get k d = Inr v \<longleftrightarrow> map_of d k = Some v"
  by (simp add: dict_get_def split: option.splits)

text \<open>A \<open>collections.Counter\<close> is a dictionary of counts.\<close>

definition counter_add :: "'k \<Rightarrow> ('k \<times> nat) list \<Rightarrow> ('k \<times> nat) list" where
  "counter_add k d = dict_set k (Suc (case map_of d k of None \<Rightarrow> 0 | Some n \<Rightarrow> n)) d"

definition counter :: "'k list \<Rightarrow> ('k \<times> nat) list" where
  "counter ks = fold counter_add ks []"

lemma map_of_counter_fold:
  "map_of (fold counter_add ks d) k =
     (if k \<in> set ks \<or> map_of d k \<noteq> None
      then Some ((case map_of d k of None \<Rightarrow> 0 | Some n \<Rightarrow> n) + count_list ks k) else None)"
proof (induction ks arbitrary: d)
  case Nil
  then show ?case by (auto split: option.splits)
next
  case (Cons x ks)
  show ?case
    by (simp add: Cons.IH) (auto simp: counter_add_def split: option.splits)
qed

lemma map_of_counter:
  "map_of (counter ks) k = (if k \<in> set ks then Some (count_list ks k) else None)"
  by (simp add: counter_def map_of_counter_fold)

end
