(* ===== verification/Framing.thy ===== *)
theory Framing
  imports Prelude
begin

text \<open>
  The interface every length-prefixed format of the scripts offers: a decoding step that takes
  one frame off the front of the data, and the loop that repeats it. \<open>framed_encoder\<close> promises
  that a step undoes the encoder; \<open>framed_stream\<close> promises also that a step accepts encoded
  frames only, so that the loop accepts exactly the concatenations of frames. TLS records are a
  \<open>framed_stream\<close>; the extensions and key shares of a ClientHello are only \<open>framed_encoder\<close>s,
  because their loops do not check that a whole header is present.
\<close>

locale framed_encoder =
  fixes step :: "'b list \<Rightarrow> ('a \<times> 'b list) res"
    and loop :: "'b list \<Rightarrow> 'a list res"
    and enc :: "'r \<Rightarrow> 'b list"
    and view :: "'r \<Rightarrow> 'a"
    and ok :: "'r \<Rightarrow> bool"
  assumes loop_Nil: "loop [] = Inr []"
    and loop_step: "xs \<noteq> [] \<Longrightarrow>
      loop xs = bind_res (step xs) (\<lambda>(x, rest). bind_res (loop rest) (\<lambda>ys. Inr (x # ys)))"
    and step_enc: "ok r \<Longrightarrow> step (enc r @ rest) = Inr (view r, rest)"
    and enc_nonempty: "ok r \<Longrightarrow> enc r \<noteq> []"
begin

lemma loop_encoded_append:
  assumes "list_all ok rs"
  shows "loop (concat (map enc rs) @ xs) = bind_res (loop xs) (\<lambda>ys. Inr (map view rs @ ys))"
  using assms
proof (induction rs)
  case Nil
  then show ?case by (cases "loop xs") simp_all
next
  case (Cons r rs)
  then have "enc r @ concat (map enc rs) @ xs \<noteq> []"
    by (simp add: enc_nonempty)
  from loop_step [OF this] Cons show ?case
    by (cases "loop xs") (simp_all add: step_enc)
qed

lemma loop_encoded: "list_all ok rs \<Longrightarrow> loop (concat (map enc rs)) = Inr (map view rs)"
  using loop_encoded_append [of rs "[]"] by (simp add: loop_Nil)

lemma loop_stops:
  assumes "list_all ok rs" and "xs \<noteq> []" and "step xs = Inl e"
  shows "loop (concat (map enc rs) @ xs) = Inl e"
  using assms by (simp add: loop_encoded_append loop_step [of xs])

end

locale framed_stream = framed_encoder step loop enc view ok
  for step :: "'b list \<Rightarrow> ('a \<times> 'b list) res" and loop enc
    and view :: "'r \<Rightarrow> 'a" and ok +
  assumes step_only: "step xs = Inr (x, rest) \<Longrightarrow> \<exists>r. ok r \<and> view r = x \<and> xs = enc r @ rest"
begin

lemma loop_cases:
  "\<exists>rs rest. list_all ok rs \<and> xs = concat (map enc rs) @ rest \<and>
     (rest = [] \<and> loop xs = Inr (map view rs) \<or>
      rest \<noteq> [] \<and> (\<exists>e. step rest = Inl e \<and> loop xs = Inl e))"
proof (induction xs rule: length_induct)
  case (1 xs)
  show ?case
  proof (cases "xs = []")
    case True
    then show ?thesis by (intro exI [of _ "[]"]) (simp add: loop_Nil)
  next
    case xs: False
    show ?thesis
    proof (cases "step xs")
      case (Inl e)
      with xs show ?thesis
        by (intro exI [of _ "[]"] exI [of _ xs]) (simp add: loop_step)
    next
      case (Inr p)
      then obtain x rest where p: "step xs = Inr (x, rest)" by (cases p) auto
      then obtain r where r: "ok r" "view r = x" "xs = enc r @ rest"
        using step_only by blast
      then have "length rest < length xs" by (simp add: enc_nonempty)
      with 1 obtain rs tl where rs: "list_all ok rs" "rest = concat (map enc rs) @ tl"
        "tl = [] \<and> loop rest = Inr (map view rs) \<or>
         tl \<noteq> [] \<and> (\<exists>e. step tl = Inl e \<and> loop rest = Inl e)"
        by blast
      have "list_all ok (r # rs)" "xs = concat (map enc (r # rs)) @ tl"
        using r rs by simp_all
      moreover have "tl = [] \<and> loop xs = Inr (map view (r # rs)) \<or>
         tl \<noteq> [] \<and> (\<exists>e. step tl = Inl e \<and> loop xs = Inl e)"
        using rs(3) r(2) p by (auto simp: loop_step [OF xs])
      ultimately show ?thesis by blast
    qed
  qed
qed

lemma loop_Inr_iff:
  "loop xs = Inr ys \<longleftrightarrow> (\<exists>rs. list_all ok rs \<and> xs = concat (map enc rs) \<and> ys = map view rs)"
  using loop_cases [of xs] loop_encoded by fastforce

lemma loop_Inl_iff:
  "loop xs = Inl e \<longleftrightarrow>
     (\<exists>rs rest. list_all ok rs \<and> xs = concat (map enc rs) @ rest \<and> rest \<noteq> [] \<and> step rest = Inl e)"
  using loop_cases [of xs] loop_stops by fastforce

end

end
