(* ===== verification/Wire_Records.thy ===== *)
theory Wire_Records
  imports Framing
begin

unbundle bit_operations_syntax

text \<open>
  The TLS record parsers of the measurement scripts. \<open>records\<close> of
  \<^verbatim>\<open>reality_fingerprint.py\<close> is strict: it raises on a truncated capture. \<open>histogram\<close> and the
  record loop at the end of \<open>sample\<close>, both of \<^verbatim>\<open>probe.py\<close>, are lenient: they stop at the first
  incomplete record. The strict parser is a \<open>framed_stream\<close>, and the lenient ones parse exactly
  the longest prefix on which the strict one succeeds.
\<close>

section \<open>The strict parser\<close>

function records :: "bytes \<Rightarrow> (byte \<times> bytes) list res" where
  "records data =
     (if data = [] then Inr []
      else if length data < 5 then Inl (ValueError ''truncated TLS header'')
      else let n = from_bytes_big (slice 3 5 data) in
        if length data < 5 + n then Inl (ValueError ''truncated TLS record'')
        else bind_res (records (drop (5 + n) data))
               (\<lambda>rs. Inr ((data ! 0, slice 5 (5 + n) data) # rs)))"
  by pat_completeness auto
termination
  by (relation "measure length") auto

declare records.simps [simp del]

text \<open>One turn of the loop, and the encoder it undoes.\<close>

definition record_step :: "bytes \<Rightarrow> ((byte \<times> bytes) \<times> bytes) res" where
  "record_step data =
     (if length data < 5 then Inl (ValueError ''truncated TLS header'')
      else let n = from_bytes_big (slice 3 5 data) in
        if length data < 5 + n then Inl (ValueError ''truncated TLS record'')
        else Inr ((data ! 0, slice 5 (5 + n) data), drop (5 + n) data))"

type_synonym tls_record = "byte \<times> byte \<times> byte \<times> bytes"

fun encode_record :: "tls_record \<Rightarrow> bytes" where
  "encode_record (t, v1, v2, p) = t # v1 # v2 # to_bytes_big2 (length p) @ p"

fun record_view :: "tls_record \<Rightarrow> byte \<times> bytes" where
  "record_view (t, v1, v2, p) = (t, p)"

fun record_ok :: "tls_record \<Rightarrow> bool" where
  "record_ok (t, v1, v2, p) \<longleftrightarrow> length p < 65536"

lemma to_bytes_big2_from: "length bs = 2 \<Longrightarrow> to_bytes_big2 (from_bytes_big bs) = bs"
proof -
  assume "length bs = 2"
  then obtain a b where bs: "bs = [a, b]"
    by (auto simp: numeral_2_eq_2 length_Suc_conv)
  have "unat b < 256" by simp
  then have "(256 * unat a + unat b) div 256 = unat a"
    and m: "(256 * unat a + unat b) mod 256 = unat b" by simp_all
  moreover have "(word_of_nat (256 * unat a + unat b) :: byte) = b"
    using m by (intro word_unat_eq_iff [THEN iffD2]) (simp only: unat_of_nat, simp)
  ultimately show ?thesis by (simp add: bs to_bytes_big2_def)
qed

lemma list_split5:
  assumes "5 \<le> length xs"
  shows "xs = xs ! 0 # xs ! 1 # xs ! 2 # slice 3 5 xs @ drop 5 xs"
proof -
  have "xs = take 3 xs @ slice 3 5 xs @ drop 5 xs"
    by (simp add: slice_take_drop flip: append_assoc)
  moreover have "take 3 xs = [xs ! 0, xs ! 1, xs ! 2]"
    using assms by (simp add: list_eq_iff_nth_eq less_Suc_eq numeral_3_eq_3 numeral_2_eq_2)
  ultimately show ?thesis by simp
qed

lemma record_step_encode:
  assumes "record_ok r"
  shows "record_step (encode_record r @ rest) = Inr (record_view r, rest)"
proof -
  obtain t v1 v2 p where r: "r = (t, v1, v2, p)" by (cases r)
  define h where "h = t # v1 # v2 # to_bytes_big2 (length p)"
  have h: "length h = 5" "slice 3 5 h = to_bytes_big2 (length p)" "h ! 0 = t"
    by (simp_all add: h_def slice_def)
  have enc: "encode_record r @ rest = h @ p @ rest"
    by (simp add: r h_def)
  have n: "from_bytes_big (slice 3 5 (h @ p @ rest)) = length p"
    using assms by (simp add: h r)
  show ?thesis
    unfolding enc record_step_def n Let_def
    by (simp add: h r nth_append drop_header [OF h(1)] slice_header [OF h(1)])
qed

lemma record_step_only:
  assumes "record_step xs = Inr (x, rest)"
  shows "\<exists>r. record_ok r \<and> record_view r = x \<and> xs = encode_record r @ rest"
proof -
  let ?n = "from_bytes_big (slice 3 5 xs)"
  from assms have len: "5 + ?n \<le> length xs"
    and x: "x = (xs ! 0, slice 5 (5 + ?n) xs)" and rest: "rest = drop (5 + ?n) xs"
    by (auto simp: record_step_def Let_def split: if_splits)
  define r where "r = (xs ! 0, xs ! 1, xs ! 2, slice 5 (5 + ?n) xs)"
  have "length (slice 5 (5 + ?n) xs) = ?n" using len by simp
  moreover have "?n < 65536" by (rule from_bytes_big2_less) (use len in simp)
  moreover have "drop 5 xs = slice 5 (5 + ?n) xs @ drop (5 + ?n) xs"
    by (simp add: slice_drop)
  moreover have "to_bytes_big2 ?n = slice 3 5 xs"
    by (rule to_bytes_big2_from) (use len in simp)
  ultimately show ?thesis
    using list_split5 [of xs] len by (intro exI [of _ r]) (simp add: r_def x rest)
qed

text \<open>The strict parser keeps the contract of a framed stream.\<close>

interpretation tls: framed_stream record_step records encode_record record_view record_ok
proof
  show "records [] = Inr []" by (simp add: records.simps)
  show "records xs = bind_res (record_step xs) (\<lambda>(x, rest). bind_res (records rest) (\<lambda>ys. Inr (x # ys)))"
    if "xs \<noteq> []" for xs
    using that by (simp add: records.simps [of xs] record_step_def Let_def)
  show "record_step (encode_record r @ rest) = Inr (record_view r, rest)" if "record_ok r" for r rest
    using that by (rule record_step_encode)
  show "encode_record r \<noteq> []" if "record_ok r" for r
    by (cases r) simp
  show "\<exists>r. record_ok r \<and> record_view r = x \<and> xs = encode_record r @ rest"
    if "record_step xs = Inr (x, rest)" for xs x rest
    using that by (rule record_step_only)
qed

section \<open>The lenient parsers\<close>

function histogram_loop ::
  "bytes \<Rightarrow> nat \<Rightarrow> (string \<times> nat) list \<Rightarrow> (nat \<times> nat) list \<Rightarrow>
   (string \<times> nat) list \<times> (nat \<times> nat) list \<times> nat" where
  "histogram_loop data i hist recs =
     (if i + 5 \<le> length data then
        let n = from_bytes_big (slice (i + 3) (i + 5) data) in
        if i + 5 + n > length data then (hist, recs, i)
        else let typ = unat (data ! i) in
          histogram_loop data (i + (5 + n))
            (counter_add (dec typ @ '':'' @ dec n) hist) (recs @ [(typ, n)])
      else (hist, recs, i))"
  by pat_completeness auto
termination
  by (relation "measure (\<lambda>(data, i, _). Suc (length data) - i)") auto

declare histogram_loop.simps [simp del]

record record_shapes =
  record_histogram :: "(string \<times> nat) list"
  first_records :: "(nat \<times> nat) list"
  parsed_bytes :: nat
  captured_bytes :: nat

definition histogram :: "bytes \<Rightarrow> record_shapes" where
  "histogram data =
     (case histogram_loop data 0 [] [] of (hist, recs, i) \<Rightarrow>
        \<lparr>record_histogram = hist, first_records = take 24 recs,
         parsed_bytes = i, captured_bytes = length data\<rparr>)"

text \<open>The loop at the end of \<open>sample\<close>: each record's type and length, in order.\<close>

function sample_records_loop :: "bytes \<Rightarrow> nat \<Rightarrow> (nat \<times> nat) list \<Rightarrow> (nat \<times> nat) list" where
  "sample_records_loop data i lengths =
     (if length data \<ge> i + 5 then
        let n = from_bytes_big (slice (i + 3) (i + 5) data) in
        if length data < i + 5 + n then lengths
        else sample_records_loop data (i + (5 + n)) (lengths @ [(unat (data ! i), n)])
      else lengths)"
  by pat_completeness auto
termination
  by (relation "measure (\<lambda>(data, i, _). Suc (length data) - i)") auto

declare sample_records_loop.simps [simp del]

definition shape :: "byte \<times> bytes \<Rightarrow> nat \<times> nat" where
  "shape r = (unat (fst r), length (snd r))"

definition shape_key :: "byte \<times> bytes \<Rightarrow> string" where
  "shape_key r = dec (unat (fst r)) @ '':'' @ dec (length (snd r))"

text \<open>Both loops compare offsets with the same header and length fields as the strict step.\<close>

lemma record_step_drop:
  assumes "i \<le> length data"
  shows "record_step (drop i data) =
     (if length data < i + 5 then Inl (ValueError ''truncated TLS header'')
      else let n = from_bytes_big (slice (i + 3) (i + 5) data) in
        if length data < i + 5 + n then Inl (ValueError ''truncated TLS record'')
        else Inr ((data ! i, slice (i + 5) (i + 5 + n) data), drop (i + (5 + n)) data))"
  using assms
  by (auto simp: record_step_def Let_def slice_def add.commute add.left_commute)

lemma encode_record_drop:
  assumes "record_ok r" and "drop i data = encode_record r @ xs" and "i \<le> length data"
  shows "i + 5 + length (snd (record_view r)) \<le> length data"
    and "from_bytes_big (slice (i + 3) (i + 5) data) = length (snd (record_view r))"
    and "data ! i = fst (record_view r)"
    and "drop (i + (5 + length (snd (record_view r)))) data = xs"
    and "length (encode_record r) = 5 + length (snd (record_view r))"
proof -
  obtain t p where v: "record_view r = (t, p)" by (cases "record_view r")
  have len: "length (encode_record r) = 5 + length (snd (record_view r))" by (cases r) simp
  then show "length (encode_record r) = 5 + length (snd (record_view r))" .
  have "length (drop i data) = length (encode_record r @ xs)" using assms(2) by simp
  with len assms(3) show le: "i + 5 + length (snd (record_view r)) \<le> length data" by simp
  have "record_step (drop i data) = Inr (record_view r, xs)"
    using assms by (simp add: record_step_encode)
  then have "length (slice (i + 5) (i + 5 + from_bytes_big (slice (i + 3) (i + 5) data)) data)
      = length (snd (record_view r))"
    and n: "i + 5 + from_bytes_big (slice (i + 3) (i + 5) data) \<le> length data"
    and t: "data ! i = fst (record_view r)"
    and d: "drop (i + (5 + from_bytes_big (slice (i + 3) (i + 5) data))) data = xs"
    using assms(3) by (auto simp: record_step_drop Let_def v split: if_splits)
  then show eq: "from_bytes_big (slice (i + 3) (i + 5) data) = length (snd (record_view r))"
    by simp
  show "data ! i = fst (record_view r)" by (fact t)
  show "drop (i + (5 + length (snd (record_view r)))) data = xs" using d eq by simp
qed

text \<open>Where the strict step fails, both loops stop.\<close>

lemma lenient_stop:
  assumes "drop i data = rest" and "i \<le> length data"
    and "rest = [] \<or> (\<exists>e. record_step rest = Inl e)"
  shows "histogram_loop data i hist recs = (hist, recs, i)"
    and "sample_records_loop data i recs = recs"
proof -
  have "length data < i + 5 \<or>
      length data < i + 5 + from_bytes_big (slice (i + 3) (i + 5) data)"
    using assms by (auto simp: record_step_drop Let_def split: if_splits)
  then show "histogram_loop data i hist recs = (hist, recs, i)"
    and "sample_records_loop data i recs = recs"
    by (auto simp: histogram_loop.simps [of data i] sample_records_loop.simps [of data i] Let_def)
qed

lemma lenient_frames:
  assumes "list_all record_ok rs" and "drop i data = concat (map encode_record rs) @ rest"
    and "i \<le> length data" and "rest = [] \<or> (\<exists>e. record_step rest = Inl e)"
  shows "histogram_loop data i hist recs =
      (fold counter_add (map (shape_key \<circ> record_view) rs) hist,
       recs @ map (shape \<circ> record_view) rs, i + length (concat (map encode_record rs)))"
    and "sample_records_loop data i recs = recs @ map (shape \<circ> record_view) rs"
  using assms
proof (induction rs arbitrary: i hist recs)
  case Nil
  {
    case 1
    then show ?case using lenient_stop(1) [of i data rest] by simp
  next
    case 2
    then show ?case using lenient_stop(2) [of i data rest] by simp
  }
next
  case (Cons r rs)
  have step: "histogram_loop data i hist recs =
      histogram_loop data (i + length (encode_record r))
        (counter_add (shape_key (record_view r)) hist) (recs @ [shape (record_view r)])"
    "sample_records_loop data i recs =
      sample_records_loop data (i + length (encode_record r)) (recs @ [shape (record_view r)])"
    "drop (i + length (encode_record r)) data = concat (map encode_record rs) @ rest"
    "i + length (encode_record r) \<le> length data"
    if "list_all record_ok (r # rs)" "drop i data = concat (map encode_record (r # rs)) @ rest"
      "i \<le> length data" for i hist recs
    using that encode_record_drop [of r i data "concat (map encode_record rs) @ rest"]
    by (simp_all add: histogram_loop.simps [of data i] sample_records_loop.simps [of data i] Let_def
        shape_def shape_key_def add.assoc)
  {
    case 1
    show ?case
      using step(1-2) [OF 1(1-3)] Cons.IH(1) [OF _ step(3,4) [OF 1(1-3)] 1(4)] 1(1) by simp
  next
    case 2
    show ?case
      using step(1-2) [OF 2(1-3)] Cons.IH(2) [OF _ step(3,4) [OF 2(1-3)] 2(4)] 2(1) by simp
  }
qed

lemma lenient_prefix:
  obtains rs rest where "list_all record_ok rs" "data = concat (map encode_record rs) @ rest"
    "rest = [] \<and> records data = Inr (map record_view rs) \<or>
     rest \<noteq> [] \<and> (\<exists>e. record_step rest = Inl e \<and> records data = Inl e)"
    "histogram_loop data 0 [] [] =
      (counter (map (shape_key \<circ> record_view) rs), map (shape \<circ> record_view) rs,
       length (concat (map encode_record rs)))"
    "sample_records_loop data 0 [] = map (shape \<circ> record_view) rs"
proof -
  obtain rs rest where rs: "list_all record_ok rs" "data = concat (map encode_record rs) @ rest"
    "rest = [] \<and> records data = Inr (map record_view rs) \<or>
     rest \<noteq> [] \<and> (\<exists>e. record_step rest = Inl e \<and> records data = Inl e)"
    using tls.loop_cases [of data] by blast
  then have "rest = [] \<or> (\<exists>e. record_step rest = Inl e)" by blast
  with rs lenient_frames [of rs 0 data rest] that show ?thesis by (simp add: counter_def)
qed

section \<open>Properties\<close>

text \<open>
  A capture made of complete records, whatever their version bytes, parses back to the types
  and payloads it was made of.
\<close>

theorem records_roundtrip:
  assumes "list_all record_ok rs"
  shows "records (concat (map encode_record rs)) = Inr (map record_view rs)"
  using assms by (rule tls.loop_encoded)

theorem records_roundtrip_witness:
  "records [22, 3, 1, 0, 2, 7, 8, 23, 3, 3, 0, 1, 9] = Inr [(22, [7, 8]), (23, [9])]"
  using records_roundtrip [of "[(22, 3, 1, [7, 8]), (23, 3, 3, [9])]"]
  by (simp add: to_bytes_big2_def)

text \<open>
  C5. The strict parser succeeds on nothing else: a result is returned exactly when the capture
  is a concatenation of records with 16-bit lengths, and the result lists them in order.
\<close>

theorem records_exact:
  "records data = Inr out \<longleftrightarrow>
     (\<exists>rs. list_all record_ok rs \<and> data = concat (map encode_record rs) \<and> out = map record_view rs)"
  by (rule tls.loop_Inr_iff)

text \<open>
  The histogram describes the longest parseable prefix: cutting the capture at
  \<open>parsed_bytes\<close> gives a capture the strict parser accepts, the histogram counts its records, and
  the cut is at the end exactly when the strict parser accepts the whole capture.
\<close>

theorem histogram_longest_prefix:
  "\<exists>rs. records (take (parsed_bytes (histogram data)) data) = Inr rs \<and>
     record_histogram (histogram data) = counter (map shape_key rs) \<and>
     first_records (histogram data) = take 24 (map shape rs) \<and>
     (parsed_bytes (histogram data) = captured_bytes (histogram data) \<and> records data = Inr rs \<or>
      parsed_bytes (histogram data) < captured_bytes (histogram data) \<and> (\<exists>e. records data = Inl e))"
proof -
  obtain rs rest where rs: "list_all record_ok rs" "data = concat (map encode_record rs) @ rest"
    "rest = [] \<and> records data = Inr (map record_view rs) \<or>
     rest \<noteq> [] \<and> (\<exists>e. record_step rest = Inl e \<and> records data = Inl e)"
    "histogram_loop data 0 [] [] =
      (counter (map (shape_key \<circ> record_view) rs), map (shape \<circ> record_view) rs,
       length (concat (map encode_record rs)))"
    by (rule lenient_prefix)
  then have "records (take (length (concat (map encode_record rs))) data) = Inr (map record_view rs)"
    by (simp add: tls.loop_encoded)
  with rs show ?thesis
    by (intro exI [of _ "map record_view rs"]) (auto simp: histogram_def)
qed

text \<open>
  \<open>sample\<close> reports the same records as \<open>histogram\<close>: its list, cut to 24 entries, is the
  histogram's \<open>first_records\<close>, and it has one entry for each record counted.
\<close>

theorem sample_records_agree:
  "first_records (histogram data) = take 24 (sample_records_loop data 0 []) \<and>
   record_histogram (histogram data) =
     counter (map (\<lambda>(t, n). dec t @ '':'' @ dec n) (sample_records_loop data 0 []))"
  by (rule lenient_prefix [of data])
    (simp add: histogram_def o_def shape_def shape_key_def)

end
