(* ===== verification/Client_Hello.thy ===== *)
theory Client_Hello
  imports Framing "HOL-Library.Multiset"
begin

unbundle bit_operations_syntax

text \<open>
  The ClientHello normaliser of \<^verbatim>\<open>reality_fingerprint.py\<close> (\<open>grease\<close>, \<open>words\<close>, \<open>hello\<close>), which
  \<^verbatim>\<open>browser_hello.py\<close> uses too. \<open>hashlib.sha256(x).hexdigest()\<close> is the argument \<open>sha\<close>. The
  extension loop works on the rest of the body from its offset \<open>p\<close>, the key-share loop on the rest
  of the extension from its \<open>offset\<close>.
\<close>

section \<open>Definitions\<close>

definition grease :: "nat \<Rightarrow> nat" where
  "grease v = (if v AND 0x0F0F = 0x0A0A \<and> v div 256 = v AND 255 then 0x0A0A else v)"

definition words :: "bytes \<Rightarrow> nat list res" where
  "words data =
     (if length data mod 2 \<noteq> 0 then Inl (ValueError ''odd uint16 vector'')
      else Inr (map (\<lambda>k. grease (from_bytes_big (slice (2 * k) (2 * k + 2) data)))
                    [0..<length data div 2]))"

definition hex_digit :: "nat \<Rightarrow> char" where
  "hex_digit d = char_of (if d < 10 then 48 + d else 87 + d)"

definition hex :: "bytes \<Rightarrow> string" where
  "hex bs = concat (map (\<lambda>b. [hex_digit (unat b div 16), hex_digit (unat b mod 16)]) bs)"

datatype ext_value =
    Key_Shares "(nat \<times> nat) list"
  | Words "nat list"
  | Variable
  | Hex string

record ext_state =
  extensions :: "(nat \<times> ext_value) list"
  order :: "nat list"
  lengths :: "(nat \<times> nat) list"
  share_hashes :: "string list"

function share_loop ::
  "(bytes \<Rightarrow> string) \<Rightarrow> bytes \<Rightarrow> (nat \<times> nat) list \<Rightarrow> string list \<Rightarrow>
   ((nat \<times> nat) list \<times> string list) res" where
  "share_loop sha rest shares hashes =
     (if rest = [] then Inr (shares, hashes)
      else let group = grease (from_bytes_big (slice 0 2 rest));
               size = from_bytes_big (slice 2 4 rest);
               public = slice 4 (4 + size) rest
           in if length public \<noteq> size then Inl (ValueError ''truncated key share'')
              else share_loop sha (drop (4 + size) rest) (shares @ [(group, size)])
                     (if group \<noteq> 0x0A0A then hashes @ [sha public] else hashes))"
  by pat_completeness auto
termination
  by (relation "measure (\<lambda>(_, rest, _). length rest)") auto

declare share_loop.simps [simp del]

definition ext_step :: "(bytes \<Rightarrow> string) \<Rightarrow> nat \<Rightarrow> bytes \<Rightarrow> ext_state \<Rightarrow> ext_state res" where
  "ext_step sha typ val st0 =
     (let st = st0\<lparr>order := order st0 @ [typ], lengths := dict_set typ (length val) (lengths st0)\<rparr>;
          put = (\<lambda>v st. st\<lparr>extensions := dict_set typ v (extensions st)\<rparr>)
      in if typ = 0x0A0A then Inr st
         else if typ = 51 then
           bind_res (share_loop sha (drop 2 val) [] (share_hashes st)) (\<lambda>(shares, hashes).
             Inr (put (Key_Shares shares) (st\<lparr>share_hashes := hashes\<rparr>)))
         else if typ = 10 \<or> typ = 13 then
           bind_res (words (drop 2 val)) (\<lambda>ws. Inr (put (Words ws) st))
         else if typ = 43 then
           bind_res (words (drop 1 val)) (\<lambda>ws. Inr (put (Words ws) st))
         else if typ = 21 \<or> typ = 65037 then Inr (put Variable st)
         else Inr (put (Hex (hex val)) st))"

function ext_loop :: "(bytes \<Rightarrow> string) \<Rightarrow> bytes \<Rightarrow> ext_state \<Rightarrow> ext_state res" where
  "ext_loop sha rest st =
     (if rest = [] then Inr st
      else let typ = grease (from_bytes_big (slice 0 2 rest));
               n = from_bytes_big (slice 2 4 rest);
               val = slice 4 (4 + n) rest
           in if length val \<noteq> n then Inl (ValueError ''truncated extension'')
              else bind_res (ext_step sha typ val st) (ext_loop sha (drop (4 + n) rest)))"
  by pat_completeness auto
termination
  by (relation "measure (\<lambda>(_, rest, _). length rest)") auto

declare ext_loop.simps [simp del]

record hello_profile =
  legacy_version :: string
  ciphers :: "nat list"
  session_id_length :: nat
  compression :: "nat list"
  extension_ids :: "nat list"
  profile_extensions :: "(nat \<times> ext_value) list"

record hello_result =
  profile :: hello_profile
  extension_order :: "nat list"
  extension_lengths :: "(nat \<times> nat) list"
  random_sha256 :: string
  session_id_sha256 :: string
  key_share_sha256 :: "string list"
  hello_bytes :: nat

definition hello :: "(bytes \<Rightarrow> string) \<Rightarrow> bytes \<Rightarrow> hello_result res" where
  "hello sha data =
     bind_res (at data 0) (\<lambda>kind.
     if kind \<noteq> 1 \<or> from_bytes_big (slice 1 4 data) + 4 \<noteq> length data
     then Inl (ValueError ''expected one complete ClientHello'')
     else let body = drop 4 data; random = slice 2 34 body in
     bind_res (at body 34) (\<lambda>b.
     let sid_len = unat b; sid = slice 35 (35 + sid_len) body; p = 35 + sid_len;
         n = from_bytes_big (slice p (p + 2) body) in
     bind_res (words (slice (p + 2) (p + 2 + n) body)) (\<lambda>cs.
     let p = p + 2 + n in
     bind_res (at body p) (\<lambda>b.
     let n = unat b; comp = map unat (slice (p + 1) (p + 1 + n) body); p = p + 1 + n;
         n = from_bytes_big (slice p (p + 2) body); p = p + 2 in
     if p + n \<noteq> length body then Inl (ValueError ''extension length mismatch'')
     else bind_res (ext_loop sha (drop p body)
                      \<lparr>extensions = [], order = [], lengths = [], share_hashes = []\<rparr>) (\<lambda>st.
     Inr \<lparr>profile = \<lparr>legacy_version = hex (take 2 body), ciphers = cs,
            session_id_length = sid_len, compression = comp,
            extension_ids = sort (order st), profile_extensions = extensions st\<rparr>,
          extension_order = order st, extension_lengths = lengths st,
          random_sha256 = sha random, session_id_sha256 = sha sid,
          key_share_sha256 = share_hashes st, hello_bytes = length data\<rparr>)))))"

section \<open>GREASE\<close>

text \<open>The sixteen reserved values of RFC 8701, and what masking does to a 16-bit value.\<close>

definition grease_values :: "nat list" where
  "grease_values = map (\<lambda>k. 0x0A0A + 0x1010 * k) [0..<16]"

lemma grease_values_list:
  "grease_values =
     [0x0A0A, 0x1A1A, 0x2A2A, 0x3A3A, 0x4A4A, 0x5A5A, 0x6A6A, 0x7A7A,
      0x8A8A, 0x9A9A, 0xAAAA, 0xBABA, 0xCACA, 0xDADA, 0xEAEA, 0xFAFA]"
  by (simp add: grease_values_def upt_rec)

lemma grease_table:
  "list_all (\<lambda>l. (257 * l) AND 0x0F0F = 0x0A0A \<longleftrightarrow> 257 * l \<in> set grease_values) [0..<256]"
  unfolding grease_values_list by (simp add: upt_rec)

lemma and_255: "(v :: nat) AND 255 = v mod 256"
proof -
  have "(255 :: nat) = mask 8" by (simp add: mask_eq_exp_minus_1)
  then show ?thesis by (simp only: take_bit_eq_mask [symmetric]) (simp add: take_bit_eq_mod)
qed

lemma grease_values_shape: "v \<in> set grease_values \<Longrightarrow> v div 256 = v mod 256 \<and> v < 65536"
  by (auto simp: grease_values_list)

lemma grease_iff:
  assumes "v < 65536"
  shows "(v AND 0x0F0F = 0x0A0A \<and> v div 256 = v AND 255) \<longleftrightarrow> v \<in> set grease_values"
proof (cases "v div 256 = v mod 256")
  case True
  define l where "l = v mod 256"
  have v: "v = 257 * l"
    using True div_mult_mod_eq [of v 256] by (simp add: l_def)
  have "l < 256" by (simp add: l_def)
  then have "v AND 0x0F0F = 0x0A0A \<longleftrightarrow> v \<in> set grease_values"
    using grease_table by (auto simp: list_all_iff v)
  with True show ?thesis by (simp add: and_255)
next
  case False
  then show ?thesis using grease_values_shape by (auto simp: and_255)
qed

lemma grease_eq: "v < 65536 \<Longrightarrow> grease v = (if v \<in> set grease_values then 0x0A0A else v)"
  by (simp only: grease_def grease_iff)

section \<open>Type-length-value frames\<close>

text \<open>
  Extensions and key shares have the same frame: a 16-bit tag, a 16-bit length and the value.
  \<open>tlv_step\<close> is what one turn of either loop reads; both are encoders' inverses.
\<close>

definition tlv_step :: "string \<Rightarrow> bytes \<Rightarrow> ((nat \<times> bytes) \<times> bytes) res" where
  "tlv_step msg xs =
     (let n = from_bytes_big (slice 2 4 xs); v = slice 4 (4 + n) xs
      in if length v \<noteq> n then Inl (ValueError msg)
         else Inr ((from_bytes_big (slice 0 2 xs), v), drop (4 + n) xs))"

function tlv_split :: "string \<Rightarrow> bytes \<Rightarrow> (nat \<times> bytes) list res" where
  "tlv_split msg xs =
     (if xs = [] then Inr []
      else let n = from_bytes_big (slice 2 4 xs); v = slice 4 (4 + n) xs
        in if length v \<noteq> n then Inl (ValueError msg)
           else bind_res (tlv_split msg (drop (4 + n) xs))
                  (\<lambda>ys. Inr ((from_bytes_big (slice 0 2 xs), v) # ys)))"
  by pat_completeness auto
termination
  by (relation "measure (\<lambda>(_, xs). length xs)") auto

declare tlv_split.simps [simp del]

fun encode_tlv :: "nat \<times> bytes \<Rightarrow> bytes" where
  "encode_tlv (t, v) = to_bytes_big2 t @ to_bytes_big2 (length v) @ v"

fun tlv_ok :: "nat \<times> bytes \<Rightarrow> bool" where
  "tlv_ok (t, v) \<longleftrightarrow> t < 65536 \<and> length v < 65536"

lemma tlv_step_encode:
  assumes "tlv_ok r"
  shows "tlv_step msg (encode_tlv r @ rest) = Inr (r, rest)"
proof -
  obtain t v where r: "r = (t, v)" by (cases r)
  define h where "h = to_bytes_big2 t @ to_bytes_big2 (length v)"
  have h: "length h = 4" "slice 0 2 h = to_bytes_big2 t" "slice 2 4 h = to_bytes_big2 (length v)"
    by (simp_all add: h_def)
  have enc: "encode_tlv r @ rest = h @ v @ rest" by (simp add: r h_def)
  have n: "from_bytes_big (slice 2 4 (h @ v @ rest)) = length v"
    and t: "from_bytes_big (slice 0 2 (h @ v @ rest)) = t"
    using assms by (simp_all add: h r)
  show ?thesis
    unfolding enc tlv_step_def n t Let_def
    by (simp add: h r drop_header [OF h(1)] slice_header [OF h(1)])
qed

interpretation tlv: framed_encoder "tlv_step msg" "tlv_split msg" encode_tlv id tlv_ok for msg
proof
  show "tlv_split msg [] = Inr []" by (simp add: tlv_split.simps)
  show "tlv_split msg xs =
      bind_res (tlv_step msg xs) (\<lambda>(x, rest). bind_res (tlv_split msg rest) (\<lambda>ys. Inr (x # ys)))"
    if "xs \<noteq> []" for xs
    using that by (simp add: tlv_split.simps [of msg xs] tlv_step_def Let_def)
  show "tlv_step msg (encode_tlv r @ rest) = Inr (id r, rest)" if "tlv_ok r" for r rest
    using that by (simp add: tlv_step_encode)
  show "encode_tlv r \<noteq> []" if "tlv_ok r" for r
    by (cases r) (simp add: to_bytes_big2_def)
qed

text \<open>Over a well-framed block the loops are folds over its items.\<close>

lemma ext_loop_split:
  "tlv_split msg xs = Inr items \<Longrightarrow>
   ext_loop sha xs st = fold_res (\<lambda>(t, v). ext_step sha (grease t) v) items st"
proof (induction msg xs arbitrary: items st rule: tlv_split.induct)
  case (1 msg xs)
  show ?case
  proof (cases "xs = []")
    case True
    with 1 show ?thesis by (simp add: tlv_split.simps ext_loop.simps)
  next
    case False
    let ?n = "from_bytes_big (slice 2 4 xs)"
    let ?v = "slice 4 (4 + ?n) xs"
    from "1.prems" False have len: "length ?v = ?n"
      by (auto simp: tlv_split.simps [of msg xs] Let_def split: if_splits)
    from "1.prems" False len obtain ys where
      ys: "tlv_split msg (drop (4 + ?n) xs) = Inr ys"
        "items = (from_bytes_big (slice 0 2 xs), ?v) # ys"
      by (auto simp: tlv_split.simps [of msg xs] Let_def res_simps)
    have "ext_loop sha (drop (4 + ?n) xs) st' =
        fold_res (\<lambda>(t, v). ext_step sha (grease t) v) ys st'" for st'
      using "1.IH" [OF False refl refl _ ys(1)] len by simp
    then have IH: "ext_loop sha (drop (4 + ?n) xs) =
        fold_res (\<lambda>(t, v). ext_step sha (grease t) v) ys"
      by (rule ext)
    show ?thesis
      using False len by (simp add: ext_loop.simps [of sha xs] Let_def ys(2) IH)
  qed
qed

lemma share_loop_split:
  "tlv_split msg xs = Inr items \<Longrightarrow>
   share_loop sha xs shares hashes =
     Inr (shares @ map (\<lambda>(g, p). (grease g, length p)) items,
          hashes @ map (\<lambda>(g, p). sha p) (filter (\<lambda>(g, p). grease g \<noteq> 0x0A0A) items))"
proof (induction msg xs arbitrary: items shares hashes rule: tlv_split.induct)
  case (1 msg xs)
  show ?case
  proof (cases "xs = []")
    case True
    with 1 show ?thesis by (simp add: tlv_split.simps share_loop.simps)
  next
    case False
    let ?n = "from_bytes_big (slice 2 4 xs)"
    let ?v = "slice 4 (4 + ?n) xs"
    from "1.prems" False have len: "length ?v = ?n"
      by (auto simp: tlv_split.simps [of msg xs] Let_def split: if_splits)
    from "1.prems" False len obtain ys where
      ys: "tlv_split msg (drop (4 + ?n) xs) = Inr ys"
        "items = (from_bytes_big (slice 0 2 xs), ?v) # ys"
      by (auto simp: tlv_split.simps [of msg xs] Let_def res_simps)
    note IH = "1.IH" [OF False refl refl _ ys(1)]
    show ?thesis
      using False len IH by (simp add: share_loop.simps [of sha xs] Let_def ys(2))
  qed
qed

section \<open>Well-formed messages\<close>

text \<open>A ClientHello as its sender has it, and the bytes it puts on the wire.\<close>

record hello_msg =
  m_version :: bytes
  m_random :: bytes
  m_session :: bytes
  m_ciphers :: "nat list"
  m_compression :: bytes
  m_exts :: "(nat \<times> bytes) list"

definition to_bytes_big3 :: "nat \<Rightarrow> bytes" where
  "to_bytes_big3 n = [word_of_nat (n div 65536), word_of_nat (n div 256), word_of_nat n]"

definition exts_block :: "hello_msg \<Rightarrow> bytes" where
  "exts_block m = concat (map encode_tlv (m_exts m))"

definition cipher_block :: "hello_msg \<Rightarrow> bytes" where
  "cipher_block m = concat (map to_bytes_big2 (m_ciphers m))"

definition hello_body :: "hello_msg \<Rightarrow> bytes" where
  "hello_body m = m_version m @ m_random m @ [word_of_nat (length (m_session m))] @ m_session m @
     to_bytes_big2 (length (cipher_block m)) @ cipher_block m @
     [word_of_nat (length (m_compression m))] @ m_compression m @
     to_bytes_big2 (length (exts_block m)) @ exts_block m"

definition encode_hello :: "hello_msg \<Rightarrow> bytes" where
  "encode_hello m = [1] @ to_bytes_big3 (length (hello_body m)) @ hello_body m"

definition hello_msg_ok :: "hello_msg \<Rightarrow> bool" where
  "hello_msg_ok m \<longleftrightarrow> length (m_version m) = 2 \<and> length (m_random m) = 32 \<and>
     length (m_session m) < 256 \<and> list_all (\<lambda>c. c < 65536) (m_ciphers m) \<and>
     length (cipher_block m) < 65536 \<and> length (m_compression m) < 256 \<and>
     list_all tlv_ok (m_exts m) \<and> length (exts_block m) < 65536"

lemma from_to_bytes_big3:
  assumes "n < 16777216"
  shows "from_bytes_big (to_bytes_big3 n) = n"
proof -
  have a: "unat (word_of_nat (n div 65536) :: byte) = n div 65536"
    using assms by (simp add: unat_of_nat)
  have b: "unat (word_of_nat (n div 256) :: byte) = (n div 256) mod 256"
    and c: "unat (word_of_nat n :: byte) = n mod 256"
    by (simp_all add: unat_of_nat)
  have d: "n div 65536 = n div 256 div 256" by (simp add: div_mult2_eq [symmetric])
  have "256 * (256 * (n div 65536) + n div 256 mod 256) + n mod 256 = n"
    unfolding d by (simp only: mult_div_mod_eq)
  then show ?thesis
    unfolding to_bytes_big3_def from_bytes_big_def foldl.simps a b c by simp
qed

lemma words_encode:
  assumes "list_all (\<lambda>c. c < 65536) cs"
  shows "words (concat (map to_bytes_big2 cs)) = Inr (map grease cs)"
proof -
  have len: "length (concat (map to_bytes_big2 cs)) = 2 * length cs"
    by (induction cs) simp_all
  have "slice (2 * k) (2 * k + 2) (concat (map to_bytes_big2 cs)) = to_bytes_big2 (cs ! k)"
    if "k < length cs" for k
    using that
  proof (induction cs arbitrary: k)
    case (Cons c cs)
    then show ?case by (cases k) simp_all
  qed simp
  with assms show ?thesis
    by (auto simp: words_def len list_all_length intro: nth_equalityI)
qed

definition ext_init :: ext_state where
  "ext_init = \<lparr>extensions = [], order = [], lengths = [], share_hashes = []\<rparr>"

text \<open>What the parser makes of a message: the extension fold and the remaining fields.\<close>

definition hello_spec :: "(bytes \<Rightarrow> string) \<Rightarrow> hello_msg \<Rightarrow> ext_state \<Rightarrow> hello_result" where
  "hello_spec sha m st =
     \<lparr>profile = \<lparr>legacy_version = hex (m_version m), ciphers = map grease (m_ciphers m),
        session_id_length = length (m_session m), compression = map unat (m_compression m),
        extension_ids = sort (order st), profile_extensions = extensions st\<rparr>,
      extension_order = order st, extension_lengths = lengths st,
      random_sha256 = sha (m_random m), session_id_sha256 = sha (m_session m),
      key_share_sha256 = share_hashes st, hello_bytes = length (encode_hello m)\<rparr>"

lemma hello_encode:
  assumes "hello_msg_ok m"
  shows "hello sha (encode_hello m) =
     bind_res (fold_res (\<lambda>(t, v). ext_step sha (grease t) v) (m_exts m) ext_init)
       (\<lambda>st. Inr (hello_spec sha m st))"
proof -
  let ?s = "length (m_session m)" and ?c = "length (cipher_block m)"
    and ?k = "length (m_compression m)" and ?e = "length (exts_block m)"
  define body where "body = hello_body m"
  define h1 where "h1 = m_version m @ m_random m @ [word_of_nat ?s]"
  define h2 where "h2 = h1 @ m_session m"
  define h3 where "h3 = h2 @ to_bytes_big2 ?c"
  define h4 where "h4 = h3 @ cipher_block m @ [word_of_nat ?k]"
  define h5 where "h5 = h4 @ m_compression m"
  define h6 where "h6 = h5 @ to_bytes_big2 ?e"
  note hs = h1_def h2_def h3_def h4_def h5_def h6_def
  note ok = assms [unfolded hello_msg_ok_def]
  have len: "length h1 = 35" "length h2 = 35 + ?s" "length h3 = 35 + ?s + 2"
    "length h4 = 35 + ?s + 2 + ?c + 1" "length h5 = 35 + ?s + 2 + ?c + 1 + ?k"
    "length h6 = 35 + ?s + 2 + ?c + 1 + ?k + 2"
    using ok by (simp_all add: hs)
  have body: "body = h1 @ m_session m @ drop (35 + ?s) body"
    "body = h2 @ to_bytes_big2 ?c @ cipher_block m @ [word_of_nat ?k] @ m_compression m @
      to_bytes_big2 ?e @ exts_block m"
    "body = h3 @ cipher_block m @ [word_of_nat ?k] @ m_compression m @ to_bytes_big2 ?e @ exts_block m"
    "body = h4 @ m_compression m @ to_bytes_big2 ?e @ exts_block m"
    "body = h5 @ to_bytes_big2 ?e @ exts_block m"
    "body = h6 @ exts_block m"
    using len by (simp_all add: body_def hello_body_def hs)
  have lenb: "length body = 35 + ?s + 2 + ?c + 1 + ?k + 2 + ?e"
    using len by (subst body(6)) simp
  have small: "unat (word_of_nat ?s :: byte) = ?s" "unat (word_of_nat ?k :: byte) = ?k"
    using ok by (simp_all add: unat_of_nat)
  have f1: "at body 34 = Inr (word_of_nat ?s)"
    using len by (subst body(1)) (simp add: at_def h1_def nth_append ok)
  have f2: "slice 2 34 body = m_random m" "take 2 body = m_version m"
    using ok len by (subst body(1), simp add: h1_def)+
  have f3: "slice 35 (35 + ?s) body = m_session m"
    by (subst body(1)) (simp only: slice_header [OF len(1)], simp)
  have f4: "slice (35 + ?s) (35 + ?s + 2) body = to_bytes_big2 ?c"
    by (subst body(2)) (simp only: slice_header [OF len(2)], simp)
  have f5: "slice (35 + ?s + 2) (35 + ?s + 2 + ?c) body = cipher_block m"
    by (subst body(3)) (simp only: slice_header [OF len(3)], simp)
  have f6: "at body (35 + ?s + 2 + ?c) = Inr (word_of_nat ?k)"
    using len by (subst body(4)) (simp add: at_def h4_def nth_append)
  have f7: "slice (35 + ?s + 2 + ?c + 1) (35 + ?s + 2 + ?c + 1 + ?k) body = m_compression m"
    by (subst body(4)) (simp only: slice_header [OF len(4)], simp)
  have f8: "slice (35 + ?s + 2 + ?c + 1 + ?k) (35 + ?s + 2 + ?c + 1 + ?k + 2) body = to_bytes_big2 ?e"
    by (subst body(5)) (simp only: slice_header [OF len(5)], simp)
  have f9: "drop (35 + ?s + 2 + ?c + 1 + ?k + 2) body = exts_block m"
    using len(6) by (subst body(6)) simp
  have data: "at (encode_hello m) 0 = Inr 1" "drop 4 (encode_hello m) = body"
    "slice 1 4 (encode_hello m) = to_bytes_big3 (length body)"
    "length (encode_hello m) = length body + 4"
    by (simp_all add: encode_hello_def at_def body_def to_bytes_big3_def slice_def)
  have lb: "from_bytes_big (to_bytes_big3 (length body)) = length body"
    by (rule from_to_bytes_big3) (use lenb ok in simp)
  have sz: "from_bytes_big (to_bytes_big2 ?c) = ?c" "from_bytes_big (to_bytes_big2 ?e) = ?e"
    using ok by simp_all
  have cs: "words (cipher_block m) = Inr (map grease (m_ciphers m))"
    unfolding cipher_block_def using ok by (intro words_encode) simp
  have "tlv_split ''truncated extension'' (exts_block m) = Inr (m_exts m)"
    using tlv.loop_encoded [of "m_exts m"] ok by (simp add: exts_block_def)
  note ex = ext_loop_split [OF this, of sha]
  show ?thesis
    unfolding hello_def data lb bind_res_simps Let_def f1 f2 small f3 f4 sz f5 cs f6 f7 f8 f9 ex
      ext_init_def [symmetric]
    by (simp add: lenb hello_spec_def data)
qed

section \<open>What a step of the extension loop keeps\<close>

text \<open>The value an extension contributes, and the hashes of its key shares.\<close>

definition ext_val :: "(bytes \<Rightarrow> string) \<Rightarrow> nat \<Rightarrow> bytes \<Rightarrow> (ext_value option \<times> string list) res" where
  "ext_val sha typ val =
     (if typ = 0x0A0A then Inr (None, [])
      else if typ = 51 then
        bind_res (share_loop sha (drop 2 val) [] []) (\<lambda>(shares, hs). Inr (Some (Key_Shares shares), hs))
      else if typ = 10 \<or> typ = 13 then bind_res (words (drop 2 val)) (\<lambda>ws. Inr (Some (Words ws), []))
      else if typ = 43 then bind_res (words (drop 1 val)) (\<lambda>ws. Inr (Some (Words ws), []))
      else if typ = 21 \<or> typ = 65037 then Inr (Some Variable, [])
      else Inr (Some (Hex (hex val)), []))"

definition ext_put :: "nat \<Rightarrow> bytes \<Rightarrow> ext_value option \<times> string list \<Rightarrow> ext_state \<Rightarrow> ext_state" where
  "ext_put typ val r st =
     \<lparr>extensions = (case fst r of None \<Rightarrow> extensions st | Some v \<Rightarrow> dict_set typ v (extensions st)),
      order = order st @ [typ], lengths = dict_set typ (length val) (lengths st),
      share_hashes = share_hashes st @ snd r\<rparr>"

lemma share_loop_hashes:
  "share_loop sha xs shares hashes =
     bind_res (share_loop sha xs shares []) (\<lambda>(ss, hs). Inr (ss, hashes @ hs))"
proof (induction xs arbitrary: shares hashes rule: length_induct)
  case (1 rest)
  show ?case
  proof (cases "rest = []")
    case True
    then show ?thesis by (simp add: share_loop.simps)
  next
    case False
    let ?n = "from_bytes_big (slice 2 4 rest)"
    have "length (drop (4 + ?n) rest) < length rest" using False by simp
    with 1 have IH: "share_loop sha (drop (4 + ?n) rest) ss hs =
        bind_res (share_loop sha (drop (4 + ?n) rest) ss []) (\<lambda>(ss, h). Inr (ss, hs @ h))" for ss hs
      by blast
    show ?thesis
      unfolding share_loop.simps [of sha rest] Let_def
      using False
      by (simp add: IH [where hs = "_ @ _"] IH [where hs = hashes] IH [where hs = "[_]"] bind_res_assoc
          case_prod_unfold)
  qed
qed

lemma ext_step_val:
  "ext_step sha typ val st = bind_res (ext_val sha typ val) (\<lambda>r. Inr (ext_put typ val r st))"
proof (cases st)
  case (fields es os ls hs)
  then show ?thesis
    by (simp add: ext_step_def ext_val_def ext_put_def Let_def bind_res_assoc case_prod_unfold
        share_loop_hashes [where hashes = hs])
qed

lemma ext_fold_order:
  "fold_res (\<lambda>(t, v). ext_step sha (grease t) v) items st = Inr st' \<Longrightarrow>
   order st' = order st @ map (grease \<circ> fst) items"
  by (induction items arbitrary: st) (auto simp: res_simps ext_step_val ext_put_def)

lemma ext_fold_Inr_iff:
  "(\<exists>st'. fold_res (\<lambda>(t, v). ext_step sha (grease t) v) items st = Inr st') \<longleftrightarrow>
   (\<forall>(t, v) \<in> set items. \<exists>r. ext_val sha (grease t) v = Inr r)"
proof (induction items arbitrary: st)
  case (Cons x items)
  obtain t v where x: "x = (t, v)" by (cases x)
  show ?case by (cases "ext_val sha (grease t) v") (simp_all add: x ext_step_val [of sha "grease t" v] Cons.IH)
qed simp

text \<open>The assignments the loop makes to its dictionary, in order.\<close>

definition contrib :: "(bytes \<Rightarrow> string) \<Rightarrow> (nat \<times> bytes) list \<Rightarrow> (nat \<times> ext_value) list" where
  "contrib sha items = concat (map (\<lambda>(t, v).
     case ext_val sha (grease t) v of Inr (Some x, _) \<Rightarrow> [(grease t, x)] | _ \<Rightarrow> []) items)"

lemma ext_fold_extensions:
  "fold_res (\<lambda>(t, v). ext_step sha (grease t) v) items st = Inr st' \<Longrightarrow>
   extensions st' = dict_update (extensions st) (contrib sha items)"
  by (induction items arbitrary: st)
    (auto simp: res_simps ext_step_val ext_put_def contrib_def dict_update_def split: option.splits)

lemma ext_val_None_iff: "ext_val sha t v = Inr (x, hs) \<Longrightarrow> x = None \<longleftrightarrow> t = 0x0A0A"
  by (auto simp: ext_val_def res_simps split: if_splits)

lemma contrib_keys:
  assumes "\<forall>(t, v) \<in> set items. \<exists>r. ext_val sha (grease t) v = Inr r"
  shows "map fst (contrib sha items) = filter (\<lambda>t. t \<noteq> 0x0A0A) (map (grease \<circ> fst) items)"
  using assms
  by (induction items) (auto simp: contrib_def dest: ext_val_None_iff split: option.splits)

lemma contrib_perm: "mset items = mset items' \<Longrightarrow> set (contrib sha items) = set (contrib sha items')"
  using mset_eq_setD [of items items'] by (simp add: contrib_def)

lemma contrib_map_of_perm:
  assumes "mset items = mset items'"
    and "\<forall>(t, v) \<in> set items. \<exists>r. ext_val sha (grease t) v = Inr r"
    and "distinct (filter (\<lambda>t. t \<noteq> 0x0A0A) (map (grease \<circ> fst) items))"
  shows "map_of (rev (contrib sha items)) = map_of (rev (contrib sha items'))"
proof -
  let ?keys = "\<lambda>xs. filter (\<lambda>t. t \<noteq> 0x0A0A) (map (grease \<circ> fst) xs)"
  have ok': "\<forall>(t, v) \<in> set items'. \<exists>r. ext_val sha (grease t) v = Inr r"
    using assms(2) mset_eq_setD [OF assms(1)] by simp
  have "mset (?keys items) = mset (?keys items')"
    using assms(1) by (simp add: mset_filter)
  then have "distinct (?keys items')"
    using assms(3) mset_eq_imp_distinct_iff by blast
  then have "distinct (map fst (rev (contrib sha items)))" "distinct (map fst (rev (contrib sha items')))"
    using assms(2,3) ok' by (simp_all add: contrib_keys rev_map [symmetric])
  then show ?thesis
    using contrib_perm [OF assms(1)] by (intro map_of_inject_set [THEN iffD2]) simp_all
qed

section \<open>Properties\<close>

text \<open>
  C6. Parsing a well-formed ClientHello gives back its fields: the version, cipher suites with
  GREASE values merged, compression methods and session-id length, and for the extensions the
  fold of the loop body over the encoded list; the only possible errors are those of an
  extension's own content.
\<close>

theorem hello_of_encoded:
  assumes "hello_msg_ok m"
  shows "hello sha (encode_hello m) =
     bind_res (fold_res (\<lambda>(t, v). ext_step sha (grease t) v) (m_exts m) ext_init)
       (\<lambda>st. Inr (hello_spec sha m st))"
  using assms by (rule hello_encode)

text \<open>
  C7. The normalised profile does not depend on the order a browser sends its extensions in: two
  well-formed messages that differ only by a permutation of extensions with distinct types have
  the same cipher, version, compression and session fields, the same sorted extension ids and the
  same extension dictionary.
\<close>

theorem hello_profile_permutation:
  assumes "hello_msg_ok m" and "hello_msg_ok (m\<lparr>m_exts := xs\<rparr>)" and "mset xs = mset (m_exts m)"
    and "distinct (filter (\<lambda>t. t \<noteq> 0x0A0A) (map (grease \<circ> fst) (m_exts m)))"
    and "hello sha (encode_hello m) = Inr r"
  shows "\<exists>r'. hello sha (encode_hello (m\<lparr>m_exts := xs\<rparr>)) = Inr r' \<and>
     (profile r')\<lparr>profile_extensions := []\<rparr> = (profile r)\<lparr>profile_extensions := []\<rparr> \<and>
     map_of (profile_extensions (profile r')) = map_of (profile_extensions (profile r))"
proof -
  let ?f = "\<lambda>(t, v). ext_step sha (grease t) v"
  from assms(1,5) obtain st where st: "fold_res ?f (m_exts m) ext_init = Inr st"
    "r = hello_spec sha m st"
    by (auto simp: hello_encode res_simps)
  then have ok: "\<forall>(t, v) \<in> set (m_exts m). \<exists>r. ext_val sha (grease t) v = Inr r"
    using ext_fold_Inr_iff by blast
  then have "\<forall>(t, v) \<in> set xs. \<exists>r. ext_val sha (grease t) v = Inr r"
    using mset_eq_setD [OF assms(3)] by simp
  then obtain st' where st': "fold_res ?f xs ext_init = Inr st'"
    using ext_fold_Inr_iff by blast
  have "sort (order st') = sort (order st)"
    using ext_fold_order [OF st(1)] ext_fold_order [OF st'] assms(3)
    by (intro properties_for_sort) (simp_all add: ext_init_def)
  moreover have "map_of (extensions st') = map_of (extensions st)"
    using contrib_map_of_perm [OF assms(3) [symmetric] ok assms(4)]
    by (simp add: ext_fold_extensions [OF st(1)] ext_fold_extensions [OF st'] map_of_dict_update ext_init_def)
  ultimately show ?thesis
    using assms(2) st st' by (simp add: hello_encode hello_spec_def)
qed

theorem hello_profile_permutation_witness:
  "\<exists>r r'. hello (\<lambda>_. []) (encode_hello \<lparr>m_version = [3, 3], m_random = replicate 32 7, m_session = [],
       m_ciphers = [0x1301], m_compression = [0], m_exts = [(43, [2, 3, 4]), (0x1A1A, [])]\<rparr>) = Inr r \<and>
     hello (\<lambda>_. []) (encode_hello \<lparr>m_version = [3, 3], m_random = replicate 32 7, m_session = [],
       m_ciphers = [0x1301], m_compression = [0], m_exts = [(0x1A1A, []), (43, [2, 3, 4])]\<rparr>) = Inr r' \<and>
     map_of (profile_extensions (profile r')) = map_of (profile_extensions (profile r))"
proof -
  define m where "m = \<lparr>m_version = [3, 3], m_random = replicate 32 7, m_session = [],
       m_ciphers = [0x1301], m_compression = [0], m_exts = [(43, [2, 3, 4]), (0x1A1A, [])]\<rparr>"
  let ?xs = "[(0x1A1A, []), (43, [2, 3, 4])] :: (nat \<times> bytes) list"
  have g: "grease 43 = 43" "grease 0x1A1A = 0x0A0A" "grease 0x304 = 0x304"
    by (simp_all add: grease_def)
  have ok: "hello_msg_ok m" "hello_msg_ok (m\<lparr>m_exts := ?xs\<rparr>)" "mset ?xs = mset (m_exts m)"
    "distinct (filter (\<lambda>t. t \<noteq> 0x0A0A) (map (grease \<circ> fst) (m_exts m)))"
    by (simp_all add: m_def hello_msg_ok_def cipher_block_def exts_block_def g)
  have "\<exists>st. fold_res (\<lambda>(t, v). ext_step (\<lambda>_. []) (grease t) v) (m_exts m) ext_init = Inr st"
    by (simp add: m_def ext_step_val ext_val_def g words_def)
  then obtain r where "hello (\<lambda>_. []) (encode_hello m) = Inr r"
    using ok(1) by (auto simp: hello_encode)
  from hello_profile_permutation [OF ok this] this show ?thesis
    by (auto simp: m_def)
qed


definition public_part ::
  "hello_result \<Rightarrow> hello_profile \<times> nat list \<times> (nat \<times> nat) list \<times> nat" where
  "public_part r = (profile r, extension_order r, extension_lengths r, hello_bytes r)"

definition same_shares :: "bytes \<Rightarrow> bytes \<Rightarrow> bool" where
  "same_shares v v' \<longleftrightarrow> length v = length v' \<and>
     (\<exists>ss ss'. tlv_split ''truncated key share'' (drop 2 v) = Inr ss \<and>
        tlv_split ''truncated key share'' (drop 2 v') = Inr ss' \<and>
        map (\<lambda>(g, p). (grease g, length p)) ss = map (\<lambda>(g, p). (grease g, length p)) ss')"

definition same_public :: "hello_msg \<Rightarrow> hello_msg \<Rightarrow> bool" where
  "same_public m m' \<longleftrightarrow> m_version m = m_version m' \<and> m_ciphers m = m_ciphers m' \<and>
     m_compression m = m_compression m' \<and> length (m_session m) = length (m_session m') \<and>
     list_all2 (\<lambda>(t, v) (t', v'). t = t' \<and> (v = v' \<and> grease t \<noteq> 51 \<or> grease t = 51 \<and> same_shares v v'))
       (m_exts m) (m_exts m')"

lemma ext_val_public:
  assumes "v = v' \<and> t \<noteq> 51 \<or> t = 51 \<and> same_shares v v'"
  shows "map_sum id fst (ext_val sha t v) = map_sum id fst (ext_val sha' t v')"
  using assms
proof
  assume "v = v' \<and> t \<noteq> 51"
  then show ?thesis by (cases "words (drop 2 v)"; cases "words (drop 1 v)") (simp_all add: ext_val_def)
next
  assume a: "t = 51 \<and> same_shares v v'"
  then obtain ss ss' where "tlv_split ''truncated key share'' (drop 2 v) = Inr ss"
    "tlv_split ''truncated key share'' (drop 2 v') = Inr ss'"
    "map (\<lambda>(g, p). (grease g, length p)) ss = map (\<lambda>(g, p). (grease g, length p)) ss'"
    by (auto simp: same_shares_def)
  with a share_loop_split [of _ "drop 2 v" ss] share_loop_split [of _ "drop 2 v'" ss'] show ?thesis
    by (simp add: ext_val_def)
qed

abbreviation forget_hashes :: "ext_state \<Rightarrow> ext_state" where
  "forget_hashes st \<equiv> st\<lparr>share_hashes := []\<rparr>"

lemma ext_fold_public:
  assumes "list_all2 (\<lambda>(t, v) (t', v'). t = t' \<and>
      (v = v' \<and> grease t \<noteq> 51 \<or> grease t = 51 \<and> same_shares v v')) xs ys"
    and "forget_hashes st = forget_hashes st'"
  shows "map_sum id forget_hashes (fold_res (\<lambda>(t, v). ext_step sha (grease t) v) xs st) =
    map_sum id forget_hashes (fold_res (\<lambda>(t, v). ext_step sha' (grease t) v) ys st')"
  using assms
proof (induction xs ys arbitrary: st st' rule: list_all2_induct)
  case Nil
  then show ?case by simp
next
  case (Cons x xs y ys)
  obtain t v v' where xy: "x = (t, v)" "y = (t, v')"
    and v: "v = v' \<and> grease t \<noteq> 51 \<or> grease t = 51 \<and> same_shares v v'"
    using Cons.hyps(1) by (cases x; cases y) auto
  have len: "length v = length v'" using v by (auto simp: same_shares_def)
  note ev = ext_val_public [OF v, of sha sha']
  show ?case
  proof (cases "ext_val sha (grease t) v")
    case (Inl e)
    with ev show ?thesis by (cases "ext_val sha' (grease t) v'") (simp_all add: xy ext_step_val)
  next
    case (Inr r)
    with ev obtain r' where r': "ext_val sha' (grease t) v' = Inr r'" "fst r' = fst r"
      by (cases "ext_val sha' (grease t) v'") auto
    have "forget_hashes (ext_put (grease t) v r st) = forget_hashes (ext_put (grease t) v' r' st')"
      using Cons.prems by (cases st; cases st') (simp add: ext_put_def r' len split: option.split)
    from Cons.IH [OF this] show ?thesis by (simp add: xy ext_step_val Inr r')
  qed
qed

lemma same_public_length:
  assumes "hello_msg_ok m" and "hello_msg_ok m'" and "same_public m m'"
  shows "length (encode_hello m) = length (encode_hello m')"
proof -
  have "list_all2 (\<lambda>(t, v) (t', v'). t = t' \<and>
      (v = v' \<and> grease t \<noteq> 51 \<or> grease t = 51 \<and> same_shares v v')) (m_exts m) (m_exts m')"
    using assms(3) by (simp add: same_public_def)
  then have "length (exts_block m) = length (exts_block m')"
    unfolding exts_block_def by (induction rule: list_all2_induct) (auto simp: same_shares_def)
  with assms show ?thesis
    by (simp add: encode_hello_def hello_body_def same_public_def hello_msg_ok_def cipher_block_def
        to_bytes_big3_def)
qed



text \<open>
  The extension loop does not check that a whole extension header is present: two stray bytes
  after the last extension are read as one more extension with those bytes as its type and an
  empty value, instead of being rejected as truncated.
\<close>

theorem ext_loop_accepts_cut_header:
  assumes "list_all tlv_ok items"
  shows "ext_loop sha (concat (map encode_tlv items) @ [a, b]) st =
     fold_res (\<lambda>(t, v). ext_step sha (grease t) v) (items @ [(256 * unat a + unat b, [])]) st"
proof -
  have "tlv_split ''truncated extension'' [a, b] = Inr [(256 * unat a + unat b, [])]"
    by (simp add: tlv_split.simps slice_def)
  then have "tlv_split ''truncated extension'' (concat (map encode_tlv items) @ [a, b]) =
      Inr (items @ [(256 * unat a + unat b, [])])"
    using tlv.loop_encoded_append [OF assms, of "''truncated extension''" "[a, b]"] by simp
  then show ?thesis by (rule ext_loop_split)
qed

theorem ext_loop_accepts_cut_header_witness:
  "ext_loop (\<lambda>_. []) [0, 23, 0, 0, 255, 1] ext_init =
     Inr \<lparr>extensions = [(23, Hex []), (65281, Hex [])], order = [23, 65281],
       lengths = [(23, 0), (65281, 0)], share_hashes = []\<rparr>"
  using ext_loop_accepts_cut_header [of "[(23, [])]" "\<lambda>_. []" 255 1 ext_init]
  by (simp add: to_bytes_big2_def ext_step_val ext_val_def ext_put_def ext_init_def grease_def hex_def)

text \<open>
  On the 16-bit values of the wire, \<open>grease\<close> maps exactly the sixteen values RFC 8701 reserves
  to 0x0A0A, leaves every other value alone, and does not change a value it has mapped.
\<close>

theorem grease_reserved:
  assumes "v < 65536"
  shows "grease v = (if v \<in> set grease_values then 0x0A0A else v) \<and> grease (grease v) = grease v"
  using assms by (simp add: grease_eq grease_values_list)

theorem grease_reserved_witness:
  "grease 0x3A3A = 0x0A0A \<and> grease 0x3A3B = 0x3A3B"
  using grease_reserved [of "0x3A3A"] grease_reserved [of "0x3A3B"] by (simp add: grease_values_list)

text \<open>Well-formed messages exist: the hypothesis of the parsing theorem can be met.\<close>

theorem hello_of_encoded_witness:
  "\<exists>st. hello (\<lambda>_. ''h'') (encode_hello \<lparr>m_version = [3, 3], m_random = replicate 32 7,
       m_session = [1, 2], m_ciphers = [0x1301, 0x2A2A], m_compression = [0],
       m_exts = [(0, [1]), (43, [2, 3, 4])]\<rparr>) =
     Inr (hello_spec (\<lambda>_. ''h'') \<lparr>m_version = [3, 3], m_random = replicate 32 7,
       m_session = [1, 2], m_ciphers = [0x1301, 0x2A2A], m_compression = [0],
       m_exts = [(0, [1]), (43, [2, 3, 4])]\<rparr> st) \<and> order st = [0, 43]"
  by (subst hello_of_encoded)
    (simp_all add: hello_msg_ok_def cipher_block_def exts_block_def ext_step_val ext_val_def ext_put_def
      ext_init_def grease_def words_def, rule exI, rule conjI, rule refl, simp)

end
