(* ===== verification/Py_Text.thy ===== *)
theory Py_Text
  imports Prelude "HOL-Library.Sublist"
begin

text \<open>
  The \<open>str\<close> methods the scripts use: \<open>in\<close>, \<open>startswith\<close>, \<open>endswith\<close>, \<open>removesuffix\<close>, \<open>count\<close>,
  \<open>replace\<close>, \<open>index\<close>, \<open>split\<close>, \<open>splitlines\<close>, \<open>strip\<close>, \<open>join\<close>. Counting and replacing go from left to
  right over occurrences that do not overlap, as in Python; the empty pattern matches before every
  character and at the end. The library's \<open>prefix\<close> gives the laws; the definitions compute.
\<close>

abbreviation tab :: char where "tab \<equiv> CHR 0x09"
abbreviation nl :: char where "nl \<equiv> CHR 0x0A"

section \<open>Definitions\<close>

definition startswith :: "'a list \<Rightarrow> 'a list \<Rightarrow> bool" where
  "startswith s a \<longleftrightarrow> take (length a) s = a"

definition endswith :: "'a list \<Rightarrow> 'a list \<Rightarrow> bool" where
  "endswith s a \<longleftrightarrow> length a \<le> length s \<and> drop (length s - length a) s = a"

definition removesuffix :: "'a list \<Rightarrow> 'a list \<Rightarrow> 'a list" where
  "removesuffix s a = (if a \<noteq> [] \<and> endswith s a then take (length s - length a) s else s)"

fun contains :: "'a list \<Rightarrow> 'a list \<Rightarrow> bool" where
  "contains a [] \<longleftrightarrow> a = []"
| "contains a (c # s) \<longleftrightarrow> startswith (c # s) a \<or> contains a s"

function count_sub :: "'a list \<Rightarrow> 'a list \<Rightarrow> nat" where
  "count_sub a s =
     (if a = [] then Suc (length s)
      else if s = [] then 0
      else if startswith s a then Suc (count_sub a (drop (length a) s))
      else count_sub a (tl s))"
  by pat_completeness auto
termination
  by (relation "measure (\<lambda>(a, s). length s)") auto

function replace_all :: "'a list \<Rightarrow> 'a list \<Rightarrow> 'a list \<Rightarrow> 'a list" where
  "replace_all a b s =
     (if a = [] then b @ concat (map (\<lambda>c. c # b) s)
      else if s = [] then []
      else if startswith s a then b @ replace_all a b (drop (length a) s)
      else hd s # replace_all a b (tl s))"
  by pat_completeness auto
termination
  by (relation "measure (\<lambda>(a, b, s). length s)") auto

declare count_sub.simps [simp del] replace_all.simps [simp del]

fun find_sub :: "'a list \<Rightarrow> 'a list \<Rightarrow> nat option" where
  "find_sub a [] = (if a = [] then Some 0 else None)"
| "find_sub a (c # s) = (if startswith (c # s) a then Some 0 else map_option Suc (find_sub a s))"

definition index_from :: "'a list \<Rightarrow> 'a list \<Rightarrow> nat \<Rightarrow> nat res" where
  "index_from s a start =
     (case find_sub a (drop start s) of
        None \<Rightarrow> Inl (ValueError ''substring not found'') | Some i \<Rightarrow> Inr (start + i))"

fun split_char :: "char \<Rightarrow> string \<Rightarrow> string list" where
  "split_char d [] = [[]]"
| "split_char d (c # s) =
     (if c = d then [] # split_char d s
      else case split_char d s of [] \<Rightarrow> [[c]] | w # ws \<Rightarrow> (c # w) # ws)"

fun join :: "string \<Rightarrow> string list \<Rightarrow> string" where
  "join sep [] = []"
| "join sep [w] = w"
| "join sep (w # ws) = w @ sep @ join sep ws"

definition is_space :: "char \<Rightarrow> bool" where
  "is_space c \<longleftrightarrow> c \<in> {CHR 0x20, CHR 0x09, CHR 0x0A, CHR 0x0B, CHR 0x0C, CHR 0x0D}"

definition strip :: "string \<Rightarrow> string" where
  "strip s = rev (dropWhile is_space (rev (dropWhile is_space s)))"

section \<open>Prefixes and occurrences\<close>

lemma startswith_prefix: "startswith s a \<longleftrightarrow> prefix a s"
  by (auto simp: startswith_def prefix_def) (metis append_take_drop_id)

lemma startswith_append [simp]: "startswith (a @ s) a"
  by (simp add: startswith_def)

lemma endswith_append [simp]: "endswith (s @ a) a"
  by (simp add: endswith_def)

lemma endswith_suffix: "endswith s a \<longleftrightarrow> suffix a s"
  by (auto simp: endswith_def suffix_def) (metis append_take_drop_id)

lemma removesuffix_append [simp]: "removesuffix (s @ a) a = s"
  by (simp add: removesuffix_def)

lemma startswith_code [code]:
  "startswith s [] = True"
  "startswith [] (c # a) = False"
  "startswith (d # s) (c # a) = (if c = d then startswith s a else False)"
  by (auto simp: startswith_def)

lemma startswithE:
  assumes "startswith s a"
  obtains t where "s = a @ t" "drop (length a) s = t"
  using assms by (metis append_take_drop_id startswith_def)

lemma contains_iff: "contains a s \<longleftrightarrow> (\<exists>p q. s = p @ a @ q)"
proof (induction a s rule: contains.induct)
  case (1 a)
  then show ?case by auto
next
  case (2 a c s)
  show ?case
  proof
    assume "contains a (c # s)"
    then consider "startswith (c # s) a" | "contains a s" by auto
    then show "\<exists>p q. c # s = p @ a @ q"
    proof cases
      case 1
      then show ?thesis by (metis append_Nil startswithE)
    next
      case 2
      then show ?thesis using "2.IH" by (metis append_Cons)
    qed
  next
    assume "\<exists>p q. c # s = p @ a @ q"
    then obtain p q where pq: "c # s = p @ a @ q" by blast
    show "contains a (c # s)"
    proof (cases p)
      case Nil
      with pq have "startswith (c # s) a" by (metis append_Nil startswith_append)
      then show ?thesis by simp
    next
      case (Cons d p')
      with pq have "s = p' @ a @ q" by simp
      with "2.IH" show ?thesis by auto
    qed
  qed
qed

lemma contains_appendI: "contains a (p @ a @ q)"
  by (auto simp: contains_iff)

lemma contains_mono: "contains a s \<Longrightarrow> contains a (p @ s @ q)"
  by (metis append.assoc contains_iff)

lemma contains_trans: "contains a b \<Longrightarrow> contains b s \<Longrightarrow> contains a s"
  by (metis append.assoc contains_iff)

lemma count_sub_Nil [simp]: "a \<noteq> [] \<Longrightarrow> count_sub a [] = 0"
  by (simp add: count_sub.simps)

lemma count_sub_Cons:
  "a \<noteq> [] \<Longrightarrow> count_sub a (c # s) =
     (if startswith (c # s) a then Suc (count_sub a (drop (length a) (c # s))) else count_sub a s)"
  by (simp add: count_sub.simps [of a "c # s"])

lemma replace_all_Nil [simp]: "a \<noteq> [] \<Longrightarrow> replace_all a b [] = []"
  by (simp add: replace_all.simps)

lemma replace_all_Cons:
  "a \<noteq> [] \<Longrightarrow> replace_all a b (c # s) =
     (if startswith (c # s) a then b @ replace_all a b (drop (length a) (c # s))
      else c # replace_all a b s)"
  by (simp add: replace_all.simps [of a b "c # s"])

lemma count_sub_pos_iff: "a \<noteq> [] \<Longrightarrow> 0 < count_sub a s \<longleftrightarrow> contains a s"
  by (induction s) (auto simp: count_sub_Cons)

lemma replace_all_absent: "a \<noteq> [] \<Longrightarrow> \<not> contains a s \<Longrightarrow> replace_all a b s = s"
  by (induction s) (auto simp: replace_all_Cons)

text \<open>
  A text split around the first occurrence of a pattern that occurs nowhere after it: an
  occurrence that starts earlier would lie within \<open>p @ butlast a\<close>.
\<close>

definition only_at :: "'a list \<Rightarrow> 'a list \<Rightarrow> 'a list \<Rightarrow> 'a list \<Rightarrow> bool" where
  "only_at a s p q \<longleftrightarrow> s = p @ a @ q \<and> \<not> contains a q \<and> \<not> contains a (p @ butlast a)"

lemma contains_longer: "length s < length a \<Longrightarrow> \<not> contains a s"
  by (auto simp: contains_iff)

lemma startswith_shorter:
  "startswith (x @ y) a \<Longrightarrow> length a \<le> length x \<Longrightarrow> startswith x a"
  by (simp add: startswith_def)

lemma only_at_not_earlier:
  assumes "a \<noteq> []" and "only_at a s (d # p) q"
  shows "\<not> startswith s a"
proof
  assume "startswith s a"
  moreover have "s = ((d # p) @ butlast a) @ last a # q"
    using assms by (simp add: only_at_def)
  ultimately have "startswith ((d # p) @ butlast a) a"
    using startswith_shorter [of "(d # p) @ butlast a" "last a # q" a] by simp
  then show False
    using assms(2) by (simp add: only_at_def)
qed

lemma only_at_Cons:
  assumes "a \<noteq> []" and "\<not> startswith (c # s) a"
  shows "only_at a (c # s) (c # p) q \<longleftrightarrow> only_at a s p q"
proof -
  have "startswith (c # p @ butlast a) a \<Longrightarrow> startswith ((c # p @ butlast a) @ last a # q) a"
    by (auto simp: startswith_prefix simp del: append_Cons)
  moreover have "butlast a @ last a # q = a @ q"
    using append_butlast_last_id [OF assms(1)] by (metis append.assoc append_Cons append_Nil)
  ultimately have "startswith (c # p @ butlast a) a \<Longrightarrow> s \<noteq> p @ a @ q"
    using assms by auto
  then show ?thesis
    using assms(1) by (auto simp: only_at_def)
qed

lemma only_at_iff:
  assumes "a \<noteq> []"
  shows "count_sub a s = 1 \<longleftrightarrow> (\<exists>p q. only_at a s p q)"
proof (induction s)
  case Nil
  with assms show ?case by (simp add: only_at_def)
next
  case (Cons c s)
  show ?case
  proof (cases "startswith (c # s) a")
    case True
    then obtain t where t: "c # s = a @ t" "drop (length a) (c # s) = t" by (rule startswithE)
    have here: "only_at a (c # s) [] t \<longleftrightarrow> \<not> contains a t"
      using t assms contains_longer [of "butlast a" a] by (simp add: only_at_def)
    have "only_at a (c # s) p q \<Longrightarrow> p = [] \<and> q = t" for p q
    proof (cases p)
      case Nil
      then show "only_at a (c # s) p q \<Longrightarrow> p = [] \<and> q = t"
        using t by (simp add: only_at_def)
    next
      case (Cons d p')
      then show "only_at a (c # s) p q \<Longrightarrow> p = [] \<and> q = t"
        using True only_at_not_earlier [OF assms] by blast
    qed
    then have "(\<exists>p q. only_at a (c # s) p q) \<longleftrightarrow> \<not> contains a t" using here by blast
    then show ?thesis
      using True assms count_sub_pos_iff [OF assms, of t] by (auto simp: count_sub_Cons t(2))
  next
    case False
    have "only_at a (c # s) p q \<Longrightarrow> \<exists>p'. p = c # p'" for p q
      using False by (cases p) (auto simp: only_at_def)
    then show ?thesis
      using Cons.IH False assms only_at_Cons [OF assms False] by (auto simp: count_sub_Cons) blast+
  qed
qed

text \<open>A single occurrence is replaced where it is, and nothing else changes.\<close>

lemma replace_only_at:
  assumes "a \<noteq> []" and "only_at a s p q"
  shows "replace_all a b s = p @ b @ q"
  using assms(2)
proof (induction s arbitrary: p)
  case Nil
  with assms(1) show ?case by (simp add: only_at_def)
next
  case (Cons c s)
  show ?case
  proof (cases p)
    case Nil
    then have "c # s = a @ q" "\<not> contains a q" using Cons.prems by (simp_all add: only_at_def)
    then show ?thesis
      using assms(1) Nil by (metis append_Nil append_eq_conv_conj replace_all_Cons replace_all_absent
          startswith_append)
  next
    case p: (Cons d p')
    have "\<not> startswith (c # s) a"
      using only_at_not_earlier [OF assms(1)] Cons.prems p by blast
    with Cons assms(1) p show ?thesis
      using only_at_Cons [OF assms(1), of c s p' q]
      by (auto simp: replace_all_Cons only_at_def)
  qed
qed

section \<open>Texts that survive an edit\<close>

text \<open>
  Two texts that agree on no overlap: neither a suffix of one and a prefix of the other can
  coincide, nor can one contain the other. An edit that replaces one cannot damage the other.
\<close>

definition clash :: "'a list \<Rightarrow> 'a list \<Rightarrow> bool" where
  "clash x y \<longleftrightarrow> startswith x y \<or> startswith y x"

fun overlaps :: "'a list \<Rightarrow> 'a list \<Rightarrow> bool" where
  "overlaps [] y = False"
| "overlaps (c # x) y = (clash (c # x) y \<or> overlaps x y)"

definition overlap_free :: "'a list \<Rightarrow> 'a list \<Rightarrow> bool" where
  "overlap_free x y \<longleftrightarrow> \<not> overlaps x y \<and> \<not> overlaps y x"

lemma overlaps_drop: "i < length x \<Longrightarrow> clash (drop i x) y \<Longrightarrow> overlaps x y"
proof (induction x y arbitrary: i rule: overlaps.induct)
  case (2 c x y)
  then show ?case by (cases i) auto
qed simp

lemma clash_append: "x @ v = y @ q \<Longrightarrow> clash x y"
  by (auto simp: clash_def startswith_prefix append_eq_append_conv2)

lemma survives_cut:
  assumes "overlap_free w a" and "p @ a @ q = u @ w @ v"
  shows "contains w p \<or> contains w q"
proof -
  consider (left) "length u + length w \<le> length p" | (right) "length p + length a \<le> length u"
    | (inside) "length u \<le> length p" "length p < length u + length w"
    | (around) "length p \<le> length u" "length u < length p + length a"
    by linarith
  then show ?thesis
  proof cases
    case left
    have "take (length p) (p @ a @ q) = take (length p) (u @ w @ v)" using assms(2) by simp
    with left have "p = u @ w @ take (length p - length u - length w) v" by simp
    then show ?thesis by (auto simp: contains_iff)
  next
    case right
    have "drop (length p + length a) (p @ a @ q) = drop (length p + length a) (u @ w @ v)"
      using assms(2) by simp
    with right have "q = drop (length p + length a) u @ w @ v" by simp
    then show ?thesis by (auto simp: contains_iff)
  next
    case inside
    have "drop (length p) (p @ a @ q) = drop (length p) (u @ w @ v)" using assms(2) by simp
    with inside have "drop (length p - length u) w @ v = a @ q" by simp
    then have "overlaps w a"
      using inside by (intro overlaps_drop [of "length p - length u"] clash_append) auto
    with assms(1) show ?thesis by (simp add: overlap_free_def)
  next
    case around
    have "drop (length u) (p @ a @ q) = drop (length u) (u @ w @ v)" using assms(2) by simp
    with around have "drop (length u - length p) a @ q = w @ v" by simp
    then have "overlaps a w"
      using around by (intro overlaps_drop [of "length u - length p"] clash_append) auto
    with assms(1) show ?thesis by (simp add: overlap_free_def)
  qed
qed

lemma survives_edit:
  assumes "overlap_free w a" and "contains w (p @ a @ q)"
  shows "contains w (p @ b @ q)"
proof -
  obtain u v where "p @ a @ q = u @ w @ v" using assms(2) by (auto simp: contains_iff)
  with survives_cut [OF assms(1)] have "contains w p \<or> contains w q" by blast
  then show ?thesis
    using contains_mono [of w p "[]" "b @ q"] contains_mono [of w q "p @ b" "[]"] by auto
qed

lemma stays_absent:
  assumes "overlap_free w b" and "\<not> contains w (p @ a @ q)"
  shows "\<not> contains w (p @ b @ q)"
proof
  assume "contains w (p @ b @ q)"
  then obtain u v where "p @ b @ q = u @ w @ v" by (auto simp: contains_iff)
  with survives_cut [OF assms(1)] have "contains w p \<or> contains w q" by blast
  then show False
    using assms(2) contains_mono [of w p "[]" "a @ q"] contains_mono [of w q "p @ a" "[]"] by auto
qed

lemma only_at_absent:
  assumes "a \<noteq> []" and "overlap_free a b" and "only_at a s p q"
  shows "\<not> contains a (p @ b @ q)"
proof
  assume "contains a (p @ b @ q)"
  then obtain u v where "p @ b @ q = u @ a @ v" by (auto simp: contains_iff)
  with survives_cut [OF assms(2)] have "contains a p \<or> contains a q" by blast
  then show False
    using assms(3) contains_mono [of a p "[]" "butlast a"] by (auto simp: only_at_def)
qed

lemma replace_all_shape:
  assumes "a \<noteq> []"
  shows "replace_all a b s = s \<or> (\<exists>p x y. s = p @ a @ x \<and> replace_all a b s = p @ b @ y)"
proof (induction s)
  case (Cons c s)
  show ?case
  proof (cases "startswith (c # s) a")
    case True
    then show ?thesis
      using assms by (metis append_Nil replace_all_Cons startswithE)
  next
    case False
    with Cons assms show ?thesis
      by (auto simp: replace_all_Cons) (metis append_Cons)
  qed
qed (use assms in simp)

lemma straddled_prefix:
  assumes "\<not> overlaps w b" and "w @ v = (c # p) @ b @ y"
  shows "startswith (c # p) w"
proof (cases "length w \<le> Suc (length p)")
  case True
  then show ?thesis
    using startswith_shorter [of "c # p" "b @ y" w] assms(2) startswith_append [of w v] by simp
next
  case False
  have "drop (Suc (length p)) (w @ v) = b @ y" by (simp add: assms(2))
  with False have "drop (Suc (length p)) w @ v = b @ y" by simp
  then have "overlaps w b"
    using False by (intro overlaps_drop [of "Suc (length p)"] clash_append) auto
  with assms(1) show ?thesis by simp
qed

lemma replace_all_prefix:
  assumes "a \<noteq> []" and "overlap_free w b" and "\<not> startswith (c # s) w"
  shows "\<not> startswith (c # replace_all a b s) w"
proof
  let ?r = "replace_all a b s"
  assume r: "startswith (c # ?r) w"
  then obtain v where v: "c # ?r = w @ v" by (rule startswithE)
  with r assms(3) have "?r \<noteq> s" by auto
  then obtain p x y where p: "s = p @ a @ x" "?r = p @ b @ y"
    using replace_all_shape [OF assms(1)] by metis
  then have "startswith (c # p) w"
    using straddled_prefix [of w b v c p y] assms(2) v by (simp add: overlap_free_def)
  then have "startswith ((c # p) @ a @ x) w" by (simp only: startswith_prefix prefix_prefix)
  with assms(3) p show False by simp
qed

lemma replace_all_prefix_keeps:
  assumes "a \<noteq> []" and "overlap_free w a" and "startswith (c # s) w"
  shows "startswith (c # replace_all a b s) w"
proof (cases "replace_all a b s = s")
  case False
  then obtain p x y where p: "s = p @ a @ x" "replace_all a b s = p @ b @ y"
    using replace_all_shape [OF assms(1)] by metis
  obtain v where "c # s = w @ v" using assms(3) by (rule startswithE)
  then have "startswith (c # p) w"
    using straddled_prefix [of w a v c p x] assms(2) p(1) by (simp add: overlap_free_def)
  then have "startswith ((c # p) @ b @ y) w" by (simp only: startswith_prefix prefix_prefix)
  with p show ?thesis by simp
qed (use assms in simp)

lemma replace_all_keeps:
  assumes "a \<noteq> []" and "w \<noteq> []" and "overlap_free w a" and "contains w s"
  shows "contains w (replace_all a b s)"
  using assms(4)
proof (induction s rule: length_induct)
  case (1 s)
  then obtain c s' where s: "s = c # s'" using assms(2) by (cases s) auto
  show ?case
  proof (cases "startswith s a")
    case True
    then obtain t where t: "s = a @ t" "drop (length a) s = t" by (rule startswithE)
    then have "contains w t"
      using survives_cut [OF assms(3), of "[]" t] 1(2) assms(2) by (auto simp: contains_iff)
    then have "contains w (replace_all a b t)" using 1 t assms(1) by simp
    then show ?thesis
      using t(1) assms(1) contains_mono [of w _ b "[]"] by (simp add: replace_all.simps [of a b "a @ t"])
  next
    case False
    have "startswith s w \<or> contains w s'" using 1(2) s by simp
    then have "startswith (c # replace_all a b s') w \<or> contains w (replace_all a b s')"
      using replace_all_prefix_keeps [OF assms(1,3)] s 1(1) by auto
    then show ?thesis using False s assms(1) by (auto simp: replace_all_Cons)
  qed
qed

lemma replace_all_removes:
  assumes "a \<noteq> []" and "overlap_free a b"
  shows "\<not> contains a (replace_all a b s)"
proof (induction s rule: length_induct)
  case (1 s)
  show ?case
  proof (cases s)
    case Nil
    with assms show ?thesis by simp
  next
    case (Cons c s')
    show ?thesis
    proof (cases "startswith s a")
      case True
      then have "replace_all a b s = b @ replace_all a b (drop (length a) s)"
        using Cons assms(1) by (simp add: replace_all_Cons)
      moreover have "\<not> contains a (replace_all a b (drop (length a) s))"
        using 1 assms(1) Cons by simp
      moreover have "\<not> contains a []" using assms(1) by simp
      ultimately show ?thesis
        using survives_cut [OF assms(2), of "[]"] by (metis append_Nil contains_iff)
    next
      case False
      let ?r = "replace_all a b s'"
      have r: "replace_all a b s = c # ?r" using False Cons assms(1) by (simp add: replace_all_Cons)
      have "\<not> startswith (c # ?r) a"
        using replace_all_prefix [OF assms(1) assms(2)] False Cons by simp
      then show ?thesis using 1 Cons r by simp
    qed
  qed
qed

section \<open>Splitting and joining\<close>

lemma split_char_nonempty [simp]: "split_char d s \<noteq> []"
  by (induction d s rule: split_char.induct) (auto split: list.splits)

lemma join_split_char: "join [d] (split_char d s) = s"
proof (induction d s rule: split_char.induct)
  case (2 d c s)
  show ?case
  proof (cases "split_char d s")
    case Nil
    then show ?thesis by simp
  next
    case (Cons w ws)
    with 2 show ?thesis by (cases ws) auto
  qed
qed simp

end
