(* ===== verification/Patches.thy ===== *)
theory Patches
  imports Py_Text
begin

text \<open>
  The source patches of \<^verbatim>\<open>veil-core/scripts/build.py\<close>: \<open>replace\<close> refuses to edit unless its anchor
  occurs exactly once, and each patch is a fixed sequence of such edits, followed by a file of new
  code appended at the end (an argument here, read from \<^verbatim>\<open>patches/\<close> by the code). \<open>hunks\<close> runs the
  consecutive \<open>replace\<close> calls of a patch.
\<close>

section \<open>Definitions\<close>

definition source_changed :: "string \<Rightarrow> exn" where
  "source_changed a = RuntimeError (''upstream source changed: '' @ take 80 a)"

definition replace :: "string \<Rightarrow> string \<Rightarrow> string \<Rightarrow> string res" where
  "replace s a b =
     (if count_sub a s \<noteq> 1 then Inl (source_changed a) else Inr (replace_all a b s))"

definition hunks :: "(string \<times> string) list \<Rightarrow> string \<Rightarrow> string res" where
  "hunks hs s = fold_res (\<lambda>(a, b) s. replace s a b) hs s"

definition batch_anchor :: string where
  "batch_anchor = [tab] @ ''outBufPtr := outBufPool.Get().(*[]byte)''"

definition batch_before :: string where
  "batch_before =
       [tab] @
       ''if typ == recordTypeApplicationData && c.vers == VersionTLS13 && !c.buffering && c.b'' @
       ''ytesSent >= recordSizeBoostThreshold && len(data)>maxPlaintext''"

definition batch_after :: string where
  "batch_after =
       '' {'' @ [nl] @
       ''        return c.veilWriteApplicationBatchLocked(data)'' @ [nl] @
       ''    }'' @ [nl] @
       batch_anchor"

definition conn_hunks :: "string \<Rightarrow> (string \<times> string) list" where
  "conn_hunks padding_guard =
     [(''func (c *Conn) writeRecordLocked(typ recordType, data []byte) (int, error) {'',
       ''func (c *Conn) writeRecordLocked(typ recordType, data []byte) (int, error) {'' @ [nl] @
       [tab] @ ''if c.veilCryptoClosed { return 0, net.ErrClosed }''),
      ([tab] @ ''activeCall atomic.Int32'' @ [nl],
       [tab] @ ''activeCall atomic.Int32'' @ [nl] @
       [tab] @ ''veilCryptoClosed bool // protected by out.Mutex'' @ [nl]),
      (batch_anchor,
       replace_all ''PADDING_GUARD'' padding_guard (batch_before @ ''PADDING_GUARD'' @ batch_after)),
      ([tab] @ ''hc.cipher = suite.aead(key, iv)'',
       [tab] @ ''veilReleaseAEAD(hc.cipher)'' @ [nl] @
       [tab] @ ''hc.cipher = suite.aead(key, iv)''),
      ([tab] @ ''if x != 0 {'' @ [nl] @
       [tab, tab] @ ''// io.Writer and io.Closer'',
       [tab] @ ''defer c.veilReleaseCrypto()'' @ [nl] @
       [tab] @ ''if x != 0 {'' @ [nl] @
       [tab, tab] @ ''// io.Writer and io.Closer'')]"

definition conn_patch :: "string \<Rightarrow> string \<Rightarrow> string res" where
  "conn_patch batch s =
     (let padding_guard = (if contains ''veilPadRecords'' s then '' && c.out.veilPadRecords == 0'' else [])
      in bind_res (hunks (conn_hunks padding_guard) s) (\<lambda>s. Inr (s @ batch)))"

definition read_hunks :: "(string \<times> string) list" where
  "read_hunks =
     [([tab] @ ''for c.input.Len() == 0 {'' @ [nl] @
       [tab, tab] @ ''if err := c.readRecord(); err != nil {'' @ [nl] @
       [tab, tab, tab] @ ''return 0, err'' @ [nl] @
       [tab, tab] @ ''}'',
       [tab] @ ''if c.activeCall.Load()&1 != 0 { return 0, net.ErrClosed }'' @ [nl] @
       [tab] @ ''for c.input.Len() == 0 {'' @ [nl] @
       ''        if c.hand.Len()==0 { if err:=c.readRecord();err!=nil{return 0,err} }''),
      ([tab] @ ''n, _ := c.input.Read(b)'',
       [tab] @ ''n, _ := c.input.Read(b)'' @ [nl] @
       ''    if c.vers==VersionTLS13 && len(b)>maxPlaintext {'' @ [nl] @
       ''        var err error;n,err=c.veilDrainBufferedRecords(b,n,c.handlePostHandshakeMess'' @
       ''age);if err!=nil{return n,err}'' @ [nl] @
       ''    }'')]"

definition read_patch :: "string \<Rightarrow> string res" where
  "read_patch s = hunks read_hunks s"

definition until_anchor :: "string \<Rightarrow> string" where
  "until_anchor call = ''if err := c.readFromUntil(c.conn, '' @ call @ ''); err != nil {''"

definition reader_hunks :: "(string \<times> string) list" where
  "reader_hunks =
     [([tab] @ ''needs := n - c.rawInput.Len()'',
       [tab] @ ''if c.veilDraining { return errVeilNeedRecord }'' @ [nl] @
       [tab] @ ''needs := n - c.rawInput.Len()''),
      ([tab] @ ''c.rawInput.Grow(needs + bytes.MinRead)'',
       [tab] @ ''if c.isHandshakeComplete.Load() && c.vers==VersionTLS13 {'' @ [nl] @
       ''        return c.veilReadFromUntil(r,n)'' @ [nl] @
       ''    }'' @ [nl] @
       ''    c.rawInput.Grow(needs+bytes.MinRead)''),
      ([tab] @ ''rawInput '',
       [tab] @ ''veilDraining bool // protected by in.Mutex'' @ [nl] @
       [tab] @ ''rawInput '')] @
     map (\<lambda>call. (until_anchor call, until_anchor call @
       [nl] @
       [tab, tab] @ ''if err == errVeilNeedRecord { return err }''))
       [''recordHeaderLen'', ''recordHeaderLen+n'']"

definition reader_patch :: "string \<Rightarrow> string \<Rightarrow> string res" where
  "reader_patch reader s =
     bind_res (hunks reader_hunks s) (\<lambda>s.
     bind_res (read_patch s) (\<lambda>s. Inr (s @ reader)))"

definition padding_hunks :: "(string \<times> string) list" where
  "padding_hunks =
     [(''type halfConn struct {'',
       ''type halfConn struct {'' @ [nl] @
       [tab] @ ''veilPadRecords uint8'' @ [nl] @
       [tab] @ ''veilPadBytes, veilPadLimit uint16 // protected by Conn.out mutex''),
      ([tab, tab, tab] @ ''record[0] = byte(recordTypeApplicationData)'',
       [tab, tab, tab] @ ''if recordType(record[0]) == recordTypeApplicationData {'' @ [nl] @
       ''                extra := hc.veilRecordPadding(len(payload))'' @ [nl] @
       ''                record = append(record, make([]byte, extra)...)'' @ [nl] @
       ''                padding += extra'' @ [nl] @
       ''            }'' @ [nl] @
       [tab, tab, tab] @ ''record[0] = byte(recordTypeApplicationData)'')]"

definition padding_patch :: "string \<Rightarrow> string res" where
  "padding_patch s = hunks padding_hunks s"

definition import_hunks :: "(string \<times> string) list" where
  "import_hunks = map (\<lambda>name. ([tab] @ [CHR 0x22] @ name @ [CHR 0x22] @ [nl], []))
     [''crypto/ed25519'', ''crypto/rand'', ''crypto/hmac'', ''crypto/sha512'', ''crypto/x509'', ''math/big'']"

definition cut :: "string \<Rightarrow> string \<Rightarrow> string \<Rightarrow> string \<Rightarrow> string res" where
  "cut s from_text to_text new =
     bind_res (index_from s from_text 0) (\<lambda>start.
     bind_res (index_from s to_text start) (\<lambda>stop.
     Inr (take start s @ new @ drop stop s)))"

definition reality_certificate :: string where
  "reality_certificate =
       ''        certificate, err := veilRealityCertificate(hs.AuthKey)'' @ [nl] @
       ''        if err != nil { return err }'' @ [nl] @
       ''        hs.sigAlg, err = selectSignatureScheme(c.vers, certificate, hs.clientHello.s'' @
       ''upportedSignatureAlgorithms)'' @ [nl] @
       ''        if err != nil { return err }'' @ [nl] @
       ''        hs.cert = certificate''"

definition reality_signature :: string where
  "reality_signature =
       ''func RealityServer(ctx context.Context, conn net.Conn, config *RealityConfig) (*Conn'' @
       '', error) {''"

definition reality_fallback :: string where
  "reality_fallback =
       [nl] @
       ''    return RealityServerWithFallback(ctx, conn, config, nil)'' @ [nl] @
       ''}'' @ [nl] @
       [nl] @
       ''// RealityServerWithFallback permits a caller to own fallback forwarding.'' @ [nl] @
       ''// forward runs concurrently, once per direction. first contains any bytes'' @ [nl] @
       ''// already read from src, and is non-nil only for the downstream direction.'' @ [nl] @
       ''// It must finish forwarding before returning. Nil preserves upstream behavior.'' @ [nl] @
       ''func RealityServerWithFallback(ctx context.Context, conn net.Conn, config *RealityCo'' @
       ''nfig, forward func(dst, src net.Conn, first []byte)) (*Conn, error) {'' @ [nl] @
       ''    copyFallback := func(dst, src net.Conn, first []byte, limit *RealityLimitFallbac'' @
       ''k) {'' @ [nl] @
       ''        src = newRateLimitedConn(src, limit)'' @ [nl] @
       ''        if forward != nil {'' @ [nl] @
       ''            forward(dst, src, first)'' @ [nl] @
       ''            return'' @ [nl] @
       ''        }'' @ [nl] @
       ''        if first != nil { dst.Write(first) }'' @ [nl] @
       ''        io.Copy(dst, src)'' @ [nl] @
       ''    }'' @ [nl]"

definition reality_upload :: string where
  "reality_upload = ''io.Copy(target, newRateLimitedConn(underlying, &config.LimitFallbackUpload))''"

definition reality_download :: string where
  "reality_download =
       ''conn.Write(s2cSaved)'' @ [nl] @
       [tab, tab, tab] @
       ''io.Copy(underlying, newRateLimitedConn(target, &config.LimitFallbackDownload))''"

definition reality_patch :: "string \<Rightarrow> string res" where
  "reality_patch s =
     bind_res (hunks import_hunks s) (\<lambda>s.
     bind_res (cut s ''var realityServerCert = onceValues('' ([nl] @ ''type realityServerHandshakeStateTLS13'') []) (\<lambda>s.
     bind_res (cut s ([tab, tab] @ ''ed25519Priv, signedCert := realityServerCert()'')
                     ([nl, tab] @ ''}'' @ [nl, tab] @ ''c.buffering = true'') reality_certificate) (\<lambda>s.
     bind_res (replace s reality_signature (reality_signature @ reality_fallback)) (\<lambda>s.
     if count_sub reality_upload s \<noteq> 2
     then Inl (RuntimeError ''upstream REALITY upload paths changed'')
     else let s = replace_all reality_upload
                    ''copyFallback(target, underlying, nil, &config.LimitFallbackUpload)'' s
          in replace s reality_download
               ''copyFallback(underlying, target, s2cSaved, &config.LimitFallbackDownload)''))))"

text \<open>
  How \<open>generate\<close> patches \<^verbatim>\<open>conn.go\<close> of the module copy: the same steps for every mode, and the batch
  writer for every mode but native.
\<close>

definition payload_anchor :: string where
  "payload_anchor =
     ''return nil, fmt.Errorf('' @ [CHR 0x22] @ ''payload[0]: %v, padding: %v'' @ [CHR 0x22] @
     '', payload[0], padding)''"

abbreviation payload_hint :: string where
  "payload_hint \<equiv> ''padding = 0 // A cover length is a hint, not a limit on valid ECDSA/DER.''"

definition connection_patch :: "bool \<Rightarrow> string \<Rightarrow> string \<Rightarrow> string \<Rightarrow> string res" where
  "connection_patch native reader batch s =
     bind_res (replace s payload_anchor payload_hint) (\<lambda>s.
     bind_res (padding_patch s) (\<lambda>s.
     bind_res (reader_patch reader s) (\<lambda>s.
     if native then Inr s else conn_patch batch s)))"

section \<open>One edit\<close>

lemma replace_Inr_iff:
  assumes "a \<noteq> []"
  shows "replace s a b = Inr t \<longleftrightarrow> (\<exists>p q. only_at a s p q \<and> t = p @ b @ q)"
  using replace_only_at [OF assms] only_at_iff [OF assms, of s] by (fastforce simp: replace_def)

lemma replace_Inl_iff:
  assumes "a \<noteq> []"
  shows "replace s a b = Inl e \<longleftrightarrow>
     (\<nexists>p q. only_at a s p q) \<and> e = source_changed a"
  using only_at_iff [OF assms, of s] by (auto simp: replace_def)

lemma hunks_Nil [simp]: "hunks [] s = Inr s"
  by (simp add: hunks_def)

lemma hunks_Cons [simp]: "hunks ((a, b) # hs) s = bind_res (replace s a b) (hunks hs)"
  by (simp add: hunks_def fun_eq_iff bind_res_def split: sum.splits)

section \<open>Sequences of edits\<close>

text \<open>
  What the patches promise. A \<open>hunk_list\<close> has no empty anchor, so each edit happens at a unique
  place. An \<open>inserting\<close> list only adds text. A \<open>keeping\<close> list cannot damage an occurrence of \<open>w\<close>,
  because no anchor overlaps \<open>w\<close>.
\<close>

locale hunk_list =
  fixes hs :: "(string \<times> string) list"
  assumes anchors: "\<forall>(a, b) \<in> set hs. a \<noteq> []"
begin

lemma invariant:
  assumes "hunks hs s = Inr t" and "P s"
    and "\<And>a b p q. (a, b) \<in> set hs \<Longrightarrow> P (p @ a @ q) \<Longrightarrow> P (p @ b @ q)"
  shows "P t"
proof -
  have "list_all (\<lambda>(a, b). a \<noteq> []) ks \<Longrightarrow> set ks \<subseteq> set hs \<Longrightarrow> hunks ks s = Inr t \<Longrightarrow> P s \<Longrightarrow> P t" for ks s
  proof (induction ks arbitrary: s)
    case (Cons k ks)
    obtain a b where k: "k = (a, b)" by (cases k)
    then obtain p q where "s = p @ a @ q" "hunks ks (p @ b @ q) = Inr t"
      using Cons.prems by (auto simp: bind_res_Inr_iff replace_Inr_iff only_at_def)
    moreover from this have "P (p @ b @ q)" using Cons.prems assms(3) k by auto
    ultimately show ?case using Cons k by auto
  qed simp
  then show ?thesis using anchors assms(1,2) by (simp add: list_all_iff)
qed

lemma refusal: "hunks hs s = Inl e \<Longrightarrow> e \<in> source_changed ` set (map fst hs)"
proof -
  have "hunks ks s = Inl e \<Longrightarrow> e \<in> source_changed ` set (map fst ks)" for ks s
    by (induction ks arbitrary: s) (fastforce simp: bind_res_Inl_iff replace_def split: if_splits)+
  then show "hunks hs s = Inl e \<Longrightarrow> e \<in> source_changed ` set (map fst hs)" by blast
qed

end

locale inserting = hunk_list hs for hs +
  assumes inserts: "\<forall>(a, b) \<in> set hs. subseq a b"
begin

lemma inserts_only: "hunks hs s = Inr t \<Longrightarrow> subseq s t"
proof (erule invariant [where P = "subseq s"])
  fix a b p q
  assume "(a, b) \<in> set hs" "subseq s (p @ a @ q)"
  moreover from this have "subseq (p @ a @ q) (p @ b @ q)"
    using inserts by (intro list_emb_append_mono) auto
  ultimately show "subseq s (p @ b @ q)" by (blast intro: subseq_order.trans)
qed simp

end

locale keeping = hunk_list hs for hs +
  fixes w :: string
  assumes apart: "\<forall>(a, b) \<in> set hs. overlap_free w a"
begin

lemma keeps: "hunks hs s = Inr t \<Longrightarrow> contains w s \<Longrightarrow> contains w t"
  by (erule invariant) (use apart survives_edit in fastforce)+

end

section \<open>The patches keep their promises\<close>

lemmas patch_texts = conn_hunks_def read_hunks_def reader_hunks_def until_anchor_def
  padding_hunks_def import_hunks_def

lemma batch_guard:
  "replace_all ''PADDING_GUARD'' g (batch_before @ ''PADDING_GUARD'' @ batch_after) =
     batch_before @ g @ batch_after"
proof (rule replace_only_at)
  show "only_at ''PADDING_GUARD'' (batch_before @ ''PADDING_GUARD'' @ batch_after) batch_before batch_after"
    by code_simp
qed simp

interpretation padding: inserting padding_hunks
  by unfold_locales (auto simp: padding_hunks_def)

lemma subseq_batch: "subseq batch_anchor (batch_before @ g @ batch_after)"
proof -
  have "subseq batch_anchor batch_after" by code_simp
  then show ?thesis by (intro list_emb_append2)
qed

interpretation conn: inserting "conn_hunks g" for g
  by unfold_locales (unfold conn_hunks_def batch_guard, auto simp: subseq_batch,
    simp_all add: batch_anchor_def)

interpretation pad_keeps: keeping "tl padding_hunks" "''veilPadRecords uint8''"
  by unfold_locales (simp add: padding_hunks_def, code_simp)

interpretation reader_keeps: keeping reader_hunks "''veilPadRecords uint8''"
  by unfold_locales (simp add: patch_texts, code_simp)

interpretation read_keeps: keeping read_hunks "''veilPadRecords uint8''"
  by unfold_locales (simp add: patch_texts, code_simp)

interpretation conn_keeps: keeping "drop 3 (conn_hunks g)" "'' && c.out.veilPadRecords == 0''" for g
  by unfold_locales (simp add: conn_hunks_def, simp add: conn_hunks_def, code_simp)

lemma padding_patch_declares:
  assumes "padding_patch s = Inr t"
  shows "contains ''veilPadRecords uint8'' t"
proof -
  obtain a b where h: "padding_hunks = (a, b) # tl padding_hunks" "a \<noteq> []"
      "contains ''veilPadRecords uint8'' b"
    by (simp add: padding_hunks_def startswith_code)
  have "bind_res (replace s a b) (hunks (tl padding_hunks)) = Inr t"
    using assms hunks_Cons [of a b "tl padding_hunks" s] h(1) by (simp add: padding_patch_def)
  then obtain p q where "hunks (tl padding_hunks) (p @ b @ q) = Inr t"
    using h(2) by (auto simp: bind_res_Inr_iff replace_Inr_iff)
  then show ?thesis using h(3) contains_mono pad_keeps.keeps by metis
qed

lemma reader_patch_keeps:
  assumes "reader_patch reader s = Inr t" and "contains ''veilPadRecords uint8'' s"
  shows "contains ''veilPadRecords uint8'' t"
proof -
  obtain u v where "hunks reader_hunks s = Inr u" "hunks read_hunks u = Inr v" "t = v @ reader"
    using assms(1) by (auto simp: reader_patch_def read_patch_def bind_res_Inr_iff)
  then show ?thesis
    using assms(2) reader_keeps.keeps read_keeps.keeps contains_mono [of _ v "[]" reader] by auto
qed

lemma conn_patch_guards:
  assumes "conn_patch batch s = Inr t" and "contains ''veilPadRecords'' s"
  shows "contains '' && c.out.veilPadRecords == 0'' t"
proof -
  let ?g = "'' && c.out.veilPadRecords == 0''"
  obtain a b a' b' where h: "conn_hunks ?g =
      [(a, b), (a', b'), (batch_anchor, batch_before @ ?g @ batch_after)] @ drop 3 (conn_hunks ?g)"
    by (unfold conn_hunks_def batch_guard, simp)
  obtain u where u: "hunks (conn_hunks ?g) s = Inr u" "t = u @ batch"
    using assms by (auto simp: conn_patch_def bind_res_Inr_iff Let_def)
  have "batch_anchor \<noteq> []" by (simp add: batch_anchor_def)
  then obtain p q where "hunks (drop 3 (conn_hunks ?g)) (p @ (batch_before @ ?g @ batch_after) @ q) = Inr u"
    using u(1) by (subst (asm) h) (auto simp: bind_res_Inr_iff replace_Inr_iff)
  then have "contains ?g u"
    using conn_keeps.keeps contains_appendI [of ?g "p @ batch_before" "batch_after @ q"] by simp
  then show ?thesis using u(2) contains_mono [of ?g u "[]" batch] by simp
qed

lemma conn_patch_shape:
  assumes "conn_patch batch s = Inr t"
  shows "subseq s t \<and> endswith t batch"
proof -
  obtain g u where "hunks (conn_hunks g) s = Inr u" "t = u @ batch"
    using assms by (auto simp: conn_patch_def bind_res_Inr_iff Let_def)
  then show ?thesis using conn.inserts_only list_emb_append_mono [of _ s u "[]" batch] by auto
qed

lemma conn_anchors: "map fst (conn_hunks g) = map fst (conn_hunks [])"
  by (simp add: conn_hunks_def)

interpretation conn_declares: keeping "conn_hunks g" "''veilPadRecords uint8''" for g
proof unfold_locales
  have "\<forall>a \<in> set (map fst (conn_hunks [])). overlap_free ''veilPadRecords uint8'' a" by code_simp
  then have "\<forall>a \<in> set (map fst (conn_hunks g)). overlap_free ''veilPadRecords uint8'' a"
    by (subst conn_anchors)
  then show "\<forall>(a, b) \<in> set (conn_hunks g). overlap_free ''veilPadRecords uint8'' a" by auto
qed

definition connection_anchors :: "string list" where
  "connection_anchors =
     payload_anchor # map fst (padding_hunks @ reader_hunks @ read_hunks @ conn_hunks [])"

lemma connection_refusal:
  assumes "connection_patch native reader batch s = Inl e"
  shows "e \<in> source_changed ` set connection_anchors"
proof -
  have sub: "set (map fst padding_hunks) \<subseteq> set connection_anchors"
    "set (map fst reader_hunks) \<subseteq> set connection_anchors"
    "set (map fst read_hunks) \<subseteq> set connection_anchors"
    "set (map fst (conn_hunks [])) \<subseteq> set connection_anchors" "payload_anchor \<in> set connection_anchors"
    by (auto simp: connection_anchors_def)
  have rc: "hunks (conn_hunks g) u = Inl e \<Longrightarrow> e \<in> source_changed ` set (map fst (conn_hunks []))" for g u
    using conn.refusal [of g u e] by (simp only: conn_anchors [of g])
  have reader: "reader_patch reader u = Inl e \<Longrightarrow>
      (\<exists>v. hunks reader_hunks v = Inl e) \<or> (\<exists>v. hunks read_hunks v = Inl e)" for u
    by (auto simp: reader_patch_def read_patch_def bind_res_Inl_iff)
  have conn: "conn_patch batch u = Inl e \<Longrightarrow> \<exists>g. hunks (conn_hunks g) u = Inl e" for u
    by (auto simp: conn_patch_def bind_res_Inl_iff Let_def)
  from assms consider "e = source_changed payload_anchor"
    | u where "hunks padding_hunks u = Inl e" | u where "reader_patch reader u = Inl e"
    | u where "conn_patch batch u = Inl e"
    by (auto simp: connection_patch_def padding_patch_def replace_def bind_res_Inl_iff split: if_splits)
  then show ?thesis
  proof cases
    case 1
    then show ?thesis using sub(5) by (rule image_eqI)
  next
    case 2
    then show ?thesis using padding.refusal sub(1) by (meson image_mono subsetD)
  next
    case 3
    then show ?thesis
      using reader reader_keeps.refusal read_keeps.refusal sub(2,3) by (meson image_mono subsetD)
  next
    case 4
    then show ?thesis using conn rc sub(4) by (meson image_mono subsetD)
  qed
qed

text \<open>The texts that the last steps of the REALITY patch exchange do not interfere.\<close>

abbreviation new_upload :: string where
  "new_upload \<equiv> ''copyFallback(target, underlying, nil, &config.LimitFallbackUpload)''"

abbreviation new_download :: string where
  "new_download \<equiv> ''copyFallback(underlying, target, s2cSaved, &config.LimitFallbackDownload)''"

abbreviation fallback_name :: string where
  "fallback_name \<equiv> ''func RealityServerWithFallback(''"

lemma reality_texts_apart:
  "overlap_free reality_upload new_upload" "overlap_free reality_upload new_download"
  "overlap_free reality_download new_download" "overlap_free fallback_name reality_upload"
  "overlap_free fallback_name reality_download"
  by code_simp+

lemma reality_nonempty: "reality_upload \<noteq> []" "reality_download \<noteq> []" "reality_signature \<noteq> []"
  by (simp_all add: reality_upload_def reality_download_def reality_signature_def)

lemma fallback_declared: "contains fallback_name reality_fallback"
proof -
  have "contains fallback_name (drop 310 reality_fallback)"
    by (simp add: reality_fallback_def startswith_code)
  then show ?thesis using contains_mono [of _ "drop 310 reality_fallback" "take 310 reality_fallback" "[]"]
    by simp
qed

interpretation go_imports: hunk_list import_hunks
  by unfold_locales (simp add: import_hunks_def)

section \<open>Theorems\<close>

text \<open>
  \<open>replace\<close> edits exactly when its anchor occurs once: it then changes that occurrence and
  nothing before or after it, and otherwise it refuses with the anchor's first 80 characters.
\<close>

theorem replace_exact:
  assumes "a \<noteq> []"
  shows "(replace s a b = Inr t \<longleftrightarrow> (\<exists>p q. only_at a s p q \<and> t = p @ b @ q)) \<and>
    (replace s a b = Inl e \<longleftrightarrow> (\<nexists>p q. only_at a s p q) \<and> e = source_changed a)"
  using replace_Inr_iff [OF assms] replace_Inl_iff [OF assms] by blast

theorem replace_exact_witness:
  "replace ''let x = 1'' ''x'' ''xy'' = Inr ''let xy = 1'' \<and> only_at ''x'' ''let x = 1'' ''let '' '' = 1''"
proof -
  have "only_at ''x'' ''let x = 1'' ''let '' '' = 1''" by code_simp
  then have "replace ''let x = 1'' ''x'' ''xy'' = Inr (''let '' @ ''xy'' @ '' = 1'')"
    using replace_exact [of "''x''" "''let x = 1''"] by blast
  with \<open>only_at _ _ _ _\<close> show ?thesis by simp
qed

text \<open>
  Patching the connection of the TLS module either refuses, naming an anchor of one of its
  patches, or yields a text that declares the padding counter. In the modes with the batch
  writer the batch path is taken only when no padding is pending, and the batch writer's code is
  the end of the file; in native mode the reader's code is.
\<close>

theorem connection_patch_total:
  "case connection_patch native reader batch s of
     Inl e \<Rightarrow> e \<in> source_changed ` set connection_anchors
   | Inr t \<Rightarrow> contains ''veilPadRecords uint8'' t \<and>
       (if native then endswith t reader
        else contains '' && c.out.veilPadRecords == 0'' t \<and> endswith t batch)"
proof (cases "connection_patch native reader batch s")
  case (Inl e)
  then show ?thesis using connection_refusal by simp
next
  case (Inr t)
  then obtain u v x where steps: "padding_patch u = Inr v" "reader_patch reader v = Inr x"
      "(if native then Inr x else conn_patch batch x) = Inr t"
    by (auto simp: connection_patch_def bind_res_Inr_iff)
  have x: "contains ''veilPadRecords uint8'' x" "endswith x reader"
    using reader_patch_keeps [OF steps(2)] padding_patch_declares [OF steps(1)] steps(2)
    by (auto simp: reader_patch_def bind_res_Inr_iff)
  have "contains ''veilPadRecords'' ''veilPadRecords uint8''" by code_simp
  then have "contains ''veilPadRecords'' x" using contains_trans x(1) by blast
  then have "\<not> native \<Longrightarrow> contains '' && c.out.veilPadRecords == 0'' t \<and> endswith t batch"
    using steps(3) conn_patch_guards conn_patch_shape by auto
  moreover have "\<not> native \<Longrightarrow> contains ''veilPadRecords uint8'' t"
    using steps(3) x(1) conn_declares.keeps contains_mono [of "''veilPadRecords uint8''" _ "[]" batch]
    by (auto simp: conn_patch_def bind_res_Inr_iff Let_def)
  ultimately show ?thesis using Inr x steps(3) by (cases native) auto
qed


end
