(* ===== verification/Json.thy ===== *)
theory Json
  imports Py_Text
begin

text \<open>
  Python's \<open>json\<close> module as the scripts use it: \<open>loads\<close> on a text, \<open>dumps\<close> with the default
  separators or with an indentation, \<open>==\<close> on the values. A text is its UTF-8 encoding, so \<open>dumps\<close>
  decodes it to escape what is not ASCII and \<open>loads\<close> encodes what the escapes stand for. A float
  is kept as the text that denotes it. Every \<open>JSONDecodeError\<close> is a \<open>ValueError\<close>; its position and
  wording are left out.
\<close>

section \<open>Values and printing\<close>

datatype json =
    JNull
  | JBool bool
  | JInt int
  | JFloat string
  | JStr string
  | JArr "json list"
  | JObj "(string \<times> json) list"

abbreviation quote :: char where "quote \<equiv> CHR 0x22"
abbreviation backslash :: char where "backslash \<equiv> CHR 0x5C"

definition json_error :: exn where
  "json_error = ValueError ''invalid JSON''"

fun utf8_decode :: "string \<Rightarrow> nat list" where
  "utf8_decode [] = []"
| "utf8_decode [a] = [of_char a]"
| "utf8_decode [a, b] =
     (let x = of_char a in
      if 0xC0 \<le> x then [(x - 0xC0) * 64 + (of_char b - 0x80)] else x # utf8_decode [b])"
| "utf8_decode [a, b, c] =
     (let x = of_char a in
      if 0xE0 \<le> x then [(x - 0xE0) * 4096 + (of_char b - 0x80) * 64 + (of_char c - 0x80)]
      else if 0xC0 \<le> x then ((x - 0xC0) * 64 + (of_char b - 0x80)) # utf8_decode [c]
      else x # utf8_decode [b, c])"
| "utf8_decode (a # b # c # d # s) =
     (let x = of_char a in
      if 0xF0 \<le> x
      then ((x - 0xF0) * 262144 + (of_char b - 0x80) * 4096 + (of_char c - 0x80) * 64 + (of_char d - 0x80))
           # utf8_decode s
      else if 0xE0 \<le> x
      then ((x - 0xE0) * 4096 + (of_char b - 0x80) * 64 + (of_char c - 0x80)) # utf8_decode (d # s)
      else if 0xC0 \<le> x then ((x - 0xC0) * 64 + (of_char b - 0x80)) # utf8_decode (c # d # s)
      else x # utf8_decode (b # c # d # s))"

definition utf8 :: "nat \<Rightarrow> string" where
  "utf8 n =
     (if n < 0x80 then [char_of n]
      else if n < 0x800 then [char_of (0xC0 + n div 64), char_of (0x80 + n mod 64)]
      else if n < 0x10000
      then [char_of (0xE0 + n div 4096), char_of (0x80 + n div 64 mod 64), char_of (0x80 + n mod 64)]
      else [char_of (0xF0 + n div 262144), char_of (0x80 + n div 4096 mod 64),
            char_of (0x80 + n div 64 mod 64), char_of (0x80 + n mod 64)])"

definition hex_char :: "nat \<Rightarrow> char" where
  "hex_char d = (if d < 10 then char_of (48 + d) else char_of (87 + d))"

definition hexes :: "nat \<Rightarrow> string" where
  "hexes n = [hex_char (n div 4096 mod 16), hex_char (n div 256 mod 16), hex_char (n div 16 mod 16),
     hex_char (n mod 16)]"

definition u_escape :: "nat \<Rightarrow> string" where
  "u_escape n = [backslash, CHR ''u''] @ hexes n"

definition escape :: "nat \<Rightarrow> string" where
  "escape n =
     (if n = 0x22 then [backslash, quote]
      else if n = 0x5C then [backslash, backslash]
      else if n = 0x08 then [backslash, CHR ''b'']
      else if n = 0x0C then [backslash, CHR ''f'']
      else if n = 0x0A then [backslash, CHR ''n'']
      else if n = 0x0D then [backslash, CHR ''r'']
      else if n = 0x09 then [backslash, CHR ''t'']
      else if 0x20 \<le> n \<and> n \<le> 0x7E then [char_of n]
      else if n < 0x10000 then u_escape n
      else u_escape (0xD800 + (n - 0x10000) div 1024) @ u_escape (0xDC00 + (n - 0x10000) mod 1024))"

definition dumps_str :: "string \<Rightarrow> string" where
  "dumps_str s = [quote] @ concat (map escape (utf8_decode s)) @ [quote]"

definition newline :: "nat option \<Rightarrow> nat \<Rightarrow> string" where
  "newline ind lvl = (case ind of None \<Rightarrow> [] | Some k \<Rightarrow> nl # replicate (k * lvl) CHR '' '')"

definition item_sep :: "nat option \<Rightarrow> nat \<Rightarrow> string" where
  "item_sep ind lvl = (case ind of None \<Rightarrow> '', '' | Some k \<Rightarrow> '','' @ newline ind lvl)"

fun dumps_at :: "nat option \<Rightarrow> nat \<Rightarrow> json \<Rightarrow> string" where
  "dumps_at ind lvl JNull = ''null''"
| "dumps_at ind lvl (JBool b) = (if b then ''true'' else ''false'')"
| "dumps_at ind lvl (JInt i) = dec_int i"
| "dumps_at ind lvl (JFloat f) = f"
| "dumps_at ind lvl (JStr s) = dumps_str s"
| "dumps_at ind lvl (JArr vs) =
     (if vs = [] then ''[]''
      else ''['' @ newline ind (Suc lvl) @
           join (item_sep ind (Suc lvl)) (map (dumps_at ind (Suc lvl)) vs) @ newline ind lvl @ '']'')"
| "dumps_at ind lvl (JObj ms) =
     (if ms = [] then ''{}''
      else ''{'' @ newline ind (Suc lvl) @
           join (item_sep ind (Suc lvl))
             (map (\<lambda>(k, v). dumps_str k @ '': '' @ dumps_at ind (Suc lvl) v) ms) @ newline ind lvl @ ''}'')"

definition dumps :: "nat option \<Rightarrow> json \<Rightarrow> string" where
  "dumps ind v = dumps_at ind 0 v"

section \<open>Parsing\<close>

definition is_ws :: "char \<Rightarrow> bool" where
  "is_ws c \<longleftrightarrow> c = CHR '' '' \<or> c = tab \<or> c = nl \<or> c = CHR 0x0D"

abbreviation skip_ws :: "string \<Rightarrow> string" where
  "skip_ws \<equiv> dropWhile is_ws"

definition expect :: "char \<Rightarrow> string \<Rightarrow> string option" where
  "expect c s = (case s of [] \<Rightarrow> None | d # t \<Rightarrow> if d = c then Some t else None)"

definition hex_val :: "char \<Rightarrow> nat option" where
  "hex_val c = (let n = of_char c in
     if 48 \<le> n \<and> n \<le> 57 then Some (n - 48)
     else if 97 \<le> n \<and> n \<le> 102 then Some (n - 87)
     else if 65 \<le> n \<and> n \<le> 70 then Some (n - 55)
     else None)"

definition hex4 :: "string \<Rightarrow> (nat \<times> string) option" where
  "hex4 s = (case s of a # b # c # d # t \<Rightarrow>
       (case (hex_val a, hex_val b, hex_val c, hex_val d) of
          (Some w, Some x, Some y, Some z) \<Rightarrow> Some (w * 4096 + x * 256 + y * 16 + z, t)
        | _ \<Rightarrow> None)
     | _ \<Rightarrow> None)"

text \<open>The escape after a backslash: its text and what follows it.\<close>

definition parse_escape :: "string \<Rightarrow> (string \<times> string) res" where
  "parse_escape s = (case s of [] \<Rightarrow> Inl json_error | c # t \<Rightarrow>
     if c = CHR ''u'' then
       (case hex4 t of None \<Rightarrow> Inl json_error | Some (n, r) \<Rightarrow>
          if 0xD800 \<le> n \<and> n \<le> 0xDBFF \<and> startswith r [backslash, CHR ''u''] then
            (case hex4 (drop 2 r) of None \<Rightarrow> Inl json_error | Some (m, r') \<Rightarrow>
               if 0xDC00 \<le> m \<and> m \<le> 0xDFFF
               then Inr (utf8 (0x10000 + (n - 0xD800) * 1024 + (m - 0xDC00)), r')
               else Inr (utf8 n, r))
          else Inr (utf8 n, r))
     else if c = quote \<or> c = backslash \<or> c = CHR ''/'' then Inr ([c], t)
     else if c = CHR ''b'' then Inr ([CHR 0x08], t)
     else if c = CHR ''f'' then Inr ([CHR 0x0C], t)
     else if c = CHR ''n'' then Inr ([nl], t)
     else if c = CHR ''r'' then Inr ([CHR 0x0D], t)
     else if c = CHR ''t'' then Inr ([tab], t)
     else Inl json_error)"

lemma hex4_shorter: "hex4 s = Some (n, r) \<Longrightarrow> length r < length s"
  by (auto simp: hex4_def split: list.splits option.splits)

lemma parse_escape_shorter: "parse_escape s = Inr (x, r) \<Longrightarrow> length r < length s"
  by (auto simp: parse_escape_def split: list.splits option.splits prod.splits if_splits
      dest!: hex4_shorter)

function parse_str :: "string \<Rightarrow> (string \<times> string) res" where
  "parse_str s = (case s of [] \<Rightarrow> Inl json_error | c # t \<Rightarrow>
     if c = quote then Inr ([], t)
     else if c = backslash
     then bind_res (parse_escape t) (\<lambda>(x, r). bind_res (parse_str r) (\<lambda>(y, q). Inr (x @ y, q)))
     else if (of_char c :: nat) < 0x20 then Inl json_error
     else bind_res (parse_str t) (\<lambda>(y, q). Inr (c # y, q)))"
  by pat_completeness auto
termination
  by (relation "measure length") (auto dest: parse_escape_shorter)

declare parse_str.simps [simp del]

definition fraction :: "string \<Rightarrow> string" where
  "fraction r =
     (if startswith r ''.'' \<and> takeWhile is_digit (tl r) \<noteq> [] then CHR ''.'' # takeWhile is_digit (tl r)
      else [])"

definition exponent :: "string \<Rightarrow> string" where
  "exponent r =
     (let sign = (if startswith (tl r) ''+'' \<or> startswith (tl r) ''-'' then take 1 (tl r) else []);
          ds = takeWhile is_digit (drop (length sign) (tl r))
      in if (startswith r ''e'' \<or> startswith r ''E'') \<and> ds \<noteq> [] then take 1 r @ sign @ ds else [])"

definition parse_number :: "string \<Rightarrow> (json \<times> string) res" where
  "parse_number s =
     (let sign = (if startswith s ''-'' then ''-'' else []);
          t = drop (length sign) s;
          ds = takeWhile is_digit t
      in if ds = [] then Inl json_error
         else
           let ip = (if hd ds = CHR ''0'' then ''0'' else ds);
               r = drop (length ip) t;
               frac = fraction r;
               expo = exponent (drop (length frac) r)
           in if frac = [] \<and> expo = []
              then Inr (JInt (if sign = [] then int (undec ip) else - int (undec ip)), r)
              else Inr (JFloat (sign @ ip @ frac @ expo), drop (length frac + length expo) r))"

definition parse_literal :: "string \<Rightarrow> (json \<times> string) res" where
  "parse_literal s =
     (if startswith s ''null'' then Inr (JNull, drop 4 s)
      else if startswith s ''true'' then Inr (JBool True, drop 4 s)
      else if startswith s ''false'' then Inr (JBool False, drop 5 s)
      else if startswith s ''NaN'' then Inr (JFloat ''NaN'', drop 3 s)
      else if startswith s ''Infinity'' then Inr (JFloat ''Infinity'', drop 8 s)
      else if startswith s ''-Infinity'' then Inr (JFloat ''-Infinity'', drop 9 s)
      else parse_number s)"

text \<open>
  The first argument bounds the nesting of calls. \<open>loads\<close> gives a little more than twice the length
  of the text, which is enough: of two calls in a chain at least one consumes a character
  (\<open>loads_total\<close> below).
\<close>

definition out_of_fuel :: exn where
  "out_of_fuel = RuntimeError ''maximum recursion depth exceeded''"

fun parse_value :: "nat \<Rightarrow> string \<Rightarrow> (json \<times> string) res"
  and parse_items :: "nat \<Rightarrow> string \<Rightarrow> (json list \<times> string) res"
  and parse_members :: "nat \<Rightarrow> string \<Rightarrow> ((string \<times> json) list \<times> string) res" where
  "parse_value 0 s = Inl out_of_fuel"
| "parse_value (Suc n) s =
     (case expect quote s of Some t \<Rightarrow> bind_res (parse_str t) (\<lambda>(x, r). Inr (JStr x, r))
      | None \<Rightarrow>
     (case expect CHR ''{'' s of Some t \<Rightarrow>
        (case expect CHR ''}'' (skip_ws t) of Some r \<Rightarrow> Inr (JObj [], r)
         | None \<Rightarrow> bind_res (parse_members n (skip_ws t)) (\<lambda>(ms, r). Inr (JObj (dict_update [] ms), r)))
      | None \<Rightarrow>
     (case expect CHR ''['' s of Some t \<Rightarrow>
        (case expect CHR '']'' (skip_ws t) of Some r \<Rightarrow> Inr (JArr [], r)
         | None \<Rightarrow> bind_res (parse_items n (skip_ws t)) (\<lambda>(vs, r). Inr (JArr vs, r)))
      | None \<Rightarrow> parse_literal s)))"
| "parse_items 0 s = Inl out_of_fuel"
| "parse_items (Suc n) s =
     bind_res (parse_value n s) (\<lambda>(v, r).
     (case expect CHR '','' (skip_ws r) of Some q \<Rightarrow>
        bind_res (parse_items n (skip_ws q)) (\<lambda>(vs, q'). Inr (v # vs, q'))
      | None \<Rightarrow>
     (case expect CHR '']'' (skip_ws r) of Some q \<Rightarrow> Inr ([v], q)
      | None \<Rightarrow> Inl json_error)))"
| "parse_members 0 s = Inl out_of_fuel"
| "parse_members (Suc n) s =
     (case expect quote s of None \<Rightarrow> Inl json_error
      | Some t \<Rightarrow> bind_res (parse_str t) (\<lambda>(k, r).
     (case expect CHR '':'' (skip_ws r) of None \<Rightarrow> Inl json_error
      | Some r' \<Rightarrow> bind_res (parse_value n (skip_ws r')) (\<lambda>(v, r'').
     (case expect CHR '','' (skip_ws r'') of Some q \<Rightarrow>
        bind_res (parse_members n (skip_ws q)) (\<lambda>(ms, q'). Inr ((k, v) # ms, q'))
      | None \<Rightarrow>
     (case expect CHR ''}'' (skip_ws r'') of Some q \<Rightarrow> Inr ([(k, v)], q)
      | None \<Rightarrow> Inl json_error))))))"

definition loads :: "string \<Rightarrow> json res" where
  "loads s =
     bind_res (parse_value (2 * length s + 2) (skip_ws s)) (\<lambda>(v, r).
     if skip_ws r = [] then Inr v else Inl json_error)"

section \<open>Access and comparison\<close>

text \<open>
  Subscripting: a missing key is a \<open>KeyError\<close>, a value that is no dictionary a \<open>TypeError\<close> (kept as a
  \<open>ValueError\<close> of its own, since no script handles either).
\<close>

definition type_error :: exn where
  "type_error = RuntimeError ''TypeError''"

fun jget :: "string \<Rightarrow> json \<Rightarrow> json res" where
  "jget k (JObj ms) = dict_get k ms"
| "jget k v = Inl type_error"

text \<open>Python's \<open>==\<close>: booleans are integers, dictionaries are compared without order. The equality of
  the numbers that texts of floats denote is an argument.\<close>

lemma size_zip_left [termination_simp]: "(a, b) \<in> set (zip vs ws) \<Longrightarrow> size a < Suc (size_list size vs)"
  by (metis set_zip_leftD less_Suc_eq_le order_refl size_list_estimation')

fun py_eq :: "(json \<Rightarrow> json \<Rightarrow> bool) \<Rightarrow> json \<Rightarrow> json \<Rightarrow> bool" where
  "py_eq feq (JArr vs) (JArr ws) \<longleftrightarrow> length vs = length ws \<and> list_all (\<lambda>(v, w). py_eq feq v w) (zip vs ws)"
| "py_eq feq (JObj ms) (JObj ns) \<longleftrightarrow> length ms = length ns \<and>
     list_all (\<lambda>(k, v). case map_of ns k of None \<Rightarrow> False | Some w \<Rightarrow> py_eq feq v w) ms"
| "py_eq feq (JFloat f) w \<longleftrightarrow> feq (JFloat f) w"
| "py_eq feq v (JFloat f) \<longleftrightarrow> feq v (JFloat f)"
| "py_eq feq (JBool b) (JInt i) \<longleftrightarrow> of_bool b = i"
| "py_eq feq (JInt i) (JBool b) \<longleftrightarrow> of_bool b = i"
| "py_eq feq v w \<longleftrightarrow> v = w"

section \<open>What \<open>dumps\<close> prints, \<open>loads\<close> reads\<close>

definition utf8_ok :: "string \<Rightarrow> bool" where
  "utf8_ok s \<longleftrightarrow> concat (map utf8 (utf8_decode s)) = s \<and>
     list_all (\<lambda>n. n < 0xD800 \<or> 0xE000 \<le> n \<and> n < 0x110000) (utf8_decode s)"

fun json_ok :: "json \<Rightarrow> bool" where
  "json_ok (JFloat f) \<longleftrightarrow> False"
| "json_ok (JStr s) \<longleftrightarrow> utf8_ok s"
| "json_ok (JArr vs) \<longleftrightarrow> list_all json_ok vs"
| "json_ok (JObj ms) \<longleftrightarrow> distinct (map fst ms) \<and> list_all (\<lambda>(k, v). utf8_ok k \<and> json_ok v) ms"
| "json_ok v \<longleftrightarrow> True"

fun need :: "json \<Rightarrow> nat" where
  "need (JArr vs) = Suc (sum_list (map (\<lambda>v. Suc (need v)) vs))"
| "need (JObj ms) = Suc (sum_list (map (\<lambda>(k, v). Suc (need v)) ms))"
| "need v = 1"

definition stops :: "string \<Rightarrow> bool" where
  "stops r \<longleftrightarrow> r = [] \<or> hd r = CHR '','' \<or> hd r = CHR '']'' \<or> hd r = CHR ''}'' \<or> hd r = nl"

subsection \<open>Strings\<close>

lemma hex_val_hex_char [simp]: "d < 16 \<Longrightarrow> hex_val (hex_char d) = Some d"
  by (auto simp: hex_val_def hex_char_def Let_def of_char_of)

lemma hex4_digits:
  assumes "a < 16" and "b < 16" and "c < 16" and "d < 16"
  shows "hex4 ([hex_char a, hex_char b, hex_char c, hex_char d] @ r) = Some (a * 4096 + b * 256 + c * 16 + d, r)"
  using assms by (simp add: hex4_def)

lemma hex4_hexes:
  assumes "n < 65536"
  shows "hex4 (hexes n @ r) = Some (n, r)"
proof -
  have "n div 4096 mod 16 * 4096 + n div 256 mod 16 * 256 + n div 16 mod 16 * 16 + n mod 16 = n"
    using assms mod_mult2_eq [of n 16 4096] mod_mult2_eq [of "n div 16" 16 256] mod_mult2_eq [of "n div 256" 16 16]
    by (simp add: div_mult2_eq [symmetric])
  moreover have "hex4 ([hex_char (n div 4096 mod 16), hex_char (n div 256 mod 16),
      hex_char (n div 16 mod 16), hex_char (n mod 16)] @ r) =
      Some (n div 4096 mod 16 * 4096 + n div 256 mod 16 * 256 + n div 16 mod 16 * 16 + n mod 16, r)"
    by (rule hex4_digits) (rule mod_less_divisor, simp)+
  ultimately show ?thesis by (simp only: hexes_def)
qed

lemma special_chars:
  "char_of (0x22 :: nat) = quote" "char_of (0x5C :: nat) = backslash" "char_of (0x08 :: nat) = CHR 0x08"
  "char_of (0x0C :: nat) = CHR 0x0C" "char_of (0x0A :: nat) = nl" "char_of (0x0D :: nat) = CHR 0x0D"
  "char_of (0x09 :: nat) = tab"
  by code_simp+

lemma utf8_single: "n < 0x80 \<Longrightarrow> utf8 n = [char_of n]"
  by (simp add: utf8_def)

lemma parse_u_single:
  assumes "n < 0x10000" and "n < 0xD800 \<or> 0xE000 \<le> n"
  shows "parse_escape (tl (u_escape n) @ r) = Inr (utf8 n, r)"
  using assms by (auto simp: parse_escape_def u_escape_def hex4_hexes)

lemma parse_u_pair:
  assumes "0x10000 \<le> n" and "n < 0x110000"
  shows "parse_escape (tl (u_escape (0xD800 + (n - 0x10000) div 1024) @
           u_escape (0xDC00 + (n - 0x10000) mod 1024)) @ r) = Inr (utf8 n, r)"
proof -
  let ?m = "n - 0x10000"
  have "?m < 0x100000" using assms by simp
  then have "?m div 1024 < 1024" by (simp add: less_mult_imp_div_less)
  moreover have "?m mod 1024 < 1024" by simp
  moreover have "n = 0x10000 + ?m div 1024 * 1024 + ?m mod 1024" using assms by simp
  ultimately show ?thesis
    by (simp add: parse_escape_def u_escape_def hex4_hexes startswith_code)
qed

lemma parse_str_escape:
  assumes "n < 0xD800 \<or> 0xE000 \<le> n \<and> n < 0x110000"
  shows "parse_str (escape n @ r) = bind_res (parse_str r) (\<lambda>(y, q). Inr (utf8 n @ y, q))"
proof -
  have step: "parse_str (backslash # t) =
      bind_res (parse_escape t) (\<lambda>(x, r). bind_res (parse_str r) (\<lambda>(y, q). Inr (x @ y, q)))" for t
    by (simp add: parse_str.simps [of "backslash # t"])
  consider (plain) "n \<in> {0x22, 0x5C, 0x08, 0x0C, 0x0A, 0x0D, 0x09}"
    | (ascii) "n \<notin> {0x22, 0x5C, 0x08, 0x0C, 0x0A, 0x0D, 0x09}" "0x20 \<le> n \<and> n \<le> 0x7E"
    | (single) "n \<notin> {0x22, 0x5C, 0x08, 0x0C, 0x0A, 0x0D, 0x09}" "\<not> (0x20 \<le> n \<and> n \<le> 0x7E)" "n < 0x10000"
    | (pair) "0x10000 \<le> n"
    by fastforce
  then show ?thesis
  proof cases
    case plain
    then show ?thesis by (auto simp: escape_def step parse_escape_def utf8_single special_chars)
  next
    case ascii
    then have "char_of n \<noteq> quote" "char_of n \<noteq> backslash"
      using ascii by (auto simp: char_of_eq_iff take_bit_eq_mod)
    then show ?thesis
      using ascii by (simp add: escape_def parse_str.simps [of "char_of n # r"] of_char_of utf8_single)
  next
    case single
    then have "escape n = backslash # tl (u_escape n)" by (simp add: escape_def u_escape_def)
    then show ?thesis using single assms parse_u_single [of n r] by (simp add: step)
  next
    case pair
    then have "escape n = backslash # tl (u_escape (0xD800 + (n - 0x10000) div 1024) @
        u_escape (0xDC00 + (n - 0x10000) mod 1024))"
      by (simp add: escape_def u_escape_def)
    then show ?thesis using pair assms parse_u_pair [of n r] by (simp add: step)
  qed
qed

lemma parse_str_dumps: "utf8_ok s \<Longrightarrow> parse_str (tl (dumps_str s) @ r) = Inr (s, r)"
proof -
  have "list_all (\<lambda>n. n < 0xD800 \<or> 0xE000 \<le> n \<and> n < 0x110000) ns \<Longrightarrow>
      parse_str (concat (map escape ns) @ quote # r) = Inr (concat (map utf8 ns), r)" for ns
    by (induction ns) (simp_all add: parse_str.simps [of "quote # r"] parse_str_escape)
  then show "utf8_ok s \<Longrightarrow> parse_str (tl (dumps_str s) @ r) = Inr (s, r)"
    by (simp add: utf8_ok_def dumps_str_def)
qed

subsection \<open>Numbers\<close>

lemma takeWhile_digits:
  "list_all is_digit ds \<Longrightarrow> r = [] \<or> \<not> is_digit (hd r) \<Longrightarrow> takeWhile is_digit (ds @ r) = ds"
  by (induction ds) (auto simp: takeWhile_eq_Nil_iff)

lemma hd_dec: "hd (dec n) = CHR ''0'' \<longleftrightarrow> n = 0"
proof (induction n rule: dec.induct)
  case (1 n)
  show ?case
  proof (cases "n < 10")
    case True
    have "of_char (CHR ''0'') = (48::nat)" by code_simp
    with True have "digit n = CHR ''0'' \<longleftrightarrow> n = 0"
      using of_char_digit [of n] by (metis add_cancel_left_right of_char_eq_iff zero_less_numeral of_char_digit)
    with True show ?thesis by (simp add: dec.simps [of n])
  next
    case False
    with 1 show ?thesis by (simp add: dec.simps [of n])
  qed
qed

lemma dec_zero: "dec 0 = ''0''"
  by code_simp

lemma stops_no_digit:
  assumes "stops r"
  shows "r = [] \<or> \<not> is_digit (hd r)" "\<not> startswith r ''.''" "\<not> startswith r ''e''" "\<not> startswith r ''E''"
  using assms by (cases r; auto simp: stops_def is_digit_def startswith_code)+

lemma parse_number_dec:
  assumes "stops r" and "sg = [] \<or> sg = ''-''"
  shows "parse_number (sg @ dec n @ r) = Inr (JInt (if sg = [] then int n else - int n), r)"
proof -
  have ds: "takeWhile is_digit (dec n @ r) = dec n"
    using stops_no_digit(1) [OF assms(1)] by (intro takeWhile_digits) (auto simp: list_all_iff dec_digits)
  have ip: "(if hd (dec n) = CHR ''0'' then ''0'' else dec n) = dec n"
    by (auto simp: hd_dec dec_zero)
  have no_sign: "\<not> startswith (dec n @ r) ''-''"
  proof -
    have "is_digit (hd (dec n))" using dec_digits [of "hd (dec n)" n] by simp
    moreover have "\<not> is_digit CHR ''-''" by code_simp
    ultimately show ?thesis by (cases "dec n") (auto simp: startswith_code)
  qed
  have tail: "parse_number s = Inr (JInt (if sg = [] then int n else - int n), r)"
    if "sg = (if startswith s ''-'' then ''-'' else [])" "drop (length sg) s = dec n @ r" for s sg
    unfolding parse_number_def that(1) [symmetric] that(2) ds ip Let_def
    using stops_no_digit(2-4) [OF assms(1)] by (simp add: fraction_def exponent_def Let_def)
  show ?thesis
    using assms(2) no_sign tail [of "[]" "dec n @ r"] tail [of "''-''" "CHR ''-'' # dec n @ r"]
    by (auto simp: startswith_code)
qed

lemma parse_literal_dec_int: "stops r \<Longrightarrow> parse_literal (dec_int i @ r) = Inr (JInt i, r)"
proof -
  assume r: "stops r"
  define sg where "sg = (if i < 0 then ''-'' else [])"
  have i: "dec_int i = sg @ dec (nat \<bar>i\<bar>)" by (simp add: sg_def dec_int_def)
  have d: "is_digit (hd (dec n))" for n using dec_digits [of "hd (dec n)" n] by simp
  then obtain c t where c: "dec (nat \<bar>i\<bar>) = c # t" "is_digit c" by (metis dec_nonempty hd_Cons_tl)
  have ne: "c \<noteq> CHR ''n''" "c \<noteq> CHR ''t''" "c \<noteq> CHR ''f''" "c \<noteq> CHR ''N''" "c \<noteq> CHR ''I''"
    "c \<noteq> CHR ''-''"
    using c(2) by (auto simp: is_digit_def)
  have "parse_literal (dec_int i @ r) = parse_number (dec_int i @ r)"
    by (simp add: i sg_def c(1) parse_literal_def startswith_code ne ne [symmetric])
  also have "\<dots> = Inr (JInt i, r)"
    using parse_number_dec [OF r, of sg "nat \<bar>i\<bar>"] by (auto simp: i sg_def)
  finally show ?thesis .
qed

subsection \<open>Layout\<close>

lemma ws_chars [simp]: "is_ws CHR '' ''" "is_ws nl" "\<not> is_ws CHR '',''" "\<not> is_ws CHR '':''"
  "\<not> is_ws CHR '']''" "\<not> is_ws CHR ''}''" "\<not> is_ws quote"
  by (simp_all add: is_ws_def)

lemma skip_spaces [simp]: "skip_ws (replicate k CHR '' '' @ r) = skip_ws r"
  by (induction k) simp_all

lemma skip_newline [simp]: "skip_ws (newline ind lvl @ r) = skip_ws r"
  by (simp add: newline_def split: option.splits)

definition value_head :: "string \<Rightarrow> bool" where
  "value_head s \<longleftrightarrow> s \<noteq> [] \<and> \<not> is_ws (hd s) \<and> hd s \<noteq> CHR '']'' \<and> hd s \<noteq> CHR ''}''"

lemma value_head_append [simp]: "value_head s \<Longrightarrow> value_head (s @ r)"
  by (cases s) (auto simp: value_head_def)

lemma skip_value [simp]: "value_head s \<Longrightarrow> skip_ws s = s"
  by (cases s) (auto simp: value_head_def)

lemma expect_value [simp]:
  "value_head s \<Longrightarrow> expect CHR '']'' s = None" "value_head s \<Longrightarrow> expect CHR ''}'' s = None"
  by (cases s; auto simp: value_head_def expect_def)+

lemma dec_head: "value_head (dec_int i)"
proof -
  have "is_digit (hd (dec n))" for n using dec_digits [of "hd (dec n)" n] by simp
  moreover have "is_digit c \<Longrightarrow> \<not> is_ws c \<and> c \<noteq> CHR '']'' \<and> c \<noteq> CHR ''}''" for c
    by (auto simp: is_digit_def is_ws_def)
  ultimately show ?thesis by (auto simp: value_head_def dec_int_def is_ws_def)
qed

lemma dumps_head: "json_ok v \<Longrightarrow> value_head (dumps_at ind lvl v)"
proof (cases v)
  case (JInt i)
  then show ?thesis by (simp add: dec_head)
qed (auto simp: value_head_def dumps_str_def is_ws_def)

lemma expect_Cons [simp]: "expect c (d # t) = (if d = c then Some t else None)"
  by (simp add: expect_def)

definition closes :: "char \<Rightarrow> string \<Rightarrow> bool" where
  "closes c r \<longleftrightarrow> skip_ws r \<noteq> [] \<and> hd (skip_ws r) = c \<and> stops r"

lemma closes_newline: "c = CHR '']'' \<or> c = CHR ''}'' \<Longrightarrow> closes c (newline ind lvl @ c # r)"
  unfolding closes_def by (simp add: stops_def newline_def split: option.splits) auto

lemma stops_sep: "stops (item_sep ind lvl @ r)" "expect CHR '','' (skip_ws (item_sep ind lvl @ r)) = Some (tl (item_sep ind lvl) @ r)"
  "skip_ws (tl (item_sep ind lvl) @ r) = skip_ws r"
  by (simp_all add: item_sep_def stops_def split: option.splits)

lemma need_pos: "0 < need v"
  by (cases v) auto

subsection \<open>Values\<close>

lemma join_Cons: "ws \<noteq> [] \<Longrightarrow> join sep (w # ws) = w @ sep @ join sep ws"
  by (cases ws) auto

lemma parse_items_dumps:
  assumes "\<And>v n r. v \<in> set vs \<Longrightarrow> need v \<le> n \<Longrightarrow> stops r \<Longrightarrow>
      parse_value n (dumps_at ind lvl v @ r) = Inr (v, r)"
    and "list_all json_ok vs" and "vs \<noteq> []" and "sum_list (map (\<lambda>v. Suc (need v)) vs) \<le> n"
    and "closes CHR '']'' r"
  shows "parse_items n (join (item_sep ind lvl) (map (dumps_at ind lvl) vs) @ r) = Inr (vs, tl (skip_ws r))"
  using assms
proof (induction vs arbitrary: n)
  case (Cons v vs)
  obtain m where n: "n = Suc m" using Cons.prems(4) by (cases n) auto
  show ?case
  proof (cases "vs = []")
    case True
    have "parse_value m (dumps_at ind lvl v @ r) = Inr (v, r)"
      using Cons.prems n by (simp add: closes_def)
    moreover obtain q where "skip_ws r = CHR '']'' # q"
      using Cons.prems(5) by (cases "skip_ws r") (auto simp: closes_def)
    ultimately show ?thesis using True n by simp
  next
    case False
    have "parse_value m (dumps_at ind lvl v @ item_sep ind lvl @ x) = Inr (v, item_sep ind lvl @ x)" for x
      using Cons.prems n by (simp add: stops_sep)
    moreover have "parse_items m (join (item_sep ind lvl) (map (dumps_at ind lvl) vs) @ r) = Inr (vs, tl (skip_ws r))"
      using Cons False n by simp
    moreover have "value_head (join (item_sep ind lvl) (map (dumps_at ind lvl) vs))"
      using False Cons.prems(2) by (cases vs rule: list.exhaust; cases "tl vs")
        (auto simp: join_Cons dumps_head)
    ultimately show ?thesis using False n by (simp add: join_Cons stops_sep)
  qed
qed simp

lemma dumps_str_quote: "dumps_str s = quote # tl (dumps_str s)"
  by (simp add: dumps_str_def)

lemma parse_members_dumps:
  assumes "\<And>k v n r. (k, v) \<in> set ms \<Longrightarrow> need v \<le> n \<Longrightarrow> stops r \<Longrightarrow>
      parse_value n (dumps_at ind lvl v @ r) = Inr (v, r)"
    and "list_all (\<lambda>(k, v). utf8_ok k \<and> json_ok v) ms" and "ms \<noteq> []"
    and "sum_list (map (\<lambda>(k, v). Suc (need v)) ms) \<le> n" and "closes CHR ''}'' r"
  shows "parse_members n (join (item_sep ind lvl)
      (map (\<lambda>(k, v). dumps_str k @ '': '' @ dumps_at ind lvl v) ms) @ r) = Inr (ms, tl (skip_ws r))"
  using assms
proof (induction ms arbitrary: n)
  case (Cons kv ms)
  obtain k v where kv: "kv = (k, v)" by (cases kv)
  obtain m where n: "n = Suc m" using Cons.prems(4) kv by (cases n) auto
  have key: "parse_str (tl (dumps_str k) @ x) = Inr (k, x)" for x
    using Cons.prems(2) kv by (simp add: parse_str_dumps)
  have val: "stops x \<Longrightarrow> parse_value m (dumps_at ind lvl v @ x) = Inr (v, x)" for x
    using Cons.prems(1) [of k v m x] Cons.prems(4) kv n by simp
  have head: "value_head (dumps_at ind lvl v)" using Cons.prems(2) kv by (simp add: dumps_head)
  show ?case
  proof (cases "ms = []")
    case True
    have "parse_value m (dumps_at ind lvl v @ r) = Inr (v, r)"
      using Cons.prems(5) val by (simp add: closes_def)
    moreover obtain q where "skip_ws r = CHR ''}'' # q"
      using Cons.prems(5) by (cases "skip_ws r") (auto simp: closes_def)
    ultimately show ?thesis using True n kv head
      by (subst dumps_str_quote) (simp add: key)
  next
    case False
    let ?rest = "join (item_sep ind lvl) (map (\<lambda>(k, v). dumps_str k @ '': '' @ dumps_at ind lvl v) ms)"
    have "parse_value m (dumps_at ind lvl v @ item_sep ind lvl @ x) = Inr (v, item_sep ind lvl @ x)" for x
      by (simp add: val stops_sep)
    moreover have "parse_members m (?rest @ r) = Inr (ms, tl (skip_ws r))"
      by (rule Cons.IH) (use Cons.prems False n kv in \<open>auto intro: Cons.prems(1)\<close>)
    moreover have "value_head ?rest"
      using False by (cases ms; cases "tl ms") (auto simp: join_Cons value_head_def dumps_str_def)
    moreover have "join (item_sep ind lvl) (map (\<lambda>(k, v). dumps_str k @ '': '' @ dumps_at ind lvl v) (kv # ms)) @ r =
        quote # tl (dumps_str k) @ '': '' @ dumps_at ind lvl v @ item_sep ind lvl @ ?rest @ r"
      using False kv dumps_str_quote [of k] by (simp add: join_Cons)
    ultimately show ?thesis using n head kv by (simp add: key stops_sep)
  qed
qed simp

lemma dict_update_distinct: "distinct (map fst ms) \<Longrightarrow> dict_update [] ms = ms"
proof -
  have "distinct (map fst (d @ ms)) \<Longrightarrow> dict_update d ms = d @ ms" for d :: "('a \<times> 'b) list"
  proof (induction ms arbitrary: d)
    case (Cons m ms)
    then show ?case using Cons.IH [of "d @ [m]"]
      by (cases m) (auto simp: dict_update_def dict_set_new)
  qed (simp add: dict_update_def)
  from this [of "[]"] show "distinct (map fst ms) \<Longrightarrow> dict_update [] ms = ms" by simp
qed

lemma dec_int_head: "dec_int i \<noteq> [] \<and> (is_digit (hd (dec_int i)) \<or> hd (dec_int i) = CHR ''-'')"
  using dec_digits [of "hd (dec n)" n for n] by (simp add: dec_int_def)

lemma parse_value_dumps:
  "json_ok v \<Longrightarrow> need v \<le> n \<Longrightarrow> stops r \<Longrightarrow> parse_value n (dumps_at ind lvl v @ r) = Inr (v, r)"
proof (induction v arbitrary: n r lvl)
  case JNull
  then show ?case by (cases n) (simp_all add: parse_literal_def startswith_code)
next
  case (JBool b)
  then show ?case by (cases n) (simp_all add: parse_literal_def startswith_code)
next
  case (JInt i)
  then obtain m where "n = Suc m" by (cases n) auto
  moreover have "expect c (dec_int i @ r) = None" if "c \<in> {quote, CHR ''{'', CHR ''[''}" for c
    using that dec_int_head [of i] by (cases "dec_int i") (auto simp: expect_def is_digit_def)
  ultimately show ?case using JInt by (simp add: parse_literal_dec_int)
next
  case (JStr s)
  then obtain m where "n = Suc m" by (cases n) auto
  then show ?case using JStr by (subst dumps_at.simps, subst dumps_str_quote) (simp add: parse_str_dumps)
next
  case (JArr vs)
  then obtain m where n: "n = Suc m" by (cases n) auto
  show ?case
  proof (cases "vs = []")
    case False
    let ?b = "join (item_sep ind (Suc lvl)) (map (dumps_at ind (Suc lvl)) vs)"
    have "parse_items m (?b @ newline ind lvl @ CHR '']'' # r) = Inr (vs, r)"
      using parse_items_dumps [of vs ind "Suc lvl" m "newline ind lvl @ CHR '']'' # r"] JArr n False
      by (simp add: list_all_iff closes_newline)
    moreover have "value_head ?b"
      using False JArr.prems(1) by (cases vs; cases "tl vs") (auto simp: join_Cons dumps_head)
    ultimately show ?thesis using False n by simp
  qed (simp add: n)
next
  case (JObj ms)
  then obtain m where n: "n = Suc m" by (cases n) auto
  show ?case
  proof (cases "ms = []")
    case False
    let ?b = "join (item_sep ind (Suc lvl)) (map (\<lambda>(k, v). dumps_str k @ '': '' @ dumps_at ind (Suc lvl) v) ms)"
    have "parse_members m (?b @ newline ind lvl @ CHR ''}'' # r) = Inr (ms, r)"
      using parse_members_dumps [of ms ind "Suc lvl" m "newline ind lvl @ CHR ''}'' # r"] JObj n False
      by (fastforce simp: list_all_iff closes_newline)
    moreover have "value_head ?b"
      using False by (cases ms; cases "tl ms") (auto simp: join_Cons value_head_def dumps_str_def)
    ultimately show ?thesis using False n JObj.prems(1) by (simp add: dict_update_distinct)
  qed (simp add: n)
qed simp

lemma join_length: "ws \<noteq> [] \<Longrightarrow> length (join sep ws) = sum_list (map length ws) + (length ws - 1) * length sep"
  by (induction sep ws rule: join.induct) (auto simp: algebra_simps)

lemma dumps_str_length: "2 \<le> length (dumps_str s)"
  by (simp add: dumps_str_def)

lemma sum_list_mono2: "(\<And>x. x \<in> set xs \<Longrightarrow> f x \<le> (g x :: nat)) \<Longrightarrow> sum_list (map f xs) \<le> sum_list (map g xs)"
  by (rule sum_list_mono)

lemma item_sep_length: "1 \<le> length (item_sep ind lvl)"
  by (simp add: item_sep_def split: option.splits)

lemma join_need:
  assumes "ws \<noteq> []" and "sum_list (map f ws) \<le> sum_list (map (length \<circ> g) ws)"
  shows "sum_list (map (\<lambda>w. Suc (f w)) ws) \<le> Suc (length (join (item_sep ind lvl) (map g ws)))"
proof -
  have "sum_list (map (\<lambda>w. Suc (f w)) ws) = sum_list (map f ws) + length ws"
    by (induction ws) simp_all
  moreover have "length (join (item_sep ind lvl) (map g ws)) =
      sum_list (map (length \<circ> g) ws) + (length ws - 1) * length (item_sep ind lvl)"
    using assms(1) by (simp add: join_length comp_def)
  moreover have "length ws - 1 \<le> (length ws - 1) * length (item_sep ind lvl)"
    using item_sep_length [of ind lvl] by simp
  ultimately show ?thesis using assms by linarith
qed

lemma need_length: "json_ok v \<Longrightarrow> need v \<le> length (dumps_at ind lvl v)"
proof (induction v arbitrary: lvl)
  case (JInt i)
  then show ?case using dec_int_head [of i] by (cases "dec_int i") auto
next
  case (JStr s)
  then show ?case using dumps_str_length [of s] by simp
next
  case (JArr vs)
  then have "sum_list (map need vs) \<le> sum_list (map (length \<circ> dumps_at ind (Suc lvl)) vs)"
    by (intro sum_list_mono2) (auto simp: list_all_iff)
  with join_need [of vs need "dumps_at ind (Suc lvl)" ind "Suc lvl"] show ?case
    by (auto intro: le_SucI)
next
  case (JObj ms)
  let ?g = "\<lambda>(k, v). dumps_str k @ '': '' @ dumps_at ind (Suc lvl) v"
  have "need (snd kv) \<le> length (?g kv)" if "kv \<in> set ms" for kv
  proof -
    obtain k v where kv: "kv = (k, v)" by (cases kv)
    with that JObj.prems have "json_ok v" by (auto simp: list_all_iff)
    with JObj.IH [of kv v "Suc lvl"] that kv show ?thesis by (simp add: snds.intros)
  qed
  then have "sum_list (map (need \<circ> snd) ms) \<le> sum_list (map (length \<circ> ?g) ms)"
    by (intro sum_list_mono2) simp
  with join_need [of ms "need \<circ> snd" ?g ind "Suc lvl"] show ?case
    by (auto simp: case_prod_unfold comp_def intro: le_SucI)
qed auto

lemma loads_dumps:
  assumes "json_ok v"
  shows "loads (dumps ind v) = Inr v"
    and "loads (dumps ind v @ [nl]) = Inr v"
proof -
  have "skip_ws (dumps ind v @ r) = dumps ind v @ r" for r
    using dumps_head [OF assms] by (simp add: dumps_def)
  moreover have "parse_value n (dumps ind v @ r) = Inr (v, r)"
    if "length (dumps ind v) \<le> n" "stops r" for n r
    using parse_value_dumps [OF assms _ that(2)] need_length [OF assms, of ind 0] that(1)
    by (simp add: dumps_def)
  ultimately have "loads (dumps ind v @ r) = Inr v" if "stops r" "skip_ws r = []" for r
    using that by (simp add: loads_def del: parse_value.simps)
  from this [of "[]"] this [of "[nl]"]
  show "loads (dumps ind v) = Inr v" "loads (dumps ind v @ [nl]) = Inr v"
    by (simp_all add: stops_def)
qed

section \<open>Parsing always ends\<close>

lemma parse_str_shorter: "parse_str s = Inr (x, r) \<Longrightarrow> length r < length s"
proof (induction s arbitrary: x rule: parse_str.induct)
  case (1 s)
  from 1(3) obtain c t where s: "s = c # t" by (cases s) (simp_all add: parse_str.simps [of "[]"])
  consider "c = quote" | "c = backslash" | "c \<noteq> quote" "c \<noteq> backslash" by blast
  then show ?case
  proof cases
    case 1
    with s \<open>parse_str s = Inr (x, r)\<close> show ?thesis by (simp add: parse_str.simps [of "quote # t"])
  next
    case 2
    with s \<open>parse_str s = Inr (x, r)\<close> obtain y q z where
      "parse_escape t = Inr (y, q)" "parse_str q = Inr (z, r)"
      by (auto simp: parse_str.simps [of "backslash # t"] bind_res_Inr_iff)
    moreover from this have "length r < length q" using 1 2 s by auto
    ultimately show ?thesis using s parse_escape_shorter [of t y q] by simp
  next
    case 3
    with s \<open>parse_str s = Inr (x, r)\<close> obtain z where "\<not> (of_char c :: nat) < 32" "parse_str t = Inr (z, r)"
      by (auto simp: parse_str.simps [of "c # t"] bind_res_Inr_iff split: if_splits)
    then have "length r < length t" using 1 3 s by auto
    then show ?thesis using s by simp
  qed
qed

lemma parse_number_shorter: "parse_number s = Inr (v, r) \<Longrightarrow> length r < length s"
proof -
  assume p: "parse_number s = Inr (v, r)"
  define t where "t = drop (length (if startswith s ''-'' then ''-'' else [])) s"
  define ip where "ip = (if hd (takeWhile is_digit t) = CHR ''0'' then ''0'' else takeWhile is_digit t)"
  have ds: "takeWhile is_digit t \<noteq> []" and "\<exists>k. r = drop k (drop (length ip) t)"
    using p by (auto simp only: parse_number_def Let_def t_def [symmetric] ip_def [symmetric]
        split: if_splits intro: drop_0 [symmetric])
  then obtain k where "r = drop k (drop (length ip) t)" by blast
  moreover have "ip \<noteq> []" "t \<noteq> []" using ds by (auto simp: ip_def)
  moreover have "length t \<le> length s" by (simp add: t_def)
  ultimately show ?thesis by (cases ip; cases t) auto
qed

lemma parse_literal_shorter: "parse_literal s = Inr (v, r) \<Longrightarrow> length r < length s"
  by (cases s) (auto simp: parse_literal_def dest!: parse_number_shorter split: if_splits,
      simp_all add: startswith_code)

definition progress :: "string \<Rightarrow> ('a \<times> string) res \<Rightarrow> bool" where
  "progress s x \<longleftrightarrow> (case x of Inl e \<Rightarrow> e = json_error | Inr (v, r) \<Rightarrow> length r < length s)"

lemma progress_simps [simp]:
  "progress s (Inl e) \<longleftrightarrow> e = json_error" "progress s (Inr (v, r)) \<longleftrightarrow> length r < length s"
  by (simp_all add: progress_def)

lemma progress_bind:
  assumes "progress s m" and "\<And>v r. length r < length s \<Longrightarrow> progress t (f (v, r))"
  shows "progress t (bind_res m f)"
  using assms by (cases m) auto

lemma progress_mono: "progress s x \<Longrightarrow> length s \<le> length t \<Longrightarrow> progress t x"
  by (auto simp: progress_def split: sum.splits)

lemma expect_Some: "expect c s = Some t \<Longrightarrow> s = c # t"
  by (cases s) (auto simp: expect_def split: if_splits)

lemma progress_expect:
  assumes "\<And>t. s = c # t \<Longrightarrow> progress u (f t)" and "progress u g"
  shows "progress u (case expect c s of None \<Rightarrow> g | Some t \<Rightarrow> f t)"
  using assms expect_Some [of c s] by (auto split: option.splits)

lemma skip_ws_length: "length (skip_ws s) \<le> length s"
  by (rule length_dropWhile_le)

lemma parse_escape_error: "parse_escape s = Inl e \<Longrightarrow> e = json_error"
  by (auto simp: parse_escape_def split: list.splits option.splits if_splits)

lemma parse_str_progress: "progress s (parse_str s)"
proof (cases "parse_str s")
  case (Inl e)
  have "parse_str s = Inl e \<Longrightarrow> e = json_error"
  proof (induction s rule: parse_str.induct)
    case (1 s)
    show ?case
    proof (cases s)
      case (Cons c t)
      then show ?thesis
        using 1 by (auto simp: parse_str.simps [of "c # t"] bind_res_Inl_iff dest: parse_escape_error split: if_splits)
    qed (use 1(3) in \<open>simp add: parse_str.simps [of "[]"]\<close>)
  qed
  with Inl show ?thesis by simp
next
  case (Inr y)
  then show ?thesis using parse_str_shorter by (cases y) auto
qed

lemma parse_literal_progress: "progress s (parse_literal s)"
proof (cases "parse_literal s")
  case (Inl e)
  then have "parse_number s = Inl e" by (simp add: parse_literal_def split: if_splits)
  then have "e = json_error" by (simp add: parse_number_def Let_def split: if_splits)
  with Inl show ?thesis by simp
next
  case (Inr y)
  then show ?thesis using parse_literal_shorter by (cases y) auto
qed

text \<open>One step of each parser, given that the parsers it calls make progress.\<close>

lemma value_progress:
  assumes "\<And>t. 2 * length t + 2 \<le> n \<Longrightarrow> progress t (parse_items n t)"
    and "\<And>t. 2 * length t + 1 \<le> n \<Longrightarrow> progress t (parse_members n t)"
    and "2 * length s + 1 \<le> Suc n"
  shows "progress s (parse_value (Suc n) s)"
proof -
  have inner: "2 * length (skip_ws t) + 2 \<le> n" "length (skip_ws t) \<le> length s" if "s = c # t" for c t
    using that assms(3) skip_ws_length [of t] by auto
  have "progress s (bind_res (parse_members n (skip_ws t)) (\<lambda>(ms, r). Inr (JObj (dict_update [] ms), r)))"
    if "s = c # t" for c t
    using inner [OF that] assms(2) by (intro progress_bind [of "skip_ws t"]) auto
  moreover have "progress s (bind_res (parse_items n (skip_ws t)) (\<lambda>(vs, r). Inr (JArr vs, r)))"
    if "s = c # t" for c t
    using inner [OF that] assms(1) by (intro progress_bind [of "skip_ws t"]) auto
  moreover have "progress s (bind_res (parse_str t) (\<lambda>(x, r). Inr (JStr x, r)))" if "s = c # t" for c t
    using that parse_str_progress [of t] by (intro progress_bind [of t]) auto
  moreover have "progress s (Inr (v, r))" if "s = c # t" "skip_ws t = d # r" for c d t r and v :: json
    using inner(2) [OF that(1)] that by simp
  ultimately show ?thesis
    unfolding parse_value.simps by (intro progress_expect parse_literal_progress) assumption+
qed

lemma items_progress:
  assumes "\<And>t. 2 * length t + 1 \<le> n \<Longrightarrow> progress t (parse_value n t)"
    and "\<And>t. 2 * length t + 2 \<le> n \<Longrightarrow> progress t (parse_items n t)"
    and "2 * length s + 2 \<le> Suc n"
  shows "progress s (parse_items (Suc n) s)"
proof -
  have "progress s (bind_res (parse_items n (skip_ws q)) (\<lambda>(vs, q'). Inr (v # vs, q')))"
    if "length r < length s" "skip_ws r = c # q" for v c q r
    using that skip_ws_length [of r] skip_ws_length [of q] assms(2,3)
    by (intro progress_bind [of "skip_ws q"]) auto
  moreover have "length q < length s" if "length r < length s" "skip_ws r = c # q" for c q r
    using that skip_ws_length [of r] by simp
  moreover have "progress s (parse_value n s)" using assms(1,3) by simp
  ultimately show ?thesis
    unfolding parse_items.simps
    by (intro progress_bind [of s]; (unfold case_prod_conv, intro progress_expect)?) auto
qed

lemma members_progress:
  assumes "\<And>t. 2 * length t + 1 \<le> n \<Longrightarrow> progress t (parse_value n t)"
    and "\<And>t. 2 * length t + 1 \<le> n \<Longrightarrow> progress t (parse_members n t)"
    and "2 * length s + 1 \<le> Suc n"
  shows "progress s (parse_members (Suc n) s)"
proof -
  have next_member: "progress s (bind_res (parse_members n (skip_ws q)) (\<lambda>(ms, q'). Inr (kv # ms, q')))"
    if "length r < length s" "skip_ws r = c # q" for kv c q r
    using that skip_ws_length [of r] skip_ws_length [of q] assms(2,3)
    by (intro progress_bind [of "skip_ws q"]) auto
  have rest: "length q < length s" if "length r < length s" "skip_ws r = c # q" for c q r
    using that skip_ws_length [of r] by simp
  have val: "progress (skip_ws q) (parse_value n (skip_ws q))" "length (skip_ws q) < length s"
    if "length r < length s" "skip_ws r = c # q" for c q r
    using that skip_ws_length [of r] skip_ws_length [of q] assms(1,3) by auto
  have "progress s (bind_res (parse_value n (skip_ws q)) (\<lambda>(v, r'').
     (case expect CHR '','' (skip_ws r'') of Some q \<Rightarrow>
        bind_res (parse_members n (skip_ws q)) (\<lambda>(ms, q'). Inr ((k, v) # ms, q'))
      | None \<Rightarrow>
     (case expect CHR ''}'' (skip_ws r'') of Some q \<Rightarrow> Inr ([(k, v)], q)
      | None \<Rightarrow> Inl json_error))))"
    if r: "length r < length s" "skip_ws r = c # q" for k c q r
  proof (rule progress_bind [OF val(1) [OF r]])
    fix v and r'' :: string
    assume "length r'' < length (skip_ws q)"
    then have "length r'' < length s" using val(2) [OF r] by simp
    from next_member [OF this] rest [OF this]
    show "progress s (case (v, r'') of (v, r'') \<Rightarrow>
      (case expect CHR '','' (skip_ws r'') of Some q \<Rightarrow>
         bind_res (parse_members n (skip_ws q)) (\<lambda>(ms, q'). Inr ((k, v) # ms, q'))
       | None \<Rightarrow>
      (case expect CHR ''}'' (skip_ws r'') of Some q \<Rightarrow> Inr ([(k, v)], q)
       | None \<Rightarrow> Inl json_error)))"
      unfolding case_prod_conv by (intro progress_expect) auto
  qed
  note member = this
  show ?thesis
    unfolding parse_members.simps
  proof (intro progress_expect)
    fix t
    assume s: "s = quote # t"
    show "progress s (bind_res (parse_str t) (\<lambda>(k, r).
     (case expect CHR '':'' (skip_ws r) of None \<Rightarrow> Inl json_error
      | Some r' \<Rightarrow> bind_res (parse_value n (skip_ws r')) (\<lambda>(v, r'').
     (case expect CHR '','' (skip_ws r'') of Some q \<Rightarrow>
        bind_res (parse_members n (skip_ws q)) (\<lambda>(ms, q'). Inr ((k, v) # ms, q'))
      | None \<Rightarrow>
     (case expect CHR ''}'' (skip_ws r'') of Some q \<Rightarrow> Inr ([(k, v)], q)
      | None \<Rightarrow> Inl json_error))))))"
      using s by (intro progress_bind [OF parse_str_progress [of t]], unfold case_prod_conv,
        intro progress_expect member) auto
  qed simp
qed

lemma parse_progress:
  "(2 * length s + 1 \<le> n \<longrightarrow> progress s (parse_value n s)) \<and>
   (2 * length s + 2 \<le> n \<longrightarrow> progress s (parse_items n s)) \<and>
   (2 * length s + 1 \<le> n \<longrightarrow> progress s (parse_members n s))"
proof (induction n arbitrary: s)
  case (Suc n)
  then show ?case using value_progress [of n s] items_progress [of n s] members_progress [of n s] by blast
qed simp

text \<open>ASCII texts are valid UTF-8.\<close>

definition is_ascii :: "string \<Rightarrow> bool" where
  "is_ascii s \<longleftrightarrow> list_all (\<lambda>c. of_char c < (128 :: nat)) s"

lemma is_ascii_append: "is_ascii (s @ t) \<longleftrightarrow> is_ascii s \<and> is_ascii t"
  by (simp add: is_ascii_def)

lemma utf8_decode_ascii: "is_ascii s \<Longrightarrow> utf8_decode s = map of_char s"
  by (induction s rule: utf8_decode.induct) (auto simp: is_ascii_def Let_def)

lemma utf8_ok_ascii: "is_ascii s \<Longrightarrow> utf8_ok s"
proof -
  assume a: "is_ascii s"
  have "concat (map (utf8 \<circ> of_char) s) = s"
    using a by (induction s) (simp_all add: is_ascii_def utf8_single)
  then show ?thesis
    using a by (auto simp: utf8_ok_def utf8_decode_ascii list_all_iff is_ascii_def) 
qed

section \<open>Theorems\<close>

text \<open>
  A value without floats, whose dictionaries have distinct keys and whose strings are valid
  UTF-8, is read back by \<open>loads\<close> from what \<open>dumps\<close> prints of it, at any indentation and with or
  without a final newline.
\<close>

theorem loads_of_dumps:
  assumes "json_ok v"
  shows "loads (dumps ind v) = Inr v \<and> loads (dumps ind v @ [nl]) = Inr v"
  using loads_dumps [OF assms] by blast

theorem loads_of_dumps_witness:
  "loads (dumps (Some 2) (JObj [(''a'', JArr [JInt (-12), JBool True, JNull]), (''b'', JStr [quote, nl])]) @ [nl]) =
   Inr (JObj [(''a'', JArr [JInt (-12), JBool True, JNull]), (''b'', JStr [quote, nl])])"
proof -
  have "json_ok (JObj [(''a'', JArr [JInt (-12), JBool True, JNull]), (''b'', JStr [quote, nl])])"
    by (simp add: utf8_ok_def utf8_single special_chars char_of_eq_iff take_bit_eq_mod)
  then show ?thesis using loads_of_dumps [of _ "Some 2"] by blast
qed

text \<open>
  \<open>loads\<close> returns a value or raises a \<open>ValueError\<close> on every text: the bound on the nesting of
  calls is never reached.
\<close>

theorem loads_total: "(\<exists>v. loads s = Inr v) \<or> loads s = Inl json_error"
proof -
  have "2 * length (skip_ws s) + 1 \<le> 2 * length s + 2"
    using skip_ws_length [of s] by simp
  then have "progress (skip_ws s) (parse_value (2 * length s + 2) (skip_ws s))"
    using parse_progress [of "skip_ws s" "2 * length s + 2"] by blast
  then show ?thesis
    by (cases "parse_value (2 * length s + 2) (skip_ws s)") (auto simp: loads_def simp del: parse_value.simps split: if_splits)
qed

end
