(* ===== verification/Filesys.thy ===== *)
theory Filesys
  imports Py_Text
begin

text \<open>
  The file system as the scripts see it through \<open>pathlib\<close>, \<open>os\<close> and \<open>shutil\<close>: a table from absolute
  paths to files, directories and symbolic links. A path is the list of its components. Reading
  and testing follow links (forty at most, as Linux does); removing and replacing act on the
  name itself. The content of a file is a byte string or an archive, kept as the list of its
  members because the archive formats belong to the standard library.
\<close>

section \<open>Stores\<close>

text \<open>The interface of a table of named things, and what repeated writing does to it.\<close>

locale store =
  fixes get :: "'s \<Rightarrow> 'k \<Rightarrow> 'v option"
    and put :: "'k \<Rightarrow> 'v \<Rightarrow> 's \<Rightarrow> 's"
    and del :: "('k \<Rightarrow> bool) \<Rightarrow> 's \<Rightarrow> 's"
  assumes get_put: "get (put k v s) q = (if q = k then Some v else get s q)"
    and get_del: "get (del P s) q = (if P q then None else get s q)"
begin

definition put_all :: "('k \<times> 'v) list \<Rightarrow> 's \<Rightarrow> 's" where
  "put_all kvs s = fold (\<lambda>(k, v). put k v) kvs s"

lemma get_put_all: "get (put_all kvs s) q = (case map_of (rev kvs) q of None \<Rightarrow> get s q | Some v \<Rightarrow> Some v)"
proof (induction kvs arbitrary: s)
  case (Cons kv kvs)
  then show ?case
    by (cases kv) (auto simp: put_all_def get_put map_add_def split: option.splits)
qed (simp add: put_all_def)

lemma put_all_frame: "q \<notin> fst ` set kvs \<Longrightarrow> get (put_all kvs s) q = get s q"
  by (auto simp: get_put_all split: option.splits dest!: map_of_SomeD) force

lemma del_put_same: "P k \<Longrightarrow> get (del P (put k v s)) q = get (del P s) q"
  by (simp add: get_put get_del)

end

section \<open>Paths\<close>

type_synonym path = "string list"

definition str :: "path \<Rightarrow> string" where
  "str p = (if p = [] then ''/'' else concat (map ((#) CHR ''/'') p))"

definition parents :: "path \<Rightarrow> path list" where
  "parents p = map (\<lambda>i. take i p) (rev [0..<length p])"

text \<open>\<open>os.path.abspath\<close> of a path given as its components, relative ones from the current directory.\<close>

fun normpath :: "path \<Rightarrow> string list \<Rightarrow> path" where
  "normpath done [] = done"
| "normpath done (c # cs) =
     (if c = [] \<or> c = ''.'' then normpath done cs
      else if c = ''..'' then normpath (butlast done) cs
      else normpath (done @ [c]) cs)"

definition abspath :: "path \<Rightarrow> bool \<Rightarrow> string list \<Rightarrow> path" where
  "abspath cwd absolute cs = normpath (if absolute then [] else cwd) cs"

section \<open>Nodes and lookups\<close>

datatype content =
    Bytes string
  | Archive "(string \<times> nat \<times> content option) list"

text \<open>A member of an archive: its name, its permission bits, its content unless it is a directory or a link.\<close>

type_synonym member = "string \<times> nat \<times> content option"

datatype node =
    File content nat
  | Dir
  | Link path

type_synonym fs = "(path \<times> node) list"

definition lookup :: "fs \<Rightarrow> path \<Rightarrow> node option" where
  "lookup fs p = (if p = [] then Some Dir else map_of fs p)"

definition put :: "path \<Rightarrow> node \<Rightarrow> fs \<Rightarrow> fs" where
  "put p n fs = dict_set p n fs"

definition del :: "(path \<Rightarrow> bool) \<Rightarrow> fs \<Rightarrow> fs" where
  "del P fs = filter (\<lambda>(p, n). \<not> P p) fs"

text \<open>Following links: the first argument counts the links still allowed.\<close>

function resolve :: "nat \<Rightarrow> fs \<Rightarrow> path \<Rightarrow> path \<Rightarrow> path option" where
  "resolve n fs done [] = Some done"
| "resolve n fs done (c # cs) =
     (case lookup fs (done @ [c]) of
        Some (Link t) \<Rightarrow> (case n of 0 \<Rightarrow> None | Suc m \<Rightarrow> resolve m fs [] (t @ cs))
      | _ \<Rightarrow> resolve n fs (done @ [c]) cs)"
  by pat_completeness auto
termination
  by (relation "measures [\<lambda>(n, fs, d, cs). n, \<lambda>(n, fs, d, cs). length cs]") auto

definition realpath :: "fs \<Rightarrow> path \<Rightarrow> path option" where
  "realpath fs p = resolve 40 fs [] p"

definition stat :: "fs \<Rightarrow> path \<Rightarrow> node option" where
  "stat fs p = (case realpath fs p of None \<Rightarrow> None | Some q \<Rightarrow> lookup fs q)"

definition exists :: "fs \<Rightarrow> path \<Rightarrow> bool" where
  "exists fs p \<longleftrightarrow> stat fs p \<noteq> None"

definition is_dir :: "fs \<Rightarrow> path \<Rightarrow> bool" where
  "is_dir fs p \<longleftrightarrow> stat fs p = Some Dir"

definition is_file :: "fs \<Rightarrow> path \<Rightarrow> bool" where
  "is_file fs p \<longleftrightarrow> (case stat fs p of Some (File c m) \<Rightarrow> True | _ \<Rightarrow> False)"

definition is_symlink :: "fs \<Rightarrow> path \<Rightarrow> bool" where
  "is_symlink fs p \<longleftrightarrow> (case lookup fs p of Some (Link t) \<Rightarrow> True | _ \<Rightarrow> False)"

definition children :: "fs \<Rightarrow> path \<Rightarrow> string list" where
  "children fs p = map (\<lambda>(q, n). last q) (filter (\<lambda>(q, n). q \<noteq> [] \<and> butlast q = p) fs)"

definition inside :: "path \<Rightarrow> path \<Rightarrow> bool" where
  "inside p q \<longleftrightarrow> take (length p) q = p"

section \<open>Operations\<close>

text \<open>The permission bits 0o600, 0o644 and 0o755.\<close>

abbreviation mode_600 :: nat where "mode_600 \<equiv> 384"
abbreviation mode_644 :: nat where "mode_644 \<equiv> 420"
abbreviation mode_755 :: nat where "mode_755 \<equiv> 493"

abbreviation enoent :: exn where "enoent \<equiv> OSError ''No such file or directory''"
abbreviation eisdir :: exn where "eisdir \<equiv> OSError ''Is a directory''"
abbreviation enotdir :: exn where "enotdir \<equiv> OSError ''Not a directory''"
abbreviation eexist :: exn where "eexist \<equiv> OSError ''File exists''"

definition read_node :: "path \<Rightarrow> (fs, content) io" where
  "read_node p fs = (case stat fs p of
      Some (File c m) \<Rightarrow> (Inr c, fs)
    | Some Dir \<Rightarrow> (Inl eisdir, fs)
    | _ \<Rightarrow> (Inl enoent, fs))"

text \<open>An archive is no text: decoding it as UTF-8 fails.\<close>

definition read_text :: "path \<Rightarrow> (fs, string) io" where
  "read_text p = bnd (read_node p) (\<lambda>c.
     case c of Bytes s \<Rightarrow> ret s | Archive ms \<Rightarrow> raise (ValueError ''UnicodeDecodeError''))"

definition iterdir :: "path \<Rightarrow> (fs, string list) io" where
  "iterdir p fs = (case realpath fs p of None \<Rightarrow> (Inl enoent, fs) | Some q \<Rightarrow>
     (case lookup fs q of Some Dir \<Rightarrow> (Inr (children fs q), fs)
      | Some (File c m) \<Rightarrow> (Inl enotdir, fs) | _ \<Rightarrow> (Inl enoent, fs)))"

text \<open>Writing a new or an existing file through its name; the mode of an existing file stays.\<close>

definition write_content :: "path \<Rightarrow> content \<Rightarrow> (fs, unit) io" where
  "write_content p c fs = (case realpath fs p of None \<Rightarrow> (Inl enoent, fs) | Some q \<Rightarrow>
     (case lookup fs q of
        Some (File c' m) \<Rightarrow> (Inr (), put q (File c m) fs)
      | Some n \<Rightarrow> (Inl eisdir, fs)
      | None \<Rightarrow> if lookup fs (butlast q) = Some Dir then (Inr (), put q (File c mode_644) fs)
                else (Inl enoent, fs)))"

definition write_text :: "path \<Rightarrow> string \<Rightarrow> (fs, unit) io" where
  "write_text p s = write_content p (Bytes s)"

definition chmod :: "path \<Rightarrow> nat \<Rightarrow> (fs, unit) io" where
  "chmod p mode fs = (case realpath fs p of None \<Rightarrow> (Inl enoent, fs) | Some q \<Rightarrow>
     (case lookup fs q of
        Some (File c m) \<Rightarrow> (Inr (), put q (File c mode) fs)
      | Some n \<Rightarrow> (Inr (), fs)
      | None \<Rightarrow> (Inl enoent, fs)))"

definition mkdir_one :: "path \<Rightarrow> (fs, unit) io" where
  "mkdir_one p fs = (case stat fs p of
      Some Dir \<Rightarrow> (Inr (), fs)
    | Some n \<Rightarrow> (Inl eexist, fs)
    | None \<Rightarrow> (Inr (), put p Dir fs))"

text \<open>\<open>mkdir(parents=True, exist_ok=True)\<close>: the missing directories from the root down.\<close>

definition mkdir_parents :: "path \<Rightarrow> (fs, unit) io" where
  "mkdir_parents p = for_io (map (\<lambda>i. take i p) [1..<Suc (length p)]) mkdir_one"

definition unlink :: "bool \<Rightarrow> path \<Rightarrow> (fs, unit) io" where
  "unlink missing_ok p fs = (case lookup fs p of
      None \<Rightarrow> (if missing_ok then Inr () else Inl enoent, fs)
    | Some Dir \<Rightarrow> (Inl eisdir, fs)
    | Some n \<Rightarrow> (Inr (), del ((=) p) fs))"

definition rmtree :: "path \<Rightarrow> (fs, unit) io" where
  "rmtree p fs = (case lookup fs p of
      Some Dir \<Rightarrow> (Inr (), del (inside p) fs)
    | Some n \<Rightarrow> (Inl enotdir, fs)
    | None \<Rightarrow> (Inl enoent, fs))"

text \<open>\<open>os.replace\<close>: the new name loses what it stood for, unless that is a directory.\<close>

definition replace_file :: "path \<Rightarrow> path \<Rightarrow> (fs, unit) io" where
  "replace_file p q fs = (case lookup fs p of
      None \<Rightarrow> (Inl enoent, fs)
    | Some n \<Rightarrow> (if lookup fs q = Some Dir then (Inl eisdir, fs)
        else (Inr (), put q n (del ((=) p) fs))))"

section \<open>Laws\<close>

lemma lookup_put: "p \<noteq> [] \<Longrightarrow> lookup (put p n fs) q = (if q = p then Some n else lookup fs q)"
  by (simp add: lookup_def put_def)

lemma map_of_del: "map_of (del P fs) q = (if P q then None else map_of fs q)"
  by (induction fs) (auto simp: del_def)

lemma lookup_del: "lookup (del P fs) q = (if q \<noteq> [] \<and> P q then None else lookup fs q)"
  by (simp add: lookup_def map_of_del)

interpretation table: store map_of put del
  by unfold_locales (simp_all add: put_def map_of_del)

text \<open>A path none of whose prefixes is a link is its own real path.\<close>

definition plain :: "fs \<Rightarrow> path \<Rightarrow> bool" where
  "plain fs p \<longleftrightarrow> list_all (\<lambda>i. \<not> is_symlink fs (take i p)) [1..<Suc (length p)]"

lemma plain_iff: "plain fs p \<longleftrightarrow> (\<forall>i. 1 \<le> i \<and> i \<le> length p \<longrightarrow> \<not> is_symlink fs (take i p))"
  by (auto simp: plain_def list_all_iff)

lemma is_symlink_iff: "is_symlink fs p \<longleftrightarrow> (\<exists>t. lookup fs p = Some (Link t))"
  by (auto simp: is_symlink_def split: option.splits node.splits)

lemma resolve_plain:
  "(\<And>i. 1 \<le> i \<Longrightarrow> i \<le> length cs \<Longrightarrow> \<not> is_symlink fs (d @ take i cs)) \<Longrightarrow> resolve n fs d cs = Some (d @ cs)"
proof (induction cs arbitrary: d)
  case (Cons c cs)
  have "\<not> is_symlink fs (d @ [c])" using Cons.prems [of 1] by simp
  moreover have "resolve n fs (d @ [c]) cs = Some (d @ c # cs)"
    using Cons.IH [of "d @ [c]"] Cons.prems [of "Suc i" for i] by simp
  ultimately show ?case by (auto simp: is_symlink_iff split: option.splits node.splits)
qed simp

lemma realpath_plain [simp]: "plain fs p \<Longrightarrow> realpath fs p = Some p"
  using resolve_plain [of p fs "[]"] by (simp add: realpath_def plain_iff)

lemma stat_plain [simp]: "plain fs p \<Longrightarrow> stat fs p = lookup fs p"
  by (simp add: stat_def)

lemma plain_prefix: "plain fs p \<Longrightarrow> plain fs (take i p)"
  by (auto simp: plain_iff min_def)

lemma plain_butlast: "plain fs p \<Longrightarrow> plain fs (butlast p)"
  by (simp add: butlast_conv_take plain_prefix)

lemma plain_snoc: "plain fs d \<Longrightarrow> \<not> is_symlink fs (d @ [c]) \<Longrightarrow> plain fs (d @ [c])"
  by (auto simp: plain_iff le_Suc_eq take_Cons' split: if_splits)

lemma plain_mono:
  assumes "plain fs p" and "\<And>q. inside q p \<Longrightarrow> q \<noteq> [] \<Longrightarrow> is_symlink fs' q \<Longrightarrow> is_symlink fs q"
  shows "plain fs' p"
  unfolding plain_iff
proof (intro allI impI notI)
  fix i
  assume i: "1 \<le> i \<and> i \<le> length p" and "is_symlink fs' (take i p)"
  moreover have "inside (take i p) p" "take i p \<noteq> []" using i by (auto simp: inside_def)
  ultimately have "is_symlink fs (take i p)" using assms(2) by blast
  with assms(1) i show False by (simp add: plain_iff)
qed

lemma inside_refl [simp]: "inside p p"
  by (simp add: inside_def)

lemma inside_append [simp]: "inside p (p @ q)"
  by (simp add: inside_def)

section \<open>Behaviour of the operations\<close>

definition is_OSError :: "exn \<Rightarrow> bool" where
  "is_OSError e \<longleftrightarrow> (case e of OSError m \<Rightarrow> True | _ \<Rightarrow> False)"

lemma is_OSError_simps [simp]: "is_OSError (OSError m)" "\<not> is_OSError (ValueError m)"
  by (simp_all add: is_OSError_def)

lemma fs_reads [reads_intros]: "reads (read_node p)" "reads (iterdir p)"
  by (auto simp: reads_def read_node_def iterdir_def split: option.splits node.splits)

lemma read_text_reads [reads_intros]: "reads (read_text p)"
  unfolding read_text_def by (intro reads_intros) (simp split: content.splits add: reads_intros)

lemma fs_raises [raises_intros]:
  "raises is_OSError (read_node p)" "raises is_OSError (write_content p c)" "raises is_OSError (chmod p m)"
  "raises is_OSError (mkdir_one p)" "raises is_OSError (unlink b p)" "raises is_OSError (rmtree p)"
  "raises is_OSError (replace_file p q)"
  by (auto simp: raises_def read_node_def write_content_def chmod_def mkdir_one_def unlink_def rmtree_def
      replace_file_def split: option.splits node.splits if_splits)

lemma mkdir_parents_raises [raises_intros]: "raises is_OSError (mkdir_parents p)"
  unfolding mkdir_parents_def by (intro raises_intros)

text \<open>A file system is a tree when everything in it stands in a directory.\<close>

definition tree :: "fs \<Rightarrow> bool" where
  "tree fs \<longleftrightarrow> (\<forall>p. p \<noteq> [] \<and> lookup fs p \<noteq> None \<longrightarrow> lookup fs (butlast p) = Some Dir)"

lemma treeD: "tree fs \<Longrightarrow> lookup fs (p @ [c]) \<noteq> None \<Longrightarrow> lookup fs p = Some Dir"
  unfolding tree_def by (metis butlast_snoc snoc_eq_iff_butlast)

lemma tree_missing: "tree fs \<Longrightarrow> lookup fs p \<noteq> Some Dir \<Longrightarrow> q \<noteq> [] \<Longrightarrow> lookup fs (p @ q) = None"
proof (induction q rule: rev_induct)
  case (snoc c q)
  then have "lookup fs (p @ q) \<noteq> Some Dir" by (cases "q = []") auto
  with treeD [of fs "p @ q" c] snoc.prems show ?case by (cases "lookup fs (p @ q @ [c])") auto
qed simp

lemma tree_put:
  assumes "tree fs" and "p \<noteq> []" and "lookup fs (butlast p) = Some Dir"
    and "lookup fs p = Some Dir \<Longrightarrow> n = Dir"
  shows "tree (put p n fs)"
  unfolding tree_def
proof (intro allI impI)
  fix q
  assume q: "q \<noteq> [] \<and> lookup (put p n fs) q \<noteq> None"
  then have "lookup fs (butlast q) = Some Dir"
    using assms by (auto simp: lookup_put tree_def split: if_splits)
  then show "lookup (put p n fs) (butlast q) = Some Dir"
    using assms(2,4) by (auto simp: lookup_put)
qed

lemma tree_del:
  assumes "tree fs" and "\<And>q c. P q \<Longrightarrow> lookup fs (q @ [c]) \<noteq> None \<Longrightarrow> P (q @ [c])"
  shows "tree (del P fs)"
  unfolding tree_def
proof (intro allI impI)
  fix q
  assume q: "q \<noteq> [] \<and> lookup (del P fs) q \<noteq> None"
  then have "lookup fs q \<noteq> None" "\<not> P q" by (auto simp: lookup_del split: if_splits)
  moreover have "butlast q @ [last q] = q" using q by simp
  ultimately have "\<not> P (butlast q)" "lookup fs (butlast q) = Some Dir"
    using assms q by (metis, auto simp: tree_def)
  then show "lookup (del P fs) (butlast q) = Some Dir" by (simp add: lookup_del)
qed

subsection \<open>Making directories\<close>

lemma mkdir_one_run:
  assumes "plain fs p" and "p \<noteq> []"
  shows "mkdir_one p fs =
    (case lookup fs p of Some Dir \<Rightarrow> (Inr (), fs) | Some n \<Rightarrow> (Inl eexist, fs) | None \<Rightarrow> (Inr (), put p Dir fs))"
  using assms by (simp add: mkdir_one_def)

lemma is_symlink_put_Dir: "p \<noteq> [] \<Longrightarrow> is_symlink (put p Dir fs) q \<longleftrightarrow> q \<noteq> p \<and> is_symlink fs q"
  by (auto simp: is_symlink_iff lookup_put)

lemma mkdirs_run:
  assumes "\<And>p. p \<in> set ps \<Longrightarrow> plain fs p \<and> p \<noteq> []" and "for_io ps mkdir_one fs = (r, fs')"
  shows "(\<forall>q. lookup fs' q = lookup fs q \<or> q \<in> set ps \<and> lookup fs q = None \<and> lookup fs' q = Some Dir)"
    and "r = Inr () \<Longrightarrow> q \<in> set ps \<Longrightarrow> lookup fs' q = Some Dir"
proof -
  have "(\<forall>q. lookup fs' q = lookup fs q \<or> q \<in> set ps \<and> lookup fs q = None \<and> lookup fs' q = Some Dir) \<and>
      (r = Inr () \<longrightarrow> (\<forall>q \<in> set ps. lookup fs' q = Some Dir))"
    using assms
  proof (induction ps arbitrary: fs)
    case Nil
    then show ?case by (simp add: ret_def)
  next
    case (Cons p ps)
    have p: "plain fs p" "p \<noteq> []" using Cons.prems(1) by auto
    let ?fs1 = "put p Dir fs"
    have keep: "plain ?fs1 x" if "x \<in> set ps" for x
      using Cons.prems(1) [of x] that p(2) by (auto intro: plain_mono [of fs] simp: is_symlink_put_Dir)
    show ?case
    proof (cases "lookup fs p")
      case None
      then have "for_io ps mkdir_one ?fs1 = (r, fs')"
        using Cons.prems(2) by (simp add: seq_def bnd_def mkdir_one_run [OF p])
      then have "(\<forall>q. lookup fs' q = lookup ?fs1 q \<or> q \<in> set ps \<and> lookup ?fs1 q = None \<and> lookup fs' q = Some Dir) \<and>
          (r = Inr () \<longrightarrow> (\<forall>q \<in> set ps. lookup fs' q = Some Dir))"
        using Cons keep by auto
      then show ?thesis using None p(2) by (auto simp: lookup_put split: if_splits)
    next
      case (Some n)
      show ?thesis
      proof (cases "n = Dir")
        case True
        then have "for_io ps mkdir_one fs = (r, fs')"
          using Cons.prems(2) Some by (simp add: seq_def bnd_def mkdir_one_run [OF p])
        with Cons.IH [of fs] Cons.prems(1) Some True show ?thesis by auto metis
      next
        case False
        then have "r = Inl eexist" "fs' = fs"
          using Cons.prems(2) Some by (auto simp: seq_def bnd_def mkdir_one_run [OF p] split: node.splits)
        then show ?thesis by simp
      qed
    qed
  qed
  then show "(\<forall>q. lookup fs' q = lookup fs q \<or> q \<in> set ps \<and> lookup fs q = None \<and> lookup fs' q = Some Dir)"
    and "r = Inr () \<Longrightarrow> q \<in> set ps \<Longrightarrow> lookup fs' q = Some Dir" by auto
qed

lemma inside_split: "inside p q \<Longrightarrow> \<exists>r. q = p @ r"
  by (metis append_take_drop_id inside_def)

subsection \<open>Operations keep the tree\<close>

lemma tree_del_leaf:
  assumes "tree fs" and "lookup fs p \<noteq> Some Dir"
  shows "tree (del ((=) p) fs)"
  using assms tree_missing [OF assms, of "[_]"] by (intro tree_del) auto

lemma tree_unlink: "tree fs \<Longrightarrow> tree (snd (unlink b p fs))"
  by (auto simp: unlink_def tree_del_leaf split: option.splits node.splits)

lemma tree_rmtree: "tree fs \<Longrightarrow> tree (snd (rmtree p fs))"
  by (auto simp: rmtree_def intro!: tree_del dest: inside_split split: option.splits node.splits)

lemma tree_mkdirs:
  assumes "tree fs" and "plain fs p" and "lookup fs (take k p) = Some Dir" and "k \<le> length p"
  shows "tree (snd (for_io (map (\<lambda>i. take i p) [Suc k..<Suc (length p)]) mkdir_one fs))"
  using assms
proof (induction "length p - k" arbitrary: fs k)
  case 0
  then show ?case by (simp add: ret_def)
next
  case (Suc n)
  then have k: "k < length p" by simp
  then have split: "[Suc k..<Suc (length p)] = Suc k # [Suc (Suc k)..<Suc (length p)]"
    by (simp add: upt_conv_Cons)
  let ?q = "take (Suc k) p"
  have q: "plain fs ?q" "?q \<noteq> []" "butlast ?q = take k p"
    using Suc.prems(2) k plain_prefix by (auto simp: butlast_take)
  show ?case
  proof (cases "lookup fs ?q")
    case None
    have "tree (put ?q Dir fs)" using Suc.prems q by (intro tree_put) auto
    moreover have "plain (put ?q Dir fs) p"
      using q(2) by (intro plain_mono [OF Suc.prems(2)]) (auto simp: is_symlink_put_Dir)
    moreover have "lookup (put ?q Dir fs) ?q = Some Dir" using q(2) by (simp add: lookup_put)
    ultimately show ?thesis
      using Suc.hyps(1) [of "Suc k" "put ?q Dir fs"] Suc.hyps(2) k None
      by (simp add: split seq_def bnd_def mkdir_one_run [OF q(1,2)] del: upt_Suc)
  next
    case (Some m)
    then show ?thesis
      using Suc.hyps(1) [of "Suc k" fs] Suc.hyps(2) Suc.prems k
      by (cases m) (simp_all add: split seq_def bnd_def mkdir_one_run [OF q(1,2)] del: upt_Suc)
  qed
qed

lemma tree_mkdir_parents: "tree fs \<Longrightarrow> plain fs p \<Longrightarrow> tree (snd (mkdir_parents p fs))"
  using tree_mkdirs [of fs p 0] by (simp add: mkdir_parents_def lookup_def)

text \<open>What a write stores, the next read returns: writing changes no link, so the name leads to the same place.\<close>

lemma resolve_links:
  assumes "\<forall>q t. (lookup fs q = Some (Link t)) = (lookup fs' q = Some (Link t))"
  shows "resolve n fs d cs = resolve n fs' d cs"
  using assms
proof (induction n fs d cs rule: resolve.induct)
  case (2 n fs d c cs)
  consider (link) t where "lookup fs (d @ [c]) = Some (Link t)" | (other) "\<nexists>t. lookup fs (d @ [c]) = Some (Link t)"
    by blast
  then show ?case
  proof cases
    case link
    then have "lookup fs' (d @ [c]) = Some (Link t)" using "2.prems" by metis
    moreover have "n = Suc m \<Longrightarrow> resolve m fs [] (t @ cs) = resolve m fs' [] (t @ cs)" for m
      using "2.IH"(4) [OF link] "2.prems" by blast
    ultimately show ?thesis using link by (cases n) simp_all
  next
    case other
    then have other': "\<nexists>t. lookup fs' (d @ [c]) = Some (Link t)" using "2.prems" by metis
    have "resolve n fs (d @ [c]) cs = resolve n fs' (d @ [c]) cs"
    proof (cases "lookup fs (d @ [c])")
      case None
      then show ?thesis using "2.IH"(1) "2.prems" by blast
    next
      case (Some m)
      then show ?thesis using "2.IH"(2,3) "2.prems" other by (cases m) blast+
    qed
    then show ?thesis using other other' by (simp split: option.splits node.splits)
  qed
qed simp

lemma write_then_read:
  assumes "write_content p c fs = (Inr u, fs')"
  shows "read_node p fs' = (Inr c, fs')"
proof -
  obtain q m where q: "realpath fs p = Some q" "fs' = put q (File c m) fs" "q \<noteq> []" "\<And>t. lookup fs q \<noteq> Some (Link t)"
    using assms by (auto simp: write_content_def lookup_def split: option.splits node.splits if_splits)
  have "realpath fs' p = realpath fs p"
    unfolding realpath_def by (rule resolve_links) (use q in \<open>simp add: lookup_put\<close>)
  then show ?thesis using q by (simp add: read_node_def stat_def lookup_put)
qed

end
