(* ===== verification/Install.thy ===== *)
theory Install
  imports Filesys
begin

text \<open>
  The desktop installer \<^verbatim>\<open>veil-desktop/scripts/install.py\<close>: the checks that refuse links and
  directories it does not manage, the atomic replacement of each file, installing and removing.
  What the script prints is left out. The random names of \<open>tempfile.mkstemp\<close> and the writes that
  fail for lack of space are arguments: \<open>mk\<close> gives the name for a directory, \<open>full\<close> says which
  writes fail.
\<close>

section \<open>Definitions\<close>

definition FILES :: "string list" where
  "FILES = [''veil-desktop'', ''veil.svg'', ''README.md'', ''LICENSE'', ''THIRD_PARTY.md'',
     ''manifest.json'', ''install.py'']"

definition APP_ID :: string where
  "APP_ID = ''net.projectveil.Veil''"

definition MARKER :: string where
  "MARKER = ''X-Veil-Managed=true'' @ [nl]"

definition is_control :: "char \<Rightarrow> bool" where
  "is_control c \<longleftrightarrow> (of_char c :: nat) < 32"

definition safe_path :: "bool \<Rightarrow> path \<Rightarrow> (fs, unit) io" where
  "safe_path absolute p =
     (if \<not> absolute \<or> list_ex is_control (str p)
      then raise (ValueError ''installation paths must be absolute and contain no control characters'')
      else if contains ''%'' (str p)
      then raise (ValueError ''desktop launchers require an installation path without %'')
      else for_io (p # parents p) (\<lambda>part.
        bnd (gets (\<lambda>fs. is_symlink fs part)) (\<lambda>b.
        if b then raise (ValueError (''refusing symbolic link: '' @ str part)) else ret ())))"

definition quoted :: "string \<Rightarrow> string" where
  "quoted command =
     fold (\<lambda>c s. replace_all [c] [CHR 0x5C, c] s) [CHR 0x5C, CHR 0x22, CHR 0x60, CHR ''$''] command"

definition desktop_command :: "path \<Rightarrow> string" where
  "desktop_command target =
     replace_all [CHR 0x5C] [CHR 0x5C, CHR 0x5C]
       ([CHR 0x22] @ quoted (replace_all ''%'' ''%%'' (str (target @ [''veil-desktop'']))) @ [CHR 0x22])"

definition desktop_icon :: "path \<Rightarrow> string" where
  "desktop_icon target = replace_all [CHR 0x5C] [CHR 0x5C, CHR 0x5C] (str (target @ [''veil.svg'']))"

definition desktop_entry :: "path \<Rightarrow> string" where
  "desktop_entry target =
     ''[Desktop Entry]'' @ [nl] @ ''Type=Application'' @ [nl] @ ''Name=Veil'' @ [nl] @
     ''Comment=Manage your Veil proxy'' @ [nl] @
     ''Comment[zh_CN]='' @ [CHR 0xE7, CHR 0xAE, CHR 0xA1, CHR 0xE7, CHR 0x90, CHR 0x86] @ '' Veil '' @
     [CHR 0xE4, CHR 0xBB, CHR 0xA3, CHR 0xE7, CHR 0x90, CHR 0x86] @ [nl] @
     ''Exec='' @ desktop_command target @ [nl] @ ''Icon='' @ desktop_icon target @ [nl] @
     ''Terminal=false'' @ [nl] @
     ''Categories=Network;'' @ [nl] @ ''StartupWMClass=Veil-desktop'' @ [nl] @ MARKER"

definition mkstemp :: "(fs \<Rightarrow> path \<Rightarrow> string) \<Rightarrow> path \<Rightarrow> (fs, path) io" where
  "mkstemp mk d =
     bnd (gets (\<lambda>fs. d @ [mk fs d])) (\<lambda>name.
     seq (write_content name (Bytes [])) (seq (chmod name mode_600) (ret name)))"

definition atomic_write ::
  "(fs \<Rightarrow> path \<Rightarrow> string) \<Rightarrow> (path \<Rightarrow> bool) \<Rightarrow> path \<Rightarrow> content \<Rightarrow> nat \<Rightarrow> (fs, unit) io" where
  "atomic_write mk full p data mode =
     bnd (mkstemp mk (butlast p)) (\<lambda>name.
     try_finally
       (seq (if full p then raise (OSError ''No space left on device'') else write_content name data)
       (seq (chmod name mode)
            (replace_file name p)))
       (unlink True name))"

datatype action = Install | Uninstall

definition target_of :: "path \<Rightarrow> path" where
  "target_of pre = pre @ [''lib'', ''veil-desktop'']"

definition launcher_of :: "path \<Rightarrow> path" where
  "launcher_of pre = pre @ [''share'', ''applications'', APP_ID @ ''.desktop'']"

text \<open>The part of \<open>manage\<close> that decides whether the installation may be touched.\<close>

definition check_target :: "path \<Rightarrow> (fs, unit) io" where
  "check_target target =
     bnd (gets (\<lambda>fs. exists fs target)) (\<lambda>present.
     when_io present
       (seq (bnd (gets (\<lambda>fs. \<not> is_dir fs target \<or> \<not> is_file fs (target @ [''manifest.json'']))) (\<lambda>bad.
              if bad then raise (ValueError (''refusing unmanaged installation: '' @ str target)) else ret ()))
       (bnd (iterdir target) (\<lambda>names. for_io names (\<lambda>name.
          bnd (gets (\<lambda>fs. name \<notin> set FILES \<or> is_symlink fs (target @ [name]) \<or>
                 \<not> is_file fs (target @ [name]))) (\<lambda>bad.
          if bad then raise (ValueError (''unexpected installation file: '' @ str (target @ [name])))
          else ret ()))))))"

definition check_launcher :: "path \<Rightarrow> (fs, unit) io" where
  "check_launcher launcher =
     bnd (gets (\<lambda>fs. exists fs launcher)) (\<lambda>present.
     when_io present (bnd (read_text launcher) (\<lambda>text.
       if contains MARKER text then ret ()
       else raise (ValueError (''refusing unmanaged launcher: '' @ str launcher)))))"

definition uninstall :: "path \<Rightarrow> path \<Rightarrow> (fs, unit) io" where
  "uninstall target launcher =
     seq (unlink True launcher)
     (bnd (gets (\<lambda>fs. exists fs target)) (\<lambda>present. when_io present (rmtree target)))"

definition install_files ::
  "(fs \<Rightarrow> path \<Rightarrow> string) \<Rightarrow> (path \<Rightarrow> bool) \<Rightarrow> path \<Rightarrow> path \<Rightarrow> path \<Rightarrow> (fs, unit) io" where
  "install_files mk full source target launcher =
     bnd (map_io (\<lambda>name. bnd (read_node (source @ [name])) (\<lambda>data. ret (name, data))) FILES) (\<lambda>contents.
     seq (mkdir_parents target)
     (seq (mkdir_parents (butlast launcher))
     (seq (for_io contents (\<lambda>(name, data).
            atomic_write mk full (target @ [name]) data
              (if name = ''veil-desktop'' then mode_755 else mode_644)))
     (atomic_write mk full launcher (Bytes (desktop_entry target)) mode_644))))"

definition manage ::
  "(fs \<Rightarrow> path \<Rightarrow> string) \<Rightarrow> (path \<Rightarrow> bool) \<Rightarrow> action \<Rightarrow> path \<Rightarrow> path \<Rightarrow> (fs, unit) io" where
  "manage mk full action source pre =
     (let target = target_of pre; launcher = launcher_of pre in
      seq (for_io [target, launcher] (safe_path True))
      (seq (check_target target)
      (seq (check_launcher launcher)
      (case action of
         Uninstall \<Rightarrow> uninstall target launcher
       | Install \<Rightarrow> install_files mk full source target launcher))))"

definition is_reported :: "exn \<Rightarrow> bool" where
  "is_reported e \<longleftrightarrow> (case e of ValueError m \<Rightarrow> True | OSError m \<Rightarrow> True | _ \<Rightarrow> False)"

definition install_main ::
  "(fs \<Rightarrow> path \<Rightarrow> string) \<Rightarrow> (path \<Rightarrow> bool) \<Rightarrow> nat \<Rightarrow> action \<Rightarrow> path \<Rightarrow> path \<Rightarrow> bool \<Rightarrow> string list \<Rightarrow> (fs, unit) io" where
  "install_main mk full euid action source cwd absolute pre =
     try_except
       (seq (if euid = 0 then raise (ValueError ''run as your desktop user, without sudo'') else ret ())
            (manage mk full action source (abspath cwd absolute pre)))
       is_reported
       (\<lambda>e. raise (SystemExit ''1''))"

section \<open>Replacing one file\<close>

text \<open>What the names of \<open>mkstemp\<close> are like: new, with the prefix the script asks for.\<close>

definition fresh_names :: "(fs \<Rightarrow> path \<Rightarrow> string) \<Rightarrow> bool" where
  "fresh_names mk \<longleftrightarrow>
     (\<forall>fs d. lookup fs (d @ [mk fs d]) = None \<and> startswith (mk fs d) ''.veil-'')"

lemma is_symlink_put_File: "p \<noteq> [] \<Longrightarrow> is_symlink (put p (File c m) fs) q \<longleftrightarrow> q \<noteq> p \<and> is_symlink fs q"
  by (auto simp: is_symlink_iff lookup_put)

lemma plain_put_File: "p \<noteq> [] \<Longrightarrow> plain fs q \<Longrightarrow> plain (put p (File c m) fs) q"
  by (rule plain_mono) (auto simp: is_symlink_put_File)

lemma mkstemp_run:
  assumes "plain fs d" and "lookup fs (d @ [mk fs d]) = None"
  defines "t \<equiv> d @ [mk fs d]"
  shows "mkstemp mk d fs =
    (if lookup fs d = Some Dir
     then (Inr t, put t (File (Bytes []) mode_600) (put t (File (Bytes []) mode_644) fs))
     else (Inl enoent, fs))"
proof -
  have "t \<noteq> []" by (simp add: t_def)
  have t: "plain fs t" using assms by (auto intro: plain_snoc simp: is_symlink_iff)
  then have "plain (put t (File (Bytes []) mode_644) fs) t" by (simp add: plain_put_File \<open>t \<noteq> []\<close>)
  then show ?thesis
    using t assms(2) \<open>t \<noteq> []\<close>
    by (simp add: mkstemp_def io_simps write_content_def chmod_def lookup_put t_def [symmetric])
      (simp add: t_def)
qed

lemma atomic_write_run:
  assumes "plain fs (butlast p)" and "p \<noteq> []"
    and "lookup fs (butlast p @ [mk fs (butlast p)]) = None" and "butlast p @ [mk fs (butlast p)] \<noteq> p"
  defines "t \<equiv> butlast p @ [mk fs (butlast p)]"
  shows "atomic_write mk full p data mode fs =
    (if lookup fs (butlast p) \<noteq> Some Dir then (Inl enoent, fs)
     else let fs1 = put t (File (Bytes []) mode_600) (put t (File (Bytes []) mode_644) fs) in
       if full p then (Inl (OSError ''No space left on device''), del ((=) t) fs1)
       else let fs2 = put t (File data mode) (put t (File data mode_600) fs1) in
         if lookup fs p = Some Dir then (Inl eisdir, del ((=) t) fs2)
         else (Inr (), put p (File data mode) (del ((=) t) fs2)))"
proof -
  have t: "t \<noteq> []" "t \<noteq> p" "p \<noteq> t" "lookup fs t = None" using assms by (auto simp: t_def)
  have "plain fs t" using assms by (auto intro: plain_snoc simp: is_symlink_iff)
  then have pl: "plain (put t (File c m) (put t (File c' m') fs)) t"
      "plain (put t (File c'' m'') (put t (File c m) (put t (File c' m') fs))) t" for c m c' m' c'' m''
    using t(1) by (simp_all add: plain_put_File)
  note step = write_content_def chmod_def replace_file_def unlink_def lookup_put lookup_del
  show ?thesis
    using mkstemp_run [of fs "butlast p" mk, OF assms(1) assms(3)] t pl assms(2)
    by (auto simp: atomic_write_def t_def [symmetric] bnd_def try_finally_def seq_def raise_def step Let_def)
qed

text \<open>Whatever happens, other names keep what they stand for, and the name itself is all new or all old.\<close>

lemma atomic_write_effect:
  assumes "plain fs (butlast p)" and "p \<noteq> []"
    and "lookup fs (butlast p @ [mk fs (butlast p)]) = None" and "butlast p @ [mk fs (butlast p)] \<noteq> p"
    and "atomic_write mk full p data mode fs = (r, fs')"
  shows "q \<noteq> p \<Longrightarrow> lookup fs' q = lookup fs q"
    and "r = Inr () \<and> lookup fs' p = Some (File data mode) \<and> lookup fs (butlast p) = Some Dir \<or>
         isl r \<and> lookup fs' p = lookup fs p"
  using assms(5) assms(2,3,4) unfolding atomic_write_run [of fs p mk, OF assms(1-4)]
  by (auto simp: Let_def lookup_put lookup_del split: if_splits)

definition no_temp :: "string \<Rightarrow> bool" where
  "no_temp name \<longleftrightarrow> \<not> startswith name ''.veil-''"

lemma fresh_namesD:
  assumes "fresh_names mk" and "no_temp name"
  shows "lookup fs (d @ [mk fs d]) = None" and "d @ [mk fs d] \<noteq> d @ [name]"
  using assms by (auto simp: fresh_names_def no_temp_def)

lemma atomic_write_at:
  assumes "fresh_names mk" and "no_temp name" and "plain fs d"
    and "atomic_write mk full (d @ [name]) data mode fs = (r, fs')"
  shows "q \<noteq> d @ [name] \<Longrightarrow> lookup fs' q = lookup fs q"
    and "r = Inr () \<and> lookup fs' (d @ [name]) = Some (File data mode) \<and> lookup fs d = Some Dir \<or>
         isl r \<and> lookup fs' (d @ [name]) = lookup fs (d @ [name])"
    and "is_symlink fs' q \<Longrightarrow> is_symlink fs q"
    and "plain fs q \<Longrightarrow> plain fs' q"
proof -
  note e = atomic_write_effect [of fs "d @ [name]" mk full data mode r fs',
      simplified, OF assms(3) fresh_namesD(1) [OF assms(1,2)] _ assms(4)]
  have ne: "mk fs d \<noteq> name" using fresh_namesD(2) [OF assms(1,2), of d fs] by simp
  show frame: "lookup fs' q = lookup fs q" if "q \<noteq> d @ [name]" for q using e(1) [OF ne that] .
  show new: "r = Inr () \<and> lookup fs' (d @ [name]) = Some (File data mode) \<and> lookup fs d = Some Dir \<or>
      isl r \<and> lookup fs' (d @ [name]) = lookup fs (d @ [name])" using e(2) [OF ne] .
  show links: "is_symlink fs' q \<Longrightarrow> is_symlink fs q" for q
    using frame [of q] new by (cases "q = d @ [name]") (auto simp: is_symlink_iff)
  show "plain fs q \<Longrightarrow> plain fs' q" by (erule plain_mono) (rule links)
qed

lemma write_files_effect:
  assumes "fresh_names mk" and "\<And>n. n \<in> fst ` set cs \<Longrightarrow> no_temp n" and "distinct (map fst cs)"
    and "plain fs d"
    and "for_io cs (\<lambda>(name, data). atomic_write mk full (d @ [name]) data (mode name)) fs = (r, fs')"
  shows "(\<forall>q. q \<notin> (\<lambda>n. d @ [n]) ` fst ` set cs \<longrightarrow> lookup fs' q = lookup fs q) \<and>
    (r = Inr () \<longrightarrow> (\<forall>(n, c) \<in> set cs. lookup fs' (d @ [n]) = Some (File c (mode n)))) \<and>
    (\<forall>q. plain fs q \<longrightarrow> plain fs' q) \<and> (\<forall>q. is_symlink fs' q \<longrightarrow> is_symlink fs q)"
  using assms(2-5)
proof (induction cs arbitrary: fs)
  case Nil
  then show ?case by (simp add: ret_def)
next
  case (Cons nc cs)
  obtain n c where nc: "nc = (n, c)" by (cases nc)
  obtain r1 fs1 where w: "atomic_write mk full (d @ [n]) c (mode n) fs = (r1, fs1)" by fastforce
  have nt: "no_temp n" using Cons.prems(1) nc by simp
  note one = atomic_write_at [OF assms(1) nt Cons.prems(3) w]
  show ?case
  proof (cases r1)
    case (Inl e)
    then have "r = Inl e" "fs' = fs1" using Cons.prems(4) w nc by (auto simp: seq_def bnd_def)
    then show ?thesis using one nc by auto
  next
    case (Inr u)
    then have "for_io cs (\<lambda>(name, data). atomic_write mk full (d @ [name]) data (mode name)) fs1 = (r, fs')"
      using Cons.prems(4) w nc by (auto simp: seq_def bnd_def)
    with Cons.IH [of fs1] Cons.prems one(4) nc
    have ih: "(\<forall>q. q \<notin> (\<lambda>n. d @ [n]) ` fst ` set cs \<longrightarrow> lookup fs' q = lookup fs1 q) \<and>
      (r = Inr () \<longrightarrow> (\<forall>(n, c) \<in> set cs. lookup fs' (d @ [n]) = Some (File c (mode n)))) \<and>
      (\<forall>q. plain fs1 q \<longrightarrow> plain fs' q) \<and> (\<forall>q. is_symlink fs' q \<longrightarrow> is_symlink fs1 q)" by auto
    have "d @ [n] \<notin> (\<lambda>n. d @ [n]) ` fst ` set cs" using Cons.prems(2) nc by auto
    then have "lookup fs' (d @ [n]) = Some (File c (mode n))" using ih one(2) Inr by auto
    then show ?thesis using ih one nc by auto
  qed
qed

section \<open>Only checks\<close>

lemma safe_path_reads [reads_intros]: "reads (safe_path b p)"
  unfolding safe_path_def by (intro reads_intros)

lemma check_target_reads [reads_intros]: "reads (check_target t)"
  unfolding check_target_def by (intro reads_intros)

lemma check_launcher_reads [reads_intros]: "reads (check_launcher l)"
  unfolding check_launcher_def by (intro reads_intros)

lemma atomic_write_raises [raises_intros]: "raises is_OSError (atomic_write mk full p data mode)"
  unfolding atomic_write_def mkstemp_def by (intro raises_intros) simp_all

lemma install_files_raises: "raises is_OSError (install_files mk full source target launcher)"
  unfolding install_files_def by (intro raises_intros) (simp add: raises_intros split: prod.splits)

lemma uninstall_raises: "raises is_OSError (uninstall target launcher)"
  unfolding uninstall_def by (intro raises_intros)

text \<open>The checks of \<open>manage\<close> as one program, and the part that changes files.\<close>

definition checks :: "path \<Rightarrow> (fs, unit) io" where
  "checks pre =
     seq (for_io [target_of pre, launcher_of pre] (safe_path True))
     (seq (check_target (target_of pre)) (check_launcher (launcher_of pre)))"

definition acts :: "(fs \<Rightarrow> path \<Rightarrow> string) \<Rightarrow> (path \<Rightarrow> bool) \<Rightarrow> action \<Rightarrow> path \<Rightarrow> path \<Rightarrow> (fs, unit) io" where
  "acts mk full action source pre =
     (case action of
        Uninstall \<Rightarrow> uninstall (target_of pre) (launcher_of pre)
      | Install \<Rightarrow> install_files mk full source (target_of pre) (launcher_of pre))"

lemma seq_assoc: "seq (seq m k) l = seq m (seq k l)"
  by (auto simp: seq_def bnd_def fun_eq_iff split: prod.splits sum.splits)

lemma manage_split: "manage mk full action source pre = seq (checks pre) (acts mk full action source pre)"
  by (simp add: manage_def checks_def acts_def seq_assoc Let_def)

lemma checks_reads: "reads (checks pre)"
  unfolding checks_def by (intro reads_intros)

lemma manage_run:
  "manage mk full action source pre fs =
     (case fst (checks pre fs) of Inl e \<Rightarrow> (Inl e, fs) | Inr x \<Rightarrow> acts mk full action source pre fs)"
  unfolding manage_split by (rule seq_reads [OF checks_reads])

lemma acts_raises: "raises is_OSError (acts mk full action source pre)"
  by (simp add: acts_def install_files_raises uninstall_raises split: action.splits)

lemma safe_path_Inr: "safe_path True p fs = (Inr u, fs') \<Longrightarrow> plain fs p"
proof -
  assume s: "safe_path True p fs = (Inr u, fs')"
  then have "filter (\<lambda>q. is_symlink fs q) (p # parents p) = []"
    by (auto simp: safe_path_def for_checks raise_def simp del: for_io.simps split: if_splits list.splits)
  then have none: "\<not> is_symlink fs q" if "q \<in> set (p # parents p)" for q
    using that by (auto simp: filter_empty_conv simp del: filter.simps)
  have "take i p \<in> set (p # parents p)" if "i \<le> length p" for i
    using that by (cases "i = length p") (auto simp: parents_def)
  with none show "plain fs p" by (auto simp: plain_iff)
qed

lemma checks_Inr:
  assumes "fst (checks pre fs) = Inr u"
  shows "plain fs (target_of pre)" and "plain fs (launcher_of pre)"
    and "lookup fs (target_of pre) = None \<or> lookup fs (target_of pre) = Some Dir"
    and "lookup fs (launcher_of pre) \<noteq> Some Dir"
proof -
  have 1: "fst (safe_path True (target_of pre) fs) = Inr ()" "fst (safe_path True (launcher_of pre) fs) = Inr ()"
      "fst (check_target (target_of pre) fs) = Inr ()" "fst (check_launcher (launcher_of pre) fs) = Inr ()"
    using assms unfolding checks_def
    by (auto simp: seq_reads reads_intros ret_def split: sum.splits)
  show p: "plain fs (target_of pre)" "plain fs (launcher_of pre)"
    using 1 safe_path_Inr by (metis prod.collapse)+
  show "lookup fs (target_of pre) = None \<or> lookup fs (target_of pre) = Some Dir"
    using 1(3) p(1)
    by (auto simp: check_target_def exists_def is_dir_def io_simps split: if_splits sum.splits prod.splits)
  show "lookup fs (launcher_of pre) \<noteq> Some Dir"
    using 1(4) p(2)
    by (auto simp: check_launcher_def exists_def read_text_def read_node_def io_simps)
qed

lemma raises_mono: "raises P m \<Longrightarrow> (\<And>e. P e \<Longrightarrow> Q e) \<Longrightarrow> raises Q m"
  by (auto simp: raises_def)

lemma OSError_reported: "is_OSError e \<Longrightarrow> is_reported e"
  by (auto simp: is_OSError_def is_reported_def split: exn.splits)

lemma checks_raise: "raises is_reported (checks pre)"
proof -
  have "raises is_reported (read_node l)" for l by (rule raises_mono [OF fs_raises(1) OSError_reported])
  moreover have "raises is_reported (iterdir t)" for t
    by (auto simp: raises_def iterdir_def is_reported_def split: option.splits node.splits)
  moreover have "raises is_reported (case c of Bytes s \<Rightarrow> ret s | Archive ms \<Rightarrow> raise (ValueError ''UnicodeDecodeError''))" for c
    by (cases c) (auto intro!: raises_intros simp: is_reported_def)
  ultimately show ?thesis
    unfolding checks_def safe_path_def check_target_def check_launcher_def read_text_def
    by (intro raises_intros) (simp_all add: is_reported_def)
qed

lemma manage_raises: "raises is_reported (manage mk full action source pre)"
  unfolding manage_split
  by (intro raises_seq checks_raise raises_mono [OF acts_raises OSError_reported])

subsection \<open>Shapes of the paths\<close>

lemma path_shapes:
  "butlast (launcher_of pre) = pre @ [''share'', ''applications'']" "target_of pre \<noteq> []" "launcher_of pre \<noteq> []"
  "launcher_of pre \<noteq> target_of pre @ [n]" "target_of pre @ [n] \<noteq> launcher_of pre"
  "\<not> inside (target_of pre) (launcher_of pre)"
  by (auto simp: launcher_of_def target_of_def inside_def butlast_append)

definition made_dirs :: "path \<Rightarrow> path list" where
  "made_dirs pre = map (\<lambda>i. take i (target_of pre)) [1..<Suc (length (target_of pre))] @
     map (\<lambda>i. take i (butlast (launcher_of pre))) [1..<Suc (length (butlast (launcher_of pre)))]"

lemma made_dirs_short: "q \<in> set (made_dirs pre) \<Longrightarrow> length q \<le> length pre + 2 \<and> q \<noteq> []"
  by (auto simp: made_dirs_def target_of_def path_shapes(1))

lemma install_names:
  "n \<in> set FILES \<Longrightarrow> no_temp n" "distinct FILES" "no_temp (APP_ID @ ''.desktop'')"
  by (auto simp: FILES_def no_temp_def APP_ID_def startswith_code)

lemma map_io_read:
  "map_io (\<lambda>name. bnd (read_node (source @ [name])) (\<lambda>data. ret (name, data))) ns fs = (Inr cs, fs') \<Longrightarrow>
     fs' = fs \<and> map fst cs = ns \<and> (\<forall>(n, c) \<in> set cs. read_node (source @ [n]) fs = (Inr c, fs))"
proof (induction ns arbitrary: cs)
  case Nil
  then show ?case by (simp add: ret_def)
next
  case (Cons n ns)
  obtain r fs1 where r: "read_node (source @ [n]) fs = (r, fs1)" by fastforce
  then have "fs1 = fs" by (rule readsD [OF fs_reads(1)])
  then obtain c cs' where "r = Inr c" "cs = (n, c) # cs'"
      "map_io (\<lambda>name. bnd (read_node (source @ [name])) (\<lambda>data. ret (name, data))) ns fs = (Inr cs', fs')"
    using Cons.prems r by (auto simp: bnd_Inr_iff ret_iff)
  with Cons.IH [of cs'] r \<open>fs1 = fs\<close> show ?case by auto
qed

lemma made_dirs_prefix:
  assumes "plain fs (target_of pre)" and "plain fs (launcher_of pre)" and "q \<in> set (made_dirs pre)"
  shows "plain fs q"
  using assms plain_prefix plain_butlast [OF assms(2)] by (auto simp: made_dirs_def)

lemma mkdir_both:
  assumes "plain fs (target_of pre)" and "plain fs (launcher_of pre)"
    and "seq (mkdir_parents (target_of pre)) (mkdir_parents (butlast (launcher_of pre))) fs = (r, fs')"
  shows "lookup fs' q = lookup fs q \<or> q \<in> set (made_dirs pre) \<and> lookup fs q = None \<and> lookup fs' q = Some Dir"
    and "plain fs p \<Longrightarrow> plain fs' p"
    and "r = Inr () \<Longrightarrow> lookup fs' (target_of pre) = Some Dir"
proof -
  have run: "for_io (made_dirs pre) mkdir_one fs = (r, fs')"
    using assms(3) by (simp add: made_dirs_def mkdir_parents_def for_io_append)
  have pl: "\<And>p. p \<in> set (made_dirs pre) \<Longrightarrow> plain fs p \<and> p \<noteq> []"
    using made_dirs_prefix [OF assms(1,2)] made_dirs_short by blast
  note m = mkdirs_run [OF pl run]
  show frame: "lookup fs' q = lookup fs q \<or> q \<in> set (made_dirs pre) \<and> lookup fs q = None \<and> lookup fs' q = Some Dir" for q
    using m(1) by blast
  show "plain fs p \<Longrightarrow> plain fs' p"
    by (erule plain_mono) (use frame in \<open>auto simp: is_symlink_iff; metis option.distinct(1) option.inject node.distinct(5)\<close>)
  have "target_of pre \<in> set (made_dirs pre)"
    by (auto simp: made_dirs_def image_iff Suc_le_eq path_shapes intro!: bexI [of _ "length (target_of pre)"])
  then show "r = Inr () \<Longrightarrow> lookup fs' (target_of pre) = Some Dir" using m(2) by blast
qed

text \<open>A successful installation, step by step.\<close>

lemma install_files_steps:
  assumes "install_files mk full source target launcher fs = (Inr (), fs')"
  obtains cs fs1 fs2 where
    "map fst cs = FILES" "\<forall>(n, c) \<in> set cs. read_node (source @ [n]) fs = (Inr c, fs)"
    "seq (mkdir_parents target) (mkdir_parents (butlast launcher)) fs = (Inr (), fs1)"
    "for_io cs (\<lambda>(name, data). atomic_write mk full (target @ [name]) data
       (if name = ''veil-desktop'' then mode_755 else mode_644)) fs1 = (Inr (), fs2)"
    "atomic_write mk full launcher (Bytes (desktop_entry target)) mode_644 fs2 = (Inr (), fs')"
proof -
  from assms obtain cs w where cs:
    "map_io (\<lambda>name. bnd (read_node (source @ [name])) (\<lambda>data. ret (name, data))) FILES fs = (Inr cs, w)"
    and rest: "seq (seq (mkdir_parents target) (mkdir_parents (butlast launcher)))
       (seq (for_io cs (\<lambda>(name, data). atomic_write mk full (target @ [name]) data
         (if name = ''veil-desktop'' then mode_755 else mode_644)))
       (atomic_write mk full launcher (Bytes (desktop_entry target)) mode_644)) w = (Inr (), fs')"
    unfolding install_files_def by (auto simp: bnd_Inr_iff [of _ _ fs] seq_assoc)
  from map_io_read [OF cs] have "w = fs" "map fst cs = FILES"
    "\<forall>(n, c) \<in> set cs. read_node (source @ [n]) fs = (Inr c, fs)" by auto
  with rest that show thesis by (auto simp: seq_Inr_iff [of "seq _ _" "seq _ _"] seq_Inr_iff [of "for_io _ _"])
qed

definition installed :: "path \<Rightarrow> path list" where
  "installed pre = launcher_of pre # map (\<lambda>n. target_of pre @ [n]) FILES @ made_dirs pre"

lemma install_effect:
  assumes "fresh_names mk" and "plain fs (target_of pre)" and "plain fs (launcher_of pre)"
    and "install_files mk full source (target_of pre) (launcher_of pre) fs = (Inr (), fs')"
  shows "n \<in> set FILES \<Longrightarrow> \<exists>c. read_node (source @ [n]) fs = (Inr c, fs) \<and>
      lookup fs' (target_of pre @ [n]) = Some (File c (if n = ''veil-desktop'' then mode_755 else mode_644))"
    and "lookup fs' (launcher_of pre) = Some (File (Bytes (desktop_entry (target_of pre))) mode_644)"
    and "q \<notin> set (installed pre) \<Longrightarrow> lookup fs' q = lookup fs q"
proof -
  obtain cs fs1 fs2 where steps:
    "map fst cs = FILES" "\<forall>(n, c) \<in> set cs. read_node (source @ [n]) fs = (Inr c, fs)"
    "seq (mkdir_parents (target_of pre)) (mkdir_parents (butlast (launcher_of pre))) fs = (Inr (), fs1)"
    "for_io cs (\<lambda>(name, data). atomic_write mk full (target_of pre @ [name]) data
       (if name = ''veil-desktop'' then mode_755 else mode_644)) fs1 = (Inr (), fs2)"
    "atomic_write mk full (launcher_of pre) (Bytes (desktop_entry (target_of pre))) mode_644 fs2 = (Inr (), fs')"
    by (rule install_files_steps [OF assms(4)])
  note made = mkdir_both [OF assms(2,3) steps(3)]
  have names: "fst ` set cs = set FILES" "distinct (map fst cs)"
    using steps(1) install_names(2) by (metis list.set_map, simp)
  have w: "(\<forall>q. q \<notin> (\<lambda>n. target_of pre @ [n]) ` set FILES \<longrightarrow> lookup fs2 q = lookup fs1 q) \<and>
    (\<forall>(n, c) \<in> set cs. lookup fs2 (target_of pre @ [n]) =
       Some (File c (if n = ''veil-desktop'' then mode_755 else mode_644))) \<and> (\<forall>q. plain fs1 q \<longrightarrow> plain fs2 q)"
    using write_files_effect [OF assms(1) _ names(2) made(2) [OF assms(2)] steps(4)] install_names(1)
    by (simp add: names(1))
  have l: "launcher_of pre = butlast (launcher_of pre) @ [APP_ID @ ''.desktop'']"
    by (simp add: launcher_of_def butlast_append)
  have "plain fs2 (butlast (launcher_of pre))" using w made(2) assms(3) plain_butlast by blast
  note a = atomic_write_at [OF assms(1) install_names(3) this, of full _ _ "Inr ()" fs', folded l, OF steps(5)]
  show "lookup fs' (launcher_of pre) = Some (File (Bytes (desktop_entry (target_of pre))) mode_644)"
    using a(2) by simp
  show "\<exists>c. read_node (source @ [n]) fs = (Inr c, fs) \<and>
      lookup fs' (target_of pre @ [n]) = Some (File c (if n = ''veil-desktop'' then mode_755 else mode_644))"
    if "n \<in> set FILES"
  proof -
    have "n \<in> fst ` set cs" using that by (simp only: names(1))
    then obtain c where c: "(n, c) \<in> set cs" by (metis imageE prod.collapse)
    then have "lookup fs2 (target_of pre @ [n]) = Some (File c (if n = ''veil-desktop'' then mode_755 else mode_644))"
      using w by blast
    moreover have "read_node (source @ [n]) fs = (Inr c, fs)" using c steps(2) by blast
    ultimately show ?thesis using a(1) [OF path_shapes(5)] by simp
  qed
  show "lookup fs' q = lookup fs q" if "q \<notin> set (installed pre)"
  proof -
    have "q \<noteq> launcher_of pre" "q \<notin> (\<lambda>n. target_of pre @ [n]) ` set FILES" "q \<notin> set (made_dirs pre)"
      using that by (auto simp: installed_def)
    then show ?thesis using a(1) w made(1) by metis
  qed
qed

lemma not_readable:
  assumes "n \<in> set ns" and "fst (read_node (source @ [n]) fs) = Inl e"
  shows "\<exists>e. map_io (\<lambda>name. bnd (read_node (source @ [name])) (\<lambda>data. ret (name, data))) ns fs = (Inl e, fs)"
proof -
  have r: "reads (map_io (\<lambda>name. bnd (read_node (source @ [name])) (\<lambda>data. ret (name, data))) ns)"
    by (intro reads_intros)
  obtain x fs' where x: "map_io (\<lambda>name. bnd (read_node (source @ [name])) (\<lambda>data. ret (name, data))) ns fs = (x, fs')"
    by fastforce
  have "isl x"
  proof (cases x)
    case (Inr cs)
    then have m: "map fst cs = ns" "\<forall>(n, c) \<in> set cs. read_node (source @ [n]) fs = (Inr c, fs)"
      using map_io_read [of source ns fs cs fs'] x by auto
    then obtain c where "(n, c) \<in> set cs" using assms(1) by force
    with m assms(2) show ?thesis by auto
  qed simp
  with x readsD [OF r x] show ?thesis by (auto simp: isl_def)
qed

section \<open>The tree is kept\<close>

lemma atomic_write_tree:
  assumes "fresh_names mk" and "no_temp name" and "plain fs d" and "tree fs"
  shows "tree (snd (atomic_write mk full (d @ [name]) data mode fs))"
proof -
  define t where "t = d @ [mk fs d]"
  have t: "lookup fs t = None" "t \<noteq> d @ [name]" "t \<noteq> []" "butlast t = d"
    using fresh_namesD(1) [OF assms(1,2), of fs d] fresh_namesD(2) [OF assms(1,2), of d fs] by (auto simp: t_def)
  show ?thesis
  proof (cases "lookup fs d = Some Dir")
    case True
    have d: "d \<noteq> t" using t True by auto
    have put_t: "tree (put t (File c m) f)" if "tree f" "lookup f d = Some Dir" "lookup f t \<noteq> Some Dir" for c m f
      using that t by (intro tree_put) auto
    have look: "lookup (put t n f) x = (if x = t then Some n else lookup f x)" for n f x
      using t(3) by (simp add: lookup_put)
    let ?fs1 = "put t (File (Bytes []) mode_600) (put t (File (Bytes []) mode_644) fs)"
    let ?fs2 = "put t (File data mode) (put t (File data mode_600) ?fs1)"
    have t1: "tree ?fs1" and t2: "tree ?fs2"
      using assms(4) True t(1) d by (auto intro!: put_t simp: look)
    have d1: "tree (del ((=) t) ?fs1)" and d2: "tree (del ((=) t) ?fs2)"
      using t1 t2 by (auto intro!: tree_del_leaf simp: look)
    have "tree (put (d @ [name]) (File data mode) (del ((=) t) ?fs2))" if "lookup fs (d @ [name]) \<noteq> Some Dir"
      using d2 that True t d by (intro tree_put) (auto simp: lookup_del look)
    then show ?thesis
      using atomic_write_run [of fs "d @ [name]" mk full data mode] d1 d2 assms(3,4) t
      by (auto simp: t_def [symmetric] Let_def)
  next
    case False
    then show ?thesis
      using atomic_write_run [of fs "d @ [name]" mk full data mode] assms(3,4) t by (simp add: t_def)
  qed
qed

lemma snd_seq: "snd (seq m k w) = (case m w of (Inl e, w') \<Rightarrow> w' | (Inr x, w') \<Rightarrow> snd (k w'))"
  by (auto simp: seq_def bnd_def split: prod.splits sum.splits)

lemma write_files_tree:
  assumes "fresh_names mk" and "\<And>n. n \<in> fst ` set cs \<Longrightarrow> no_temp n" and "plain fs d" and "tree fs"
  shows "tree (snd (for_io cs (\<lambda>(name, data). atomic_write mk full (d @ [name]) data (mode name)) fs))"
  using assms(2-4)
proof (induction cs arbitrary: fs)
  case Nil
  then show ?case by (simp add: ret_def)
next
  case (Cons nc cs)
  obtain n c where nc: "nc = (n, c)" by (cases nc)
  obtain r1 fs1 where w: "atomic_write mk full (d @ [n]) c (mode n) fs = (r1, fs1)" by fastforce
  have nt: "no_temp n" using Cons.prems(1) nc by simp
  have "tree fs1" "plain fs1 d"
    using atomic_write_tree [OF assms(1) nt Cons.prems(2,3), of full c "mode n"] w
      atomic_write_at(4) [OF assms(1) nt Cons.prems(2) w] Cons.prems(2) by auto
  with Cons nc w show ?case by (auto simp: snd_seq split: sum.splits)
qed

lemma mkdir_both_tree:
  assumes "plain fs (target_of pre)" and "plain fs (launcher_of pre)" and "tree fs"
  shows "tree (snd (seq (mkdir_parents (target_of pre)) (mkdir_parents (butlast (launcher_of pre))) fs))"
proof -
  obtain r fs1 where m: "mkdir_parents (target_of pre) fs = (r, fs1)" by fastforce
  have pl: "\<And>p. p \<in> set (map (\<lambda>i. take i (target_of pre)) [1..<Suc (length (target_of pre))]) \<Longrightarrow> plain fs p \<and> p \<noteq> []"
    using plain_prefix [OF assms(1)] path_shapes(2) by auto
  note made = mkdirs_run(1) [OF pl m [unfolded mkdir_parents_def]]
  have "plain fs1 (butlast (launcher_of pre))"
    by (rule plain_mono [OF plain_butlast [OF assms(2)]])
      (use made in \<open>auto simp: is_symlink_iff; metis option.distinct(1) option.inject node.distinct(5)\<close>)
  moreover have "tree fs1" using tree_mkdir_parents [OF assms(3,1)] m by simp
  ultimately show ?thesis using m tree_mkdir_parents by (auto simp: snd_seq split: sum.splits)
qed

lemma install_tree:
  assumes "fresh_names mk" and "plain fs (target_of pre)" and "plain fs (launcher_of pre)" and "tree fs"
  shows "tree (snd (install_files mk full source (target_of pre) (launcher_of pre) fs))"
proof -
  let ?read = "map_io (\<lambda>name. bnd (read_node (source @ [name])) (\<lambda>data. ret (name, data))) FILES"
  let ?dirs = "seq (mkdir_parents (target_of pre)) (mkdir_parents (butlast (launcher_of pre)))"
  let ?written = "\<lambda>cs. for_io cs (\<lambda>(name, data). atomic_write mk full (target_of pre @ [name]) data
      (if name = ''veil-desktop'' then mode_755 else mode_644))"
  let ?last = "atomic_write mk full (launcher_of pre) (Bytes (desktop_entry (target_of pre))) mode_644"
  have l: "launcher_of pre = butlast (launcher_of pre) @ [APP_ID @ ''.desktop'']"
    by (simp add: launcher_of_def butlast_append)
  have rest: "tree (snd (seq ?dirs (seq (?written cs) ?last) fs))" if cs: "map fst cs = FILES" for cs
  proof -
    obtain r1 fs1 where d: "?dirs fs = (r1, fs1)" by fastforce
    obtain r2 fs2 where w: "?written cs fs1 = (r2, fs2)" by fastforce
    note made = mkdir_both [OF assms(2,3) d]
    have names: "\<And>n. n \<in> fst ` set cs \<Longrightarrow> no_temp n" "distinct (map fst cs)"
      using cs install_names(1,2) by (auto simp flip: list.set_map)
    have t1: "tree fs1" using mkdir_both_tree [OF assms(2-4)] d by simp
    have t2: "tree fs2"
      using write_files_tree [of mk cs fs1 "target_of pre" full
          "\<lambda>name. if name = ''veil-desktop'' then mode_755 else mode_644",
          OF assms(1) names(1) made(2) [OF assms(2)] t1] w by simp
    have "plain fs2 (butlast (launcher_of pre))"
      using write_files_effect [OF assms(1) names made(2) [OF assms(2)] w] made(2) assms(3) plain_butlast by blast
    from atomic_write_tree [OF assms(1) install_names(3) this t2, folded l] have "tree (snd (?last fs2))" .
    with t1 t2 d w show ?thesis by (auto simp: snd_seq split: sum.splits)
  qed
  obtain rc x where c: "?read fs = (rc, x)" by fastforce
  have "reads ?read" by (intro reads_intros)
  with c have x: "x = fs" by (auto dest: readsD)
  show ?thesis
  proof (cases rc)
    case (Inl e)
    then show ?thesis using c x assms(4) by (simp add: install_files_def bnd_def)
  next
    case (Inr cs)
    then have "map fst cs = FILES" using map_io_read [of source FILES fs cs x] c by blast
    from rest [OF this] c x Inr show ?thesis
      by (simp add: install_files_def seq_assoc bnd_def [of ?read])
  qed
qed

lemma uninstall_tree: "tree fs \<Longrightarrow> tree (snd (uninstall target launcher fs))"
  using tree_unlink [of fs True launcher]
  by (auto simp: uninstall_def snd_seq bnd_def gets_def when_io_def ret_def tree_rmtree split: prod.splits sum.splits)

section \<open>Examples of the arguments\<close>

text \<open>A choice of names that is always fresh, and a small file system to install from.\<close>

definition longest :: "fs \<Rightarrow> nat" where
  "longest fs = fold (\<lambda>(p, n) m. max m (length (last p))) fs 0"

definition long_name :: "fs \<Rightarrow> path \<Rightarrow> string" where
  "long_name fs d = ''.veil-'' @ replicate (longest fs) CHR ''x''"

lemma longest_bound: "(p, n) \<in> set fs \<Longrightarrow> length (last p) \<le> longest fs"
proof -
  have mono: "m \<le> fold (\<lambda>(p, n) m. max m (length (last p))) fs m" for m :: nat and fs :: fs
    by (induction fs arbitrary: m) (auto split: prod.splits intro: order_trans [OF max.cobounded1])
  have "(p, n) \<in> set fs \<Longrightarrow> length (last p) \<le> fold (\<lambda>(p, n) m. max m (length (last p))) fs m" for m
    by (induction fs arbitrary: m) (auto intro: order_trans [OF max.cobounded2 mono])
  then show "(p, n) \<in> set fs \<Longrightarrow> length (last p) \<le> longest fs" by (simp add: longest_def)
qed

lemma fresh_long_name: "fresh_names long_name"
  unfolding fresh_names_def
proof (intro allI conjI)
  fix fs :: fs and d
  show "lookup fs (d @ [long_name fs d]) = None"
  proof (rule ccontr)
    assume "lookup fs (d @ [long_name fs d]) \<noteq> None"
    then obtain n where "(d @ [long_name fs d], n) \<in> set fs" by (auto simp: lookup_def dest: map_of_SomeD)
    from longest_bound [OF this] show False by (simp add: long_name_def)
  qed
  show "startswith (long_name fs d) ''.veil-''" by (simp add: long_name_def startswith_code)
qed

lemma is_control_code [code]: "is_control (Char b0 b1 b2 b3 b4 b5 b6 b7) \<longleftrightarrow> \<not> b5 \<and> \<not> b6 \<and> \<not> b7"
  by (cases b0; cases b1; cases b2; cases b3; cases b4; cases b5; cases b6; cases b7)
    (simp_all add: is_control_def)

definition sample_home :: fs where
  "sample_home = ([''s''], Dir) # ([''p''], Dir) # map (\<lambda>n. ([''s'', n], File (Bytes n) mode_644)) FILES"

lemma sample_installs: "fst (manage long_name (\<lambda>_. False) Install [''s''] [''p''] sample_home) = Inr ()"
  by code_simp

section \<open>The launcher\<close>

text \<open>
  How a desktop reads the command back, after the Desktop Entry specification: the value's
  backslash escapes are undone first, then the quotes of the argument, in which a backslash
  protects the next character and two percent signs stand for one.
\<close>

fun value_unescape :: "string \<Rightarrow> string" where
  "value_unescape (c # d # s) =
     (if c = CHR 0x5C \<and> d = CHR 0x5C then CHR 0x5C # value_unescape s else c # value_unescape (d # s))"
| "value_unescape s = s"

fun exec_argument :: "string \<Rightarrow> string option" where
  "exec_argument [] = None"
| "exec_argument (c # s) =
     (if c = CHR 0x22 then (if s = [] then Some [] else None)
      else if c = CHR 0x5C then (case s of [] \<Rightarrow> None | d # t \<Rightarrow> map_option ((#) d) (exec_argument t))
      else if c = CHR ''%'' then (case s of [] \<Rightarrow> None
             | d # t \<Rightarrow> if d = CHR ''%'' then map_option ((#) CHR ''%'') (exec_argument t) else None)
      else map_option ((#) c) (exec_argument s))"

definition exec_program :: "string \<Rightarrow> string option" where
  "exec_program value = (case value_unescape value of [] \<Rightarrow> None
     | c # s \<Rightarrow> if c = CHR 0x22 then exec_argument s else None)"

lemma replace_char: "replace_all [c] b s = concat (map (\<lambda>x. if x = c then b else [x]) s)"
  by (induction s) (auto simp: replace_all_Cons startswith_code)

lemma unescape_doubled: "value_unescape (replace_all [CHR 0x5C] [CHR 0x5C, CHR 0x5C] s) = s"
proof -
  have plain: "c \<noteq> CHR 0x5C \<Longrightarrow> value_unescape (c # s) = c # value_unescape s" for c s
    by (cases s) auto
  show ?thesis by (induction s) (auto simp: replace_char plain)
qed

lemma quoted_append: "quoted (s @ t) = quoted s @ quoted t"
  by (simp add: quoted_def replace_char)

lemma quoted_char:
  "quoted [c] = (if c \<in> {CHR 0x5C, CHR 0x22, CHR 0x60, CHR ''$''} then [CHR 0x5C, c] else [c])"
  by (auto simp: quoted_def replace_char)

lemma exec_argument_quoted:
  "exec_argument (quoted (replace_all ''%'' ''%%'' s) @ [CHR 0x22]) = Some s"
proof (induction s)
  case Nil
  then show ?case by (simp add: quoted_def replace_char)
next
  case (Cons c s)
  have "quoted (replace_all ''%'' ''%%'' (c # s)) =
      (if c = CHR ''%'' then ''%%'' else quoted [c]) @ quoted (replace_all ''%'' ''%%'' s)"
    using quoted_append [of "[c]"] quoted_append [of "''%''" "''%'' @ replace_all ''%'' ''%%'' s"]
      quoted_append [of "''%''"]
    by (simp add: replace_char quoted_char)
  with Cons show ?case by (auto simp: quoted_char)
qed

section \<open>Theorems\<close>



text \<open>
  Every input is read before anything is replaced: if one file of the release cannot be
  read, the installation fails and the file system is as before.
\<close>

theorem unreadable_source_changes_nothing:
  assumes "n \<in> set FILES" and "fst (read_node (source @ [n]) fs) = Inl e"
  shows "\<exists>e. manage mk full Install source pre fs = (Inl e, fs)"
  using not_readable [OF assms]
  by (auto simp: manage_run acts_def install_files_def bnd_def split: sum.splits)

theorem unreadable_source_changes_nothing_witness:
  "\<exists>e. manage long_name (\<lambda>_. False) Install [''s''] [''p''] [([''p''], Dir)] = (Inl e, [([''p''], Dir)])"
proof -
  have "fst (read_node ([''s''] @ [''veil.svg'']) [([''p''], Dir)]) = Inl enoent" by code_simp
  then show ?thesis
    by (intro unreadable_source_changes_nothing [of "''veil.svg''"]) (simp_all add: FILES_def)
qed

text \<open>
  C2. A successful installation puts the content of every release file in place, as it was
  before the installation began (also when the installer runs from the installed directory),
  with the program executable, writes the launcher, and touches no other path.
\<close>

theorem install_installs:
  assumes "fresh_names mk" and "manage mk full Install source pre fs = (Inr (), fs')"
  shows "list_all (\<lambda>n. \<exists>c. read_node (source @ [n]) fs = (Inr c, fs) \<and>
      lookup fs' (target_of pre @ [n]) = Some (File c (if n = ''veil-desktop'' then mode_755 else mode_644))) FILES \<and>
    lookup fs' (launcher_of pre) = Some (File (Bytes (desktop_entry (target_of pre))) mode_644) \<and>
    (\<forall>q. q \<notin> set (installed pre) \<longrightarrow> lookup fs' q = lookup fs q)"
proof -
  obtain u where c: "fst (checks pre fs) = Inr u"
    and a: "install_files mk full source (target_of pre) (launcher_of pre) fs = (Inr (), fs')"
    using assms(2) by (auto simp: manage_run acts_def split: sum.splits)
  note e = install_effect [OF assms(1) checks_Inr(1,2) [OF c] a]
  show ?thesis using e by (simp add: list_all_iff)
qed

theorem install_installs_witness:
  "\<exists>fs'. manage long_name (\<lambda>_. False) Install [''s''] [''p''] sample_home = (Inr (), fs') \<and>
     lookup fs' (launcher_of [''p'']) = Some (File (Bytes (desktop_entry (target_of [''p'']))) mode_644)"
proof -
  obtain fs' where "manage long_name (\<lambda>_. False) Install [''s''] [''p''] sample_home = (Inr (), fs')"
    using sample_installs by (metis prod.collapse)
  with install_installs [OF fresh_long_name this] show ?thesis by blast
qed

text \<open>
  C18. A successful removal takes away the launcher and everything below the installation
  directory, and nothing else.
\<close>

theorem uninstall_uninstalls:
  assumes "tree fs" and "manage mk full Uninstall source pre fs = (Inr (), fs')"
  shows "lookup fs' q = (if q = launcher_of pre \<or> inside (target_of pre) q then None else lookup fs q)"
proof -
  obtain u where c: "fst (checks pre fs) = Inr u"
    and a: "uninstall (target_of pre) (launcher_of pre) fs = (Inr (), fs')"
    using assms(2) by (auto simp: manage_run acts_def split: sum.splits)
  note plain = checks_Inr [OF c]
  obtain w fs1 where u: "unlink True (launcher_of pre) fs = (Inr w, fs1)"
    and r: "when_io (exists fs1 (target_of pre)) (rmtree (target_of pre)) fs1 = (Inr (), fs')"
    using a by (auto simp: uninstall_def seq_Inr_iff bnd_Inr_iff gets_def)
  have fs1: "lookup fs1 x = (if x = launcher_of pre then None else lookup fs x)" for x
    using u path_shapes(3) [of pre]
    by (auto simp: unlink_def lookup_del split: option.splits node.splits if_splits)
  then have "plain fs1 (target_of pre)"
    by (intro plain_mono [OF plain(1)]) (auto simp: is_symlink_iff split: if_splits)
  then have e: "exists fs1 (target_of pre) \<longleftrightarrow> lookup fs (target_of pre) = Some Dir"
    using fs1 [of "target_of pre"] path_shapes(6) [of pre] plain(3) by (auto simp: exists_def)
  show ?thesis
  proof (cases "lookup fs (target_of pre) = Some Dir")
    case True
    then have "fs' = del (inside (target_of pre)) fs1"
      using r e fs1 [of "target_of pre"] path_shapes(6) [of pre]
      by (auto simp: when_io_def rmtree_def split: if_splits)
    then show ?thesis using fs1 [of q] path_shapes(2) [of pre] by (auto simp: lookup_del inside_def)
  next
    case False
    then have "fs' = fs1" using r e by (simp add: when_io_def ret_def)
    moreover have "inside (target_of pre) q \<Longrightarrow> lookup fs q = None"
      using tree_missing [OF assms(1) False] False plain(3) inside_split [of "target_of pre" q]
      by (metis append_Nil2)
    ultimately show ?thesis using fs1 [of q] by auto
  qed
qed

definition sample_installation :: fs where
  "sample_installation = [([''p''], Dir), ([''p'', ''lib''], Dir), ([''p'', ''lib'', ''veil-desktop''], Dir),
     ([''p'', ''lib'', ''veil-desktop'', ''manifest.json''], File (Bytes []) mode_644),
     ([''p'', ''lib'', ''other''], Dir)]"

lemma sample_tree: "tree sample_installation"
  by (auto simp: tree_def lookup_def sample_installation_def split: if_splits)

theorem uninstall_uninstalls_witness:
  "\<exists>fs'. manage long_name (\<lambda>_. False) Uninstall [''s''] [''p''] sample_installation = (Inr (), fs') \<and>
     lookup fs' [''p'', ''lib'', ''veil-desktop'', ''manifest.json''] = None \<and> lookup fs' [''p'', ''lib'', ''other''] = Some Dir"
proof -
  have "fst (manage long_name (\<lambda>_. False) Uninstall [''s''] [''p''] sample_installation) = Inr ()" by code_simp
  then obtain fs' where m: "manage long_name (\<lambda>_. False) Uninstall [''s''] [''p''] sample_installation = (Inr (), fs')"
    by (metis prod.collapse)
  show ?thesis
    using m uninstall_uninstalls [OF sample_tree m, of "[''p'', ''lib'', ''veil-desktop'', ''manifest.json'']"]
      uninstall_uninstalls [OF sample_tree m, of "[''p'', ''lib'', ''other'']"]
    by (auto simp: target_of_def launcher_of_def inside_def sample_installation_def lookup_def)
qed

text \<open>
  C17. Replacing a file is atomic and leaves no temporary file, also when the disk is full: the
  name stands for the complete new content or for what it stood for before, and every other
  name is untouched.
\<close>

theorem atomic_write_is_atomic:
  assumes "fresh_names mk" and "no_temp name" and "plain fs d"
    and "atomic_write mk full (d @ [name]) data mode fs = (r, fs')"
  shows "(\<forall>q. q \<noteq> d @ [name] \<longrightarrow> lookup fs' q = lookup fs q) \<and>
    (if r = Inr () then lookup fs' (d @ [name]) = Some (File data mode)
     else lookup fs' (d @ [name]) = lookup fs (d @ [name]))"
  using atomic_write_at(1,2) [OF assms] by auto

theorem atomic_write_is_atomic_witness:
  "\<exists>e fs'. atomic_write long_name (\<lambda>_. True) ([''d''] @ [''f'']) (Bytes ''new'') mode_644
       [([''d''], Dir), ([''d'', ''f''], File (Bytes ''old'') mode_644)] = (Inl e, fs') \<and>
     lookup fs' [''d'', ''f''] = Some (File (Bytes ''old'') mode_644)"
proof -
  let ?fs = "[([''d''], Dir), ([''d'', ''f''], File (Bytes ''old'') mode_644)]"
  obtain r fs' where w: "atomic_write long_name (\<lambda>_. True) ([''d''] @ [''f'']) (Bytes ''new'') mode_644 ?fs = (r, fs')"
    by fastforce
  have "isl (fst (atomic_write long_name (\<lambda>_. True) ([''d''] @ [''f'']) (Bytes ''new'') mode_644 ?fs))"
    by code_simp
  then obtain e where e: "r = Inl e" using w by (cases r) auto
  have nt: "no_temp ''f''" by code_simp
  have pl: "plain ?fs [''d'']" by code_simp
  from atomic_write_is_atomic [OF fresh_long_name nt pl w] e w show ?thesis by (auto simp: lookup_def)
qed


text \<open>
  The program succeeds or exits with status 1: every refusal and every error of the file
  system is reported, nothing else escapes; and root is refused before anything is looked at.
\<close>

theorem main_exits:
  "fst (install_main mk full euid action source cwd absolute pre fs) \<in> {Inr (), Inl (SystemExit ''1'')} \<and>
   install_main mk full 0 action source cwd absolute pre fs = (Inl (SystemExit ''1''), fs)"
proof -
  have exits: "raises is_reported m \<Longrightarrow>
      fst (try_except m is_reported (\<lambda>e. raise (SystemExit ''1'')) fs) \<in> {Inr (), Inl (SystemExit ''1'')}"
    for m :: "(fs, unit) io"
    by (auto simp: try_except_def raise_def raises_def split: prod.splits sum.splits) (metis fst_conv)
  have "raises is_reported (seq (if euid = 0 then raise (ValueError ''run as your desktop user, without sudo'') else ret ())
      (manage mk full action source p))" for p
    by (intro raises_intros manage_raises) (simp_all add: is_reported_def)
  moreover have "install_main mk full 0 action source cwd absolute pre fs = (Inl (SystemExit ''1''), fs)"
    by (simp add: install_main_def try_except_def raise_def seq_def bnd_def is_reported_def)
  ultimately show ?thesis
    unfolding install_main_def using exits by blast
qed



end
