(* ===== verification/Tools.thy ===== *)
theory Tools
  imports Filesys Json "HOL-Library.List_Lexorder" "HOL-Library.Char_ord"
begin

text \<open>
  The host a script runs on: its files and the commands the script has run. What a command does
  is no code of the repository, so it is an argument, \<open>tool\<close>: given the directory, the
  environment, the command line and the files, it returns the exit status, the standard output and the files it
  leaves. Commands are logged with their arguments, so that theorems can speak of what was run.
\<close>

section \<open>Hosts and commands\<close>

record host =
  files :: fs
  ran :: "string list list"

type_synonym env = "(string \<times> string) list"
type_synonym tool = "path \<Rightarrow> env \<Rightarrow> string list \<Rightarrow> fs \<Rightarrow> int \<times> string \<times> fs"

definition on_files :: "(fs, 'a) io \<Rightarrow> (host, 'a) io" where
  "on_files m h = (case m (files h) of (r, fs) \<Rightarrow> (r, h\<lparr>files := fs\<rparr>))"

text \<open>\<open>subprocess.run\<close> without and with \<open>check=True\<close>.\<close>

definition call :: "tool \<Rightarrow> path \<Rightarrow> env \<Rightarrow> string list \<Rightarrow> (host, int \<times> string) io" where
  "call tool cwd env args h =
     (case tool cwd env args (files h) of (rc, out, fs) \<Rightarrow>
        (Inr (rc, out), h\<lparr>files := fs, ran := ran h @ [args]\<rparr>))"

definition run :: "tool \<Rightarrow> path \<Rightarrow> env \<Rightarrow> string list \<Rightarrow> (host, string) io" where
  "run tool cwd env args =
     bnd (call tool cwd env args) (\<lambda>(rc, out).
     if rc = 0 then ret out else raise (CalledProcessError args))"

text \<open>Opening a file to append, and copying one.\<close>

definition append_text :: "path \<Rightarrow> string \<Rightarrow> (fs, unit) io" where
  "append_text p s =
     bnd (gets (\<lambda>fs. exists fs p)) (\<lambda>present.
     bnd (if present then read_text p else ret []) (\<lambda>old. write_text p (old @ s)))"

definition copyfile :: "path \<Rightarrow> path \<Rightarrow> (fs, unit) io" where
  "copyfile src dst = bnd (read_node src) (write_content dst)"

text \<open>Everything below a directory, without the directory itself, as \<open>rglob\<close> lists it.\<close>

definition below :: "fs \<Rightarrow> path \<Rightarrow> path list" where
  "below fs p = map fst (filter (\<lambda>(q, n). inside p q \<and> q \<noteq> p) fs)"

definition getenv :: "string \<Rightarrow> env \<Rightarrow> string res" where
  "getenv k env = dict_get k env"

text \<open>Regular expressions of the scripts: a set of characters, and a repetition of one.\<close>

definition is_lower :: "char \<Rightarrow> bool" where
  "is_lower c \<longleftrightarrow> 97 \<le> (of_char c :: nat) \<and> (of_char c :: nat) \<le> 122"

definition is_upper :: "char \<Rightarrow> bool" where
  "is_upper c \<longleftrightarrow> 65 \<le> (of_char c :: nat) \<and> (of_char c :: nat) \<le> 90"

definition is_alnum :: "char \<Rightarrow> bool" where
  "is_alnum c \<longleftrightarrow> is_lower c \<or> is_upper c \<or> is_digit c"

text \<open>\<open>[A-Za-z0-9][A-Za-z0-9.+_-]{0,63}\<close>\<close>

definition version_ok :: "string \<Rightarrow> bool" where
  "version_ok s \<longleftrightarrow> s \<noteq> [] \<and> length s \<le> 64 \<and> is_alnum (hd s) \<and>
     list_all (\<lambda>c. is_alnum c \<or> c \<in> set ''.+_-'') (tl s)"

section \<open>Laws\<close>

lemma on_files_Inr_iff:
  "on_files m h = (Inr x, h') \<longleftrightarrow> (\<exists>fs. m (files h) = (Inr x, fs) \<and> h' = h\<lparr>files := fs\<rparr>)"
  by (auto simp: on_files_def split: prod.splits)

lemma on_files_iff:
  "on_files m h = (r, h') \<longleftrightarrow> (\<exists>fs. m (files h) = (r, fs) \<and> h' = h\<lparr>files := fs\<rparr>)"
  by (auto simp: on_files_def split: prod.splits)

lemma run_Inr_iff:
  "run tool cwd env args h = (Inr out, h') \<longleftrightarrow>
     (\<exists>fs. tool cwd env args (files h) = (0, out, fs) \<and> h' = h\<lparr>files := fs, ran := ran h @ [args]\<rparr>)"
  by (auto simp: run_def call_def bnd_def ret_def raise_def split: prod.splits if_splits)

lemma on_files_reads [reads_intros]: "reads m \<Longrightarrow> reads (on_files m)"
  by (auto simp: reads_def on_files_def split: prod.splits) (metis snd_conv host.surjective host.update_convs(1))

lemma on_files_raises [raises_intros]: "raises P m \<Longrightarrow> raises P (on_files m)"
  by (auto simp: raises_def on_files_def split: prod.splits) (metis fst_conv)

lemma exists_reads [reads_intros]: "reads (gets f)"
  by (simp add: reads_def gets_def)

end
