(* ===== verification/Ci.thy ===== *)
theory Ci
  imports Tools
begin

text \<open>
  The routing of continuous integration, \<^verbatim>\<open>.github/scripts/ci.py\<close>: which groups of checks a change
  needs, the outputs that start them, and the gate that decides from their results. The event,
  the environment and \<open>git diff\<close> are arguments; what is printed is left out.
\<close>

section \<open>Definitions\<close>

definition SCOPES :: "string list" where
  "SCOPES = [''core'', ''service'', ''interop'', ''cross'', ''windows'', ''desktop'']"

definition selects :: "string \<Rightarrow> string list" where
  "selects path =
     (if path = ''PROTOCOL.md'' then [''interop'']
      else if endswith path ''.md'' \<or> path = ''LICENSE'' then []
      else if startswith path ''veil-core/'' then SCOPES
      else if startswith path ''veil-service/'' then [''service'', ''cross'', ''windows'', ''desktop'']
      else if startswith path ''veil-desktop/'' then [''desktop'']
      else if startswith path ''interop/rust/'' then [''interop'']
      else SCOPES)"

definition scopes :: "string list \<Rightarrow> (string \<times> bool) list" where
  "scopes paths =
     (let selected = fold (\<lambda>path s. s \<union> set (selects path)) paths {}
      in map (\<lambda>name. (name, name \<in> selected)) SCOPES)"

text \<open>\<open>re.fullmatch(r"[0-9a-f]{40}", base) and int(base, 16)\<close>\<close>

definition full_hash :: "string \<Rightarrow> bool" where
  "full_hash s \<longleftrightarrow> length s = 40 \<and> list_all (\<lambda>c. is_digit c \<or> c \<in> set ''abcdef'') s \<and>
     list_ex (\<lambda>c. c \<noteq> CHR ''0'') s"

definition jstr :: "json \<Rightarrow> string res" where
  "jstr v = (case v of JStr s \<Rightarrow> Inr s | _ \<Rightarrow> Inl type_error)"

definition base_of :: "string \<Rightarrow> json \<Rightarrow> json res" where
  "base_of kind event =
     (if kind = ''pull_request''
      then bind_res (jget ''pull_request'' event) (\<lambda>p. bind_res (jget ''base'' p) (jget ''sha''))
      else case event of
          JObj ms \<Rightarrow> Inr (case map_of ms ''before'' of None \<Rightarrow> JStr [] | Some v \<Rightarrow> v)
        | _ \<Rightarrow> Inl (RuntimeError ''AttributeError''))"

definition output_line :: "string \<times> bool \<Rightarrow> string" where
  "output_line sel = fst sel @ ''='' @ (if snd sel then ''true'' else ''false'') @ [nl]"

definition diff_command :: "string \<Rightarrow> string list" where
  "diff_command base = [''git'', ''diff'', ''--no-renames'', ''--name-only'', ''-z'', base, ''HEAD'', ''--'']"

definition nul_parts :: "string \<Rightarrow> string list" where
  "nul_parts out = filter (\<lambda>p. p \<noteq> []) (split_char CHR 0x00 out)"

definition changes :: "tool \<Rightarrow> path \<Rightarrow> (string \<Rightarrow> path) \<Rightarrow> env \<Rightarrow> (host, unit) io" where
  "changes tool cwd as_path env =
     bnd (lift_res (getenv ''GITHUB_EVENT_PATH'' env)) (\<lambda>event_path.
     bnd (on_files (read_text (as_path event_path))) (\<lambda>text.
     bnd (lift_res (loads text)) (\<lambda>event.
     bnd (lift_res (getenv ''GITHUB_EVENT_NAME'' env)) (\<lambda>kind.
     bnd (lift_res (base_of kind event)) (\<lambda>base.
     bnd (if kind \<in> {''push'', ''pull_request''} then lift_res (jstr base) else ret []) (\<lambda>base.
     bnd (if kind \<in> {''push'', ''pull_request''} \<and> full_hash base
          then bnd (call tool cwd env (diff_command base)) (\<lambda>(rc, out).
               ret (if rc = 0 then scopes (nul_parts out) else map (\<lambda>name. (name, True)) SCOPES))
          else ret (map (\<lambda>name. (name, True)) SCOPES)) (\<lambda>selected.
     bnd (lift_res (getenv ''GITHUB_OUTPUT'' env)) (\<lambda>output.
     on_files (append_text (as_path output) (concat (map output_line selected)))))))))))"

text \<open>A value in a message: a string is printed as it is, anything else by \<open>show\<close>.\<close>

definition text_of :: "(json \<Rightarrow> string) \<Rightarrow> json \<Rightarrow> string" where
  "text_of show v = (case v of JStr s \<Rightarrow> s | v \<Rightarrow> show v)"

definition check_job :: "(json \<Rightarrow> string) \<Rightarrow> json \<Rightarrow> json \<Rightarrow> string \<Rightarrow> unit res" where
  "check_job show needs selected name =
     bind_res (jget name selected) (\<lambda>required.
     bind_res (bind_res (jget name needs) (jget ''result'')) (\<lambda>result.
     bind_res (guard (required = JStr ''true'' \<or> required = JStr ''false'')
       (ValueError (''invalid routing output: '' @ name))) (\<lambda>_.
     guard (result = JStr ''success'' \<or> required = JStr ''false'' \<and> result = JStr ''skipped'')
       (ValueError (name @ '': required='' @ text_of show required @ '', result='' @ text_of show result)))))"

definition check_gate :: "(json \<Rightarrow> string) \<Rightarrow> json \<Rightarrow> unit res" where
  "check_gate show needs =
     bind_res (jget ''changes'' needs) (\<lambda>ch.
     bind_res (jget ''result'' ch) (\<lambda>result.
     bind_res (guard (result = JStr ''success'') (ValueError ''change detection failed or was cancelled'')) (\<lambda>_.
     bind_res (jget ''outputs'' ch) (\<lambda>selected.
     fold_res (\<lambda>name _. check_job show needs selected name) SCOPES ()))))"

definition summary_row :: "(json \<Rightarrow> string) \<Rightarrow> string \<times> json \<Rightarrow> string res" where
  "summary_row show job =
     bind_res (jget ''result'' (snd job)) (\<lambda>result.
     Inr (''| '' @ fst job @ '' | '' @ text_of show result @ '' |'' @ [nl]))"

definition gate :: "(json \<Rightarrow> string) \<Rightarrow> (string \<Rightarrow> path) \<Rightarrow> env \<Rightarrow> (fs, unit) io" where
  "gate show as_path env =
     bnd (lift_res (getenv ''CI_NEEDS'' env)) (\<lambda>text.
     bnd (lift_res (loads text)) (\<lambda>needs.
     bnd (lift_res (getenv ''GITHUB_STEP_SUMMARY'' env)) (\<lambda>summary.
     seq (append_text (as_path summary) (''| Check | Result |'' @ [nl] @ ''| --- | --- |'' @ [nl]))
     (bnd (case needs of JObj ms \<Rightarrow> ret ms | _ \<Rightarrow> raise (RuntimeError ''AttributeError'')) (\<lambda>ms.
     seq (for_io ms (\<lambda>job. bnd (lift_res (summary_row show job)) (append_text (as_path summary))))
     (lift_res (check_gate show needs)))))))"

text \<open>\<open>document.split(sep, 1)[1]\<close> and \<open>[0]\<close>\<close>

definition after :: "string \<Rightarrow> string \<Rightarrow> string res" where
  "after sep s = (case find_sub sep s of None \<Rightarrow> Inl IndexError | Some i \<Rightarrow> Inr (drop (i + length sep) s))"

definition before :: "string \<Rightarrow> string \<Rightarrow> string" where
  "before sep s = (case find_sub sep s of None \<Rightarrow> s | Some i \<Rightarrow> take i s)"

definition vectors_heading :: string where
  "vectors_heading = ''## 11. '' @ [CHR 0xE5, CHR 0x9B, CHR 0xBA, CHR 0xE5, CHR 0xAE, CHR 0x9A,
     CHR 0xE6, CHR 0xB5, CHR 0x8B, CHR 0xE8, CHR 0xAF, CHR 0x95,
     CHR 0xE5, CHR 0x90, CHR 0x91, CHR 0xE9, CHR 0x87, CHR 0x8F] @ [nl]"

definition expected_vectors :: "string \<Rightarrow> json res" where
  "expected_vectors document =
     bind_res (after vectors_heading document) (\<lambda>section.
     bind_res (after ([CHR 0x60, CHR 0x60, CHR 0x60] @ ''json'' @ [nl]) section) (\<lambda>block.
     loads (before ([nl] @ [CHR 0x60, CHR 0x60, CHR 0x60]) block)))"

definition vectors :: "(json \<Rightarrow> json \<Rightarrow> bool) \<Rightarrow> path \<Rightarrow> path \<Rightarrow> (fs, unit) io" where
  "vectors feq cwd path =
     bnd (read_text (cwd @ [''PROTOCOL.md''])) (\<lambda>document.
     bnd (lift_res (expected_vectors document)) (\<lambda>expected.
     bnd (read_text path) (\<lambda>text.
     bnd (lift_res (loads text)) (\<lambda>actual.
     if py_eq feq actual expected then ret ()
     else raise (ValueError ''Rust vectors differ from the standalone protocol specification'')))))"

definition ci_main :: "tool \<Rightarrow> (json \<Rightarrow> json \<Rightarrow> bool) \<Rightarrow> (json \<Rightarrow> string) \<Rightarrow> path \<Rightarrow> (string \<Rightarrow> path) \<Rightarrow> env \<Rightarrow>
    string list \<Rightarrow> (host, unit) io" where
  "ci_main tool feq show cwd as_path env argv =
     (if argv = [''changes''] then changes tool cwd as_path env
      else if argv = [''gate''] then on_files (gate show as_path env)
      else if length argv = 2 \<and> hd argv = ''vectors'' then on_files (vectors feq cwd (as_path (argv ! 1)))
      else raise (SystemExit ''usage: ci.py changes | gate | vectors JSON_FILE''))"

section \<open>Routing\<close>

lemma fold_union: "fold (\<lambda>x s. s \<union> f x) xs s = s \<union> (\<Union>x \<in> set xs. f x)"
  by (induction xs arbitrary: s) auto

lemma scopes_map: "scopes paths = map (\<lambda>n. (n, \<exists>p \<in> set paths. n \<in> set (selects p))) SCOPES"
  by (simp add: scopes_def fold_union)

lemma map_of_SCOPES: "map_of (map (\<lambda>n. (n, f n)) SCOPES) n = (if n \<in> set SCOPES then Some (f n) else None)"
  by (rule map_of_map_restrict [unfolded restrict_map_def, THEN fun_cong, simplified comp_def])

lemma selects_SCOPES: "set (selects p) \<subseteq> set SCOPES"
  by (auto simp: selects_def SCOPES_def)

lemma fold_res_guards:
  "fold_res (\<lambda>x _. f x) xs () = Inr () \<longleftrightarrow> list_all (\<lambda>x. f x = Inr ()) xs"
proof (induction xs)
  case (Cons x xs)
  then show ?case by (cases "f x") auto
qed simp

section \<open>The gate\<close>

text \<open>What the result of one job must be, as a predicate on the whole document.\<close>

definition job_ok :: "json \<Rightarrow> json \<Rightarrow> string \<Rightarrow> bool" where
  "job_ok needs selected name \<longleftrightarrow>
     (\<exists>job r result. jget name selected = Inr r \<and> jget name needs = Inr job \<and> jget ''result'' job = Inr result \<and>
        (r = JStr ''true'' \<and> result = JStr ''success'' \<or>
         r = JStr ''false'' \<and> (result = JStr ''success'' \<or> result = JStr ''skipped'')))"

lemma check_job_iff: "check_job show needs selected name = Inr u \<longleftrightarrow> job_ok needs selected name"
  by (auto simp: check_job_def job_ok_def bind_res_Inr_iff guard_iff)

lemma check_gate_iff:
  "check_gate show needs = Inr () \<longleftrightarrow>
     (\<exists>ch selected. jget ''changes'' needs = Inr ch \<and> jget ''result'' ch = Inr (JStr ''success'') \<and>
        jget ''outputs'' ch = Inr selected \<and> list_all (job_ok needs selected) SCOPES)"
  by (auto simp: check_gate_def bind_res_Inr_iff guard_iff fold_res_guards check_job_iff)

text \<open>The outputs of the change detection as the gate sees them.\<close>

definition outputs_of :: "(string \<times> bool) list \<Rightarrow> json" where
  "outputs_of sel = JObj (map (\<lambda>(n, b). (n, JStr (if b then ''true'' else ''false''))) sel)"

lemma outputs_scopes:
  "n \<in> set SCOPES \<Longrightarrow> jget n (outputs_of (scopes paths)) =
     Inr (JStr (if \<exists>p \<in> set paths. n \<in> set (selects p) then ''true'' else ''false''))"
  by (simp add: outputs_of_def scopes_map comp_def map_of_SCOPES dict_get_def)

section \<open>Theorems\<close>

text \<open>
  Routing is exact and monotone: a group of checks is selected precisely when some changed
  path selects it, so the order of the paths does not matter and more changes never select less.
\<close>

theorem scopes_exact:
  "map_of (scopes paths) n = Some True \<longleftrightarrow> (\<exists>p \<in> set paths. n \<in> set (selects p))"
  using selects_SCOPES by (auto simp: scopes_map map_of_SCOPES)

text \<open>
  C11. The gate passes exactly when change detection succeeded and every group of checks
  succeeded, or was skipped and not required.
\<close>

theorem check_gate_exact:
  "check_gate show needs = Inr () \<longleftrightarrow>
     (\<exists>ch selected. jget ''changes'' needs = Inr ch \<and> jget ''result'' ch = Inr (JStr ''success'') \<and>
        jget ''outputs'' ch = Inr selected \<and> list_all (job_ok needs selected) SCOPES)"
  by (rule check_gate_iff)

text \<open>
  C10. No change passes without the checks it needs: when the gate passes on the outputs that
  routing computed from the changed paths, every group that one of these paths selects ran and
  succeeded.
\<close>

theorem gate_enforces_routing:
  assumes "check_gate show needs = Inr ()"
    and "jget ''changes'' needs = Inr ch" and "jget ''outputs'' ch = Inr (outputs_of (scopes paths))"
    and "p \<in> set paths" and "n \<in> set (selects p)"
  shows "\<exists>job. jget n needs = Inr job \<and> jget ''result'' job = Inr (JStr ''success'')"
proof -
  have n: "n \<in> set SCOPES" using assms(5) selects_SCOPES by blast
  then have "job_ok needs (outputs_of (scopes paths)) n"
    using assms(1-3) by (auto simp: check_gate_iff list_all_iff)
  moreover have "jget n (outputs_of (scopes paths)) = Inr (JStr ''true'')"
    using outputs_scopes [OF n, of paths] assms(4,5) by auto
  ultimately show ?thesis by (auto simp: job_ok_def)
qed

definition sample_needs :: json where
  "sample_needs = JObj ((''changes'', JObj [(''result'', JStr ''success''), (''outputs'', outputs_of (scopes [''veil-desktop/main.go'']))])
     # map (\<lambda>n. (n, JObj [(''result'', JStr (if n = ''desktop'' then ''success'' else ''skipped''))])) SCOPES)"

theorem gate_enforces_routing_witness:
  "\<exists>job. jget ''desktop'' sample_needs = Inr job \<and> jget ''result'' job = Inr (JStr ''success'')"
proof (rule gate_enforces_routing)
  show "check_gate (\<lambda>_. []) sample_needs = Inr ()" by code_simp
  show "jget ''changes'' sample_needs =
      Inr (JObj [(''result'', JStr ''success''), (''outputs'', outputs_of (scopes [''veil-desktop/main.go'']))])"
    by code_simp
  show "jget ''outputs'' (JObj [(''result'', JStr ''success''), (''outputs'', outputs_of (scopes [''veil-desktop/main.go'']))]) =
      Inr (outputs_of (scopes [''veil-desktop/main.go'']))" by (simp add: dict_get_def)
  show "''veil-desktop/main.go'' \<in> set [''veil-desktop/main.go'']" by simp
  show "''desktop'' \<in> set (selects ''veil-desktop/main.go'')" by code_simp
qed

end
