(* ===== verification/Core_Build.thy ===== *)
theory Core_Build
  imports Tools Patches
begin

text \<open>
  The builds of \<^verbatim>\<open>veil-core/scripts\<close>: \<open>generate\<close> of \<^verbatim>\<open>build.py\<close>, which checks the digests of the pinned
  sources, writes the patched copies and returns the flags for \<open>go\<close>, its main program, and the
  scripts that build, test and cross-compile with these flags. A \<open>site\<close> collects what the scripts
  take from outside: SHA-256, the commands, the environment, the place of the repository, the
  directory they run in, and the names of temporary directories. What is printed is left out.
\<close>

section \<open>Sites\<close>

record site =
  sha :: "content \<Rightarrow> string"
  tool :: tool
  environ :: env
  repo :: path
  cwd :: path
  temp_name :: "fs \<Rightarrow> path \<Rightarrow> string"
  python :: string
  windows_host :: bool

definition core_root :: "site \<Rightarrow> path" where
  "core_root S = repo S @ [''veil-core'']"

definition core_env :: "site \<Rightarrow> env" where
  "core_env S = dict_update (environ S)
     [(''GOCACHE'', str (core_root S @ [''.build'', ''cache''])), (''GOMODCACHE'', str (core_root S @ [''.build'', ''mod'']))]"

text \<open>\<open>run\<close> of \<^verbatim>\<open>build.py\<close>: in the root of the core, with its environment, checked.\<close>

definition core_run :: "site \<Rightarrow> string list \<Rightarrow> (host, string) io" where
  "core_run S args = run (tool S) (core_root S) (core_env S) args"

section \<open>Helpers of the standard library\<close>

text \<open>\<open>Path(text)\<close> for an absolute path.\<close>

definition path_of :: "string \<Rightarrow> path" where
  "path_of s = filter (\<lambda>c. c \<noteq> []) (split_char CHR ''/'' s)"

text \<open>
  \<open>shutil.copytree\<close>: the target must not exist. Trees with links are outside this model (the
  sources it copies have none): they make the copy fail.
\<close>

definition copytree :: "path \<Rightarrow> path \<Rightarrow> (fs, unit) io" where
  "copytree src dst =
     bnd (gets (\<lambda>fs. (stat fs src, exists fs dst, below fs src, list_ex (is_symlink fs) (below fs src)))) (\<lambda>(n, there, qs, links).
     if n = None then raise enoent
     else if n \<noteq> Some Dir then raise enotdir
     else if there then raise eexist
     else if links then raise (OSError ''symbolic link in tree'')
     else seq (mkdir_parents dst)
       (modify (\<lambda>fs. fold (\<lambda>q f. case lookup fs q of Some n \<Rightarrow> put (dst @ drop (length src) q) n f | None \<Rightarrow> f) qs fs)))"

text \<open>Making a copy writable: \<open>path.chmod(path.stat().st_mode | 0o200)\<close> for everything but links.\<close>

definition writable :: "path \<Rightarrow> fs \<Rightarrow> fs" where
  "writable p fs = map (\<lambda>(q, n). (q, if inside p q then (case n of File c m \<Rightarrow> File c (or m 128) | _ \<Rightarrow> n) else n)) fs"

definition read_digest :: "site \<Rightarrow> path \<Rightarrow> (host, string) io" where
  "read_digest S p = bnd (on_files (read_node p)) (\<lambda>c. ret (sha S c))"

definition require_digest :: "site \<Rightarrow> path \<Rightarrow> string \<Rightarrow> (host, unit) io" where
  "require_digest S p expected =
     bnd (read_digest S p) (\<lambda>d.
     if d \<noteq> expected then raise (RuntimeError (''unsupported source version: '' @ str p)) else ret ())"

definition write_file :: "path \<Rightarrow> string \<Rightarrow> (host, unit) io" where
  "write_file p s = on_files (write_text p s)"

definition read_file :: "path \<Rightarrow> (host, string) io" where
  "read_file p = on_files (read_text p)"

definition copy_file :: "path \<Rightarrow> path \<Rightarrow> (host, unit) io" where
  "copy_file src dst = on_files (copyfile src dst)"

definition mkdirs :: "path \<Rightarrow> (host, unit) io" where
  "mkdirs p = on_files (mkdir_parents p)"

section \<open>\<open>generate\<close>\<close>

definition reality_digest :: string where
  "reality_digest = ''9258864cc512e05302f5eb7d6a95efd7ae64bafcb45cb3b725086368740ab393''"

definition conn_digest :: string where
  "conn_digest = ''e8027769d42706f263ef78d76ebd6e8a592299407a1f86b88b9ba5217bfe7dba''"

definition uconn_digest :: string where
  "uconn_digest = ''4a34d3717dfc4558980a7f344cb73982656ca3eba2acefb1cb35dd884a073467''"

definition suites_digest :: string where
  "suites_digest = ''615e81c42d76df677c785f2552ebc07e8bf5fe83c07c35cd77c04e86c8aa8d3d''"

definition std_conn_digest :: string where
  "std_conn_digest = ''7e8523d78063ee21bed78a2fc7e8c29baaa3c156a4a25c6e0f9e8da4c7e83e51''"

definition out_dir :: "site \<Rightarrow> string \<Rightarrow> path" where
  "out_dir S mode = core_root S @ [''.build'', mode]"

definition utls_module :: "site \<Rightarrow> path" where
  "utls_module S = core_root S @ [''.build'', ''mod'', ''github.com'', ''metacubex'', ''utls@v1.8.7'']"

definition patch_file :: "site \<Rightarrow> string \<Rightarrow> path" where
  "patch_file S name = core_root S @ [''patches'', name]"

text \<open>
  \<open>reader_patch\<close> and \<open>conn_patch\<close> with the code they append, read from \<^verbatim>\<open>patches/\<close> once the anchors are found.
\<close>

definition reader_patched :: "site \<Rightarrow> string \<Rightarrow> (host, string) io" where
  "reader_patched S s =
     bnd (lift_res (reader_patch [] s)) (\<lambda>t.
     bnd (read_file (patch_file S ''reader.go.in'')) (\<lambda>reader. ret (t @ reader)))"

definition conn_patched :: "site \<Rightarrow> string \<Rightarrow> (host, string) io" where
  "conn_patched S s =
     bnd (lift_res (conn_patch [] s)) (\<lambda>t.
     bnd (read_file (patch_file S ''batch.go.in'')) (\<lambda>batch. ret (t @ batch)))"

definition connection_patched :: "site \<Rightarrow> bool \<Rightarrow> string \<Rightarrow> (host, string) io" where
  "connection_patched S native s =
     bnd (lift_res (replace s payload_anchor payload_hint)) (\<lambda>s.
     bnd (lift_res (padding_patch s)) (\<lambda>s.
     bnd (reader_patched S s) (\<lambda>s.
     if native then ret s else conn_patched S s)))"

text \<open>The first part: the local copy of the TLS module with REALITY and its proof patched.\<close>

definition generate_fork :: "site \<Rightarrow> string \<Rightarrow> (host, unit) io" where
  "generate_fork S mode =
     (let out = out_dir S mode; module = utls_module S; fork = out @ [''utls'']; reality = module @ [''reality.go''] in
      seq (mkdirs out)
      (bnd (gets (\<lambda>h. exists (files h) module)) (\<lambda>present.
      seq (if present then ret [] else core_run S [''go'', ''mod'', ''download''])
      (seq (require_digest S reality reality_digest)
      (bnd (read_file reality) (\<lambda>text.
      bnd (lift_res (reality_patch text)) (\<lambda>patched.
      seq (write_file (out @ [''reality.go'']) patched)
      (seq (core_run S [''gofmt'', ''-w'', str (out @ [''reality.go''])])
      (bnd (gets (\<lambda>h. exists (files h) fork)) (\<lambda>forked.
      seq (if forked then ret () else on_files (copytree module fork))
      (seq (on_files (modify (writable fork)))
      (seq (copy_file (out @ [''reality.go'']) (fork @ [''reality.go'']))
           (copy_file (patch_file S ''reality_proof.go.in'') (fork @ [''veil_reality_proof.go'']))))))))))))))"

definition generate_conn :: "site \<Rightarrow> string \<Rightarrow> (host, unit) io" where
  "generate_conn S mode =
     (let fork = out_dir S mode @ [''utls'']; conn = utls_module S @ [''conn.go'']; uconn = utls_module S @ [''u_conn.go''] in
      seq (require_digest S conn conn_digest)
      (bnd (read_file conn) (\<lambda>text.
      bnd (connection_patched S (mode = ''native'') text) (\<lambda>patched.
      seq (write_file (fork @ [''conn.go'']) patched)
      (seq (require_digest S uconn uconn_digest)
      (bnd (read_file uconn) (\<lambda>utext.
      bnd (lift_res (read_patch utext)) (\<lambda>upatched.
      seq (write_file (fork @ [''u_conn.go'']) upatched)
      (seq (copy_file (patch_file S ''padding.go.in'') (fork @ [''veil_padding.go'']))
      (seq (copy_file (patch_file S ''padding_test.go.in'') (fork @ [''veil_padding_test.go'']))
      (seq (core_run S [''gofmt'', ''-w'', str (fork @ [''conn.go'']), str (fork @ [''u_conn.go'']),
             str (fork @ [''veil_padding.go'']), str (fork @ [''veil_padding_test.go''])])
      (ret ()))))))))))))"

definition replace_line :: "path \<Rightarrow> string" where
  "replace_line fork = [nl] @ ''replace github.com/metacubex/utls => '' @ dumps None (JStr (str fork)) @ [nl]"

definition generate_mod :: "site \<Rightarrow> string \<Rightarrow> (host, unit) io" where
  "generate_mod S mode =
     (let out = out_dir S mode in
      bnd (read_file (core_root S @ [''go.mod''])) (\<lambda>text.
      seq (write_file (out @ [''build.mod'']) (text @ replace_line (out @ [''utls''])))
          (copy_file (core_root S @ [''go.sum'']) (out @ [''build.sum'']))))"

definition flags_json :: "string list \<Rightarrow> string" where
  "flags_json flags = dumps None (JArr (map JStr flags))"

definition new_gcm :: string where
  "new_gcm =
     ''func aeadAESGCMTLS13(key,nonceMask []byte) aead {'' @ [nl] @
     '' if len(nonceMask)!=aeadNonceLength {panic('' @ [CHR 0x22] @ ''tls: nonce mask length'' @ [CHR 0x22] @ '')}'' @ [nl] @
     '' ret:=&xorNonceAEAD{aead:veilNewGCM(key)};copy(ret.nonceMask[:],nonceMask);return ret'' @ [nl] @
     ''}'' @ [nl]"

definition openssl_suites :: "string \<Rightarrow> string res" where
  "openssl_suites suites = cut suites ''func aeadAESGCMTLS13('' ([nl] @ ''func aeadChaCha20Poly1305'') new_gcm"

text \<open>The optimised modes: the standard library's connection, the cipher suites and the tests.\<close>

definition generate_std :: "site \<Rightarrow> string \<Rightarrow> path \<Rightarrow> (host, unit) io" where
  "generate_std S mode goroot =
     (let out = out_dir S mode; std_conn = goroot @ [''src'', ''crypto'', ''tls'', ''conn.go''] in
      seq (require_digest S (utls_module S @ [''conn.go'']) conn_digest)
      (seq (require_digest S (utls_module S @ [''cipher_suites.go'']) suites_digest)
      (seq (require_digest S std_conn std_conn_digest)
      (bnd (read_file std_conn) (\<lambda>text.
      bnd (reader_patched S text) (\<lambda>text.
      bnd (conn_patched S text) (\<lambda>text.
      write_file (out @ [''std-conn.go'']) text)))))))"

definition generate_suites :: "site \<Rightarrow> string \<Rightarrow> (host, unit) io" where
  "generate_suites S mode =
     (let fork = out_dir S mode @ [''utls''] in
      bnd (read_file (utls_module S @ [''cipher_suites.go''])) (\<lambda>suites.
      bnd (if mode = ''openssl''
           then bnd (lift_res (openssl_suites suites)) (\<lambda>suites.
                bnd (read_file (patch_file S ''openssl.go.in'')) (\<lambda>code.
                seq (write_file (fork @ [''veil_openssl.go'']) code) (ret suites)))
           else ret suites) (\<lambda>suites.
      write_file (fork @ [''cipher_suites.go'']) suites)))"

definition copy_text :: "path \<Rightarrow> path \<Rightarrow> (host, unit) io" where
  "copy_text src dst = bnd (read_file src) (write_file dst)"

definition generate_tests :: "site \<Rightarrow> string \<Rightarrow> (host, unit) io" where
  "generate_tests S mode =
     (let fork = out_dir S mode @ [''utls'']; tests = patch_file S ''record_test.go.in''; crypto = patch_file S ''openssl_test.go.in'' in
      bnd (gets (\<lambda>h. exists (files h) tests)) (\<lambda>present.
      seq (when_io present (copy_text tests (fork @ [''veil_record_test.go''])))
      (seq (copy_file (patch_file S ''uconn_test.go.in'') (fork @ [''veil_uconn_test.go'']))
      (bnd (gets (\<lambda>h. mode = ''openssl'' \<and> exists (files h) crypto)) (\<lambda>both.
      when_io both (copy_text crypto (fork @ [''veil_openssl_test.go''])))))))"

definition veil_sources :: "fs \<Rightarrow> path \<Rightarrow> string list" where
  "veil_sources fs fork = map (\<lambda>n. str (fork @ [n])) (filter (\<lambda>n. startswith n ''veil'' \<and> endswith n ''.go'') (children fs fork))"

definition overlay :: "path \<Rightarrow> path \<Rightarrow> bool \<Rightarrow> path \<Rightarrow> json" where
  "overlay goroot std present tests =
     JObj [(''Replace'', JObj ([(str (goroot @ [''src'', ''crypto'', ''tls'', ''conn.go'']), JStr (str std))] @
       (if present then [(str (goroot @ [''src'', ''crypto'', ''tls'', ''veil_record_test.go'']), JStr (str tests))] else [])))]"

definition native_flags :: "path \<Rightarrow> string list" where
  "native_flags out = [''-tags=with_utls'', ''-modfile='' @ str (out @ [''build.mod''])]"

definition overlay_flags :: "string \<Rightarrow> path \<Rightarrow> string list" where
  "overlay_flags mode out =
     [''-tags=with_utls'' @ (if mode = ''openssl'' then '',veil_openssl'' else []),
      ''-overlay='' @ str (out @ [''overlay.json'']), ''-modfile='' @ str (out @ [''build.mod''])]"

definition generate_overlay :: "site \<Rightarrow> string \<Rightarrow> (host, unit) io" where
  "generate_overlay S mode =
     (let out = out_dir S mode; fork = out @ [''utls'']; tests = patch_file S ''record_test.go.in'' in
      bnd (run (tool S) (cwd S) (environ S) [''go'', ''env'', ''GOROOT'']) (\<lambda>text.
      let goroot = path_of (strip text) in
      seq (generate_std S mode goroot)
      (seq (generate_suites S mode)
      (seq (generate_tests S mode)
      (bnd (gets (\<lambda>h. veil_sources (files h) fork)) (\<lambda>veil.
      seq (core_run S ([''gofmt'', ''-w'', str (out @ [''std-conn.go'']), str (fork @ [''conn.go'']), str (fork @ [''cipher_suites.go''])] @ veil))
      (bnd (gets (\<lambda>h. exists (files h) tests)) (\<lambda>present.
      write_file (out @ [''overlay.json'']) (dumps (Some 2) (overlay goroot (out @ [''std-conn.go'']) present tests) @ [nl])))))))))"

definition generate :: "site \<Rightarrow> string \<Rightarrow> (host, string list) io" where
  "generate S mode =
     (let out = out_dir S mode; flags = (if mode = ''native'' then native_flags out else overlay_flags mode out) in
      seq (generate_fork S mode)
      (seq (generate_conn S mode)
      (seq (generate_mod S mode)
      (seq (if mode = ''native'' then ret () else generate_overlay S mode)
      (seq (write_file (out @ [''flags.json'']) (flags_json flags))
           (ret flags))))))"

section \<open>The main program\<close>

text \<open>
  The options of \<^verbatim>\<open>build.py\<close>; \<open>argparse\<close> refuses a mode that is not one of the three. An empty output is
  no output, as \<open>or\<close> has it.
\<close>

record build_options =
  build_mode :: string
  generate_only :: bool
  go_package :: string
  output_file :: string

definition modes :: "string list" where
  "modes = [''native'', ''batch'', ''openssl'']"

definition choice :: "string \<Rightarrow> string list \<Rightarrow> ('w, unit) io" where
  "choice v choices = (if v \<in> set choices then ret () else raise (UsageError (''invalid choice: '' @ v)))"

definition build_command :: "site \<Rightarrow> build_options \<Rightarrow> string list \<Rightarrow> string list" where
  "build_command S a flags =
     [''go'', ''build''] @ flags @
     [''-trimpath'', ''-o'',
      if output_file a = [] then str (core_root S @ [''.build'', ''veil-'' @ build_mode a]) else output_file a,
      go_package a]"

definition build_main :: "site \<Rightarrow> build_options \<Rightarrow> (host, unit) io" where
  "build_main S a =
     seq (choice (build_mode a) modes)
     (bnd (generate S (build_mode a)) (\<lambda>flags.
     when_io (\<not> generate_only a) (seq (core_run S (build_command S a flags)) (ret ()))))"

section \<open>Reading back what was written\<close>

lemma write_file_read:
  "write_file p s h = (Inr u, h') \<Longrightarrow> read_file p h' = (Inr s, h')"
  using write_then_read
  by (fastforce simp: write_file_def read_file_def on_files_def write_text_def read_text_def bnd_def ret_def split: prod.splits)

lemma reader_patch_appends: "reader_patch reader s = bind_res (reader_patch [] s) (\<lambda>t. Inr (t @ reader))"
  by (simp add: reader_patch_def bind_res_assoc)

lemma conn_patch_appends: "conn_patch batch s = bind_res (conn_patch [] s) (\<lambda>t. Inr (t @ batch))"
  by (simp add: conn_patch_def bind_res_assoc Let_def)

lemma read_file_reads [reads_intros]: "reads (read_file p)"
  unfolding read_file_def by (intro reads_intros)

lemma connection_patched_runs:
  assumes "fst (read_file (patch_file S ''reader.go.in'') h) = Inr reader"
    and "fst (read_file (patch_file S ''batch.go.in'') h) = Inr batch"
  shows "connection_patched S native s h = (connection_patch native reader batch s, h)"
proof -
  have "read_file (patch_file S ''reader.go.in'') h = (Inr reader, h)"
    "read_file (patch_file S ''batch.go.in'') h = (Inr batch, h)"
    using assms read_file_reads by (simp_all add: reads_def prod_eq_iff)
  then show ?thesis
    by (auto simp: connection_patched_def reader_patched_def conn_patched_def connection_patch_def
        reader_patch_appends [of reader] conn_patch_appends [of batch] bnd_def lift_res_def ret_def split: sum.splits)
qed

lemma generate_Inr:
  assumes "generate S mode h = (Inr flags, h')"
  shows "flags = (if mode = ''native'' then native_flags (out_dir S mode) else overlay_flags mode (out_dir S mode))"
    and "read_file (out_dir S mode @ [''flags.json'']) h' = (Inr (flags_json flags), h')"
  using assms by (auto simp: generate_def seq_Inr_iff ret_iff Let_def dest!: write_file_read)

section \<open>Theorems\<close>

definition sample_site :: site where
  "sample_site = \<lparr>sha = (\<lambda>c. []), tool = (\<lambda>d e a fs. (1, [], fs)), environ = [], repo = [], cwd = [],
     temp_name = (\<lambda>fs p. ''tmp''), python = ''python3'', windows_host = False\<rparr>"

definition sample_host :: host where
  "sample_host = \<lparr>files =
     [([''veil-core''], Dir), ([''veil-core'', ''.build''], Dir), ([''veil-core'', ''.build'', ''mod''], Dir),
      ([''veil-core'', ''.build'', ''mod'', ''github.com''], Dir),
      ([''veil-core'', ''.build'', ''mod'', ''github.com'', ''metacubex''], Dir),
      ([''veil-core'', ''.build'', ''mod'', ''github.com'', ''metacubex'', ''utls@v1.8.7''], Dir),
      ([''veil-core'', ''.build'', ''mod'', ''github.com'', ''metacubex'', ''utls@v1.8.7'', ''reality.go''],
         File (Bytes ''package tls'') mode_644)],
     ran = []\<rparr>"



text \<open>
  When \<open>generate\<close> returns, its flags are the tags of the mode, the overlay unless the mode is
  native, and one module file, all in the output directory of the mode; and the file \<^verbatim>\<open>flags.json\<close>
  holds them: reading it back and parsing it gives the same list.
\<close>

theorem generate_records_flags:
  "case generate S mode h of
     (Inl e, h') \<Rightarrow> True
   | (Inr flags, h') \<Rightarrow>
       flags = (if mode = ''native'' then native_flags (out_dir S mode) else overlay_flags mode (out_dir S mode)) \<and>
       (\<exists>text. read_file (out_dir S mode @ [''flags.json'']) h' = (Inr text, h') \<and>
          (if list_all utf8_ok flags then loads text = Inr (JArr (map JStr flags)) else True))"
proof (cases "generate S mode h")
  case (Pair r h')
  show ?thesis
  proof (cases r)
    case (Inr flags)
    moreover have "list_all utf8_ok flags \<Longrightarrow> loads (flags_json flags) = Inr (JArr (map JStr flags))"
      by (simp add: flags_json_def loads_dumps list_all_iff)
    ultimately show ?thesis using Pair generate_Inr [of S mode h flags h'] by simp
  qed (simp add: Pair)
qed

end
