(* ===== verification/Builds.thy ===== *)
theory Builds
  imports Core_Build
begin

text \<open>
  The scripts that build, test and cross-compile with the flags of \<open>generate\<close>: \<^verbatim>\<open>check.py\<close>,
  \<^verbatim>\<open>cross_check.py\<close> and \<^verbatim>\<open>bench_build.py\<close> of the core, \<^verbatim>\<open>build.py\<close> and \<^verbatim>\<open>cross_check.py\<close> of the service, and
  \<^verbatim>\<open>build.py\<close> of the desktop. A script that ends in \<open>raise SystemExit(any(...))\<close> returns this truth
  value, its exit status. A command's output is what the script collects of it.
\<close>

section \<open>Shared pieces\<close>

definition modfile_flag :: "string \<Rightarrow> bool" where
  "modfile_flag f \<longleftrightarrow> startswith f ''-modfile=''"

definition tags_flag :: "string \<Rightarrow> bool" where
  "tags_flag f \<longleftrightarrow> startswith f ''-tags=''"

text \<open>\<open>Path.mkdir(exist_ok=True)\<close>, which makes no parents.\<close>

definition mkdir_exist_ok :: "path \<Rightarrow> (fs, unit) io" where
  "mkdir_exist_ok p fs = (case stat fs (butlast p) of
      Some Dir \<Rightarrow> mkdir_one p fs
    | Some n \<Rightarrow> (Inl enotdir, fs)
    | None \<Rightarrow> (Inl enoent, fs))"

definition race_flag :: "bool \<Rightarrow> string list" where
  "race_flag race = (if race then [''-race''] else [])"

definition jstrs :: "string list \<Rightarrow> json" where
  "jstrs xs = JArr (map JStr xs)"

definition report :: "json list \<Rightarrow> string" where
  "report rows = dumps (Some 2) (JArr rows) @ [nl]"

section \<open>Core: \<^verbatim>\<open>check.py\<close>\<close>

definition utls_package :: string where
  "utls_package = ''github.com/metacubex/utls''"

definition test_commands :: "string \<Rightarrow> bool \<Rightarrow> bool \<Rightarrow> string list \<Rightarrow> string list list" where
  "test_commands mode race stdlib flags =
     [[''go'', ''test''] @ flags @ race_flag race @ [''-count=1'', ''-timeout=120s'', ''./...''],
      [''go'', ''test''] @ flags @ race_flag race @
      [''-count=1'', ''-timeout=120s'', utls_package, ''-run'',
       if mode = ''native'' then ''TestVeilPadding''
       else ''TestVeil|TestDynamicRecordSizing|Test.*Close|Test(Client)?KeyUpdate|TestFailedWrite'']] @
     (if stdlib then [[''go'', ''test''] @ flags @ [''-short'', ''-timeout=180s'', ''crypto/tls'']] else [])"

definition test_env :: "site \<Rightarrow> string list \<Rightarrow> env" where
  "test_env S cmd = (if utls_package \<in> set cmd then dict_set ''GODEBUG'' ''cryptocustomrand=1'' (core_env S) else core_env S)"

definition env_get :: "string \<Rightarrow> env \<Rightarrow> string" where
  "env_get k e = (case map_of e k of None \<Rightarrow> [] | Some v \<Rightarrow> v)"

definition test_row :: "site \<Rightarrow> string \<Rightarrow> string list \<Rightarrow> int \<Rightarrow> string \<Rightarrow> json" where
  "test_row S seconds cmd rc out =
     JObj [(''command'', jstrs cmd), (''GODEBUG'', JStr (env_get ''GODEBUG'' (test_env S cmd))),
       (''seconds'', JFloat seconds), (''returncode'', JInt rc), (''output'', JStr out)]"

text \<open>The loop over the commands stops after the first that fails. \<open>seconds\<close> stands for the rounded clock differences.\<close>

fun test_loop :: "site \<Rightarrow> (string list \<Rightarrow> string) \<Rightarrow> string list list \<Rightarrow> (host, (int \<times> json) list) io" where
  "test_loop S seconds [] = ret []"
| "test_loop S seconds (cmd # cmds) =
     bnd (call (tool S) (core_root S) (test_env S cmd) cmd) (\<lambda>(rc, out).
     bnd (if rc \<noteq> 0 then ret [] else test_loop S seconds cmds) (\<lambda>rows.
     ret ((rc, test_row S (seconds cmd) cmd rc out) # rows)))"

definition failed :: "(int \<times> json) list \<Rightarrow> bool" where
  "failed rows \<longleftrightarrow> list_ex (\<lambda>(rc, row). rc \<noteq> 0) rows"

definition check_file :: "site \<Rightarrow> string \<Rightarrow> bool \<Rightarrow> bool \<Rightarrow> path" where
  "check_file S mode race stdlib =
     core_root S @ [''.build'', ''validation'',
       mode @ (if race then ''-race'' else []) @ (if stdlib then ''-stdlib'' else []) @ ''.json'']"

definition check_main :: "site \<Rightarrow> (string list \<Rightarrow> string) \<Rightarrow> string \<Rightarrow> bool \<Rightarrow> bool \<Rightarrow> (host, bool) io" where
  "check_main S seconds mode race stdlib =
     seq (choice mode modes)
     (bnd (generate S mode) (\<lambda>flags.
     bnd (test_loop S seconds (test_commands mode race stdlib flags)) (\<lambda>rows.
     seq (on_files (mkdir_exist_ok (core_root S @ [''.build'', ''validation''])))
     (seq (write_file (check_file S mode race stdlib) (report (map snd rows)))
     (ret (failed rows))))))"

section \<open>Core: \<^verbatim>\<open>cross_check.py\<close>\<close>

definition cross_targets :: "(string \<times> string) list" where
  "cross_targets =
     [(''linux'', ''amd64''), (''linux'', ''arm64''), (''linux'', ''arm''), (''linux'', ''mips''), (''linux'', ''mipsle''),
      (''freebsd'', ''amd64''), (''windows'', ''amd64''), (''windows'', ''arm64''), (''android'', ''arm64'')]"

definition target_name :: "string \<times> string \<Rightarrow> string" where
  "target_name t = fst t @ ''/'' @ snd t"

definition cross_env :: "site \<Rightarrow> string \<times> string \<Rightarrow> env" where
  "cross_env S t =
     (let e = dict_update (core_env S) [(''GOOS'', fst t), (''GOARCH'', snd t), (''CGO_ENABLED'', ''0'')];
          e = (if snd t = ''arm'' then dict_set ''GOARM'' ''7'' e else e)
      in if snd t = ''mips'' \<or> snd t = ''mipsle'' then dict_set ''GOMIPS'' ''softfloat'' e else e)"

definition cross_command :: "path \<Rightarrow> string list \<Rightarrow> string \<times> string \<Rightarrow> string list" where
  "cross_command folder flags t =
     [''go'', ''build''] @ flags @ [''-buildvcs=false'', ''-trimpath''] @
     (if fst t = ''android'' then [''./core'', ''./inbound'']
      else [''-o'', str (folder @ [''veil-'' @ fst t @ ''-'' @ snd t @ (if fst t = ''windows'' then ''.exe'' else [])]),
            ''./cmd/veil''])"

definition cross_row :: "string \<times> string \<Rightarrow> string list \<Rightarrow> int \<Rightarrow> string \<Rightarrow> json" where
  "cross_row t cmd rc out =
     JObj [(''os'', JStr (fst t)), (''arch'', JStr (snd t)),
       (''scope'', JStr (if fst t = ''android'' then ''packages'' else ''cli'')),
       (''command'', jstrs cmd), (''returncode'', JInt rc), (''output'', JStr out)]"

definition result_file :: "string \<Rightarrow> string" where
  "result_file selected = (if selected = [] then ''results'' else replace_all ''/'' ''-'' selected) @ ''.json''"

text \<open>One target: build, add the row, write all rows so far.\<close>

fun cross_loop ::
  "site \<Rightarrow> path \<Rightarrow> string \<Rightarrow> string list \<Rightarrow> (string \<times> string) list \<Rightarrow> (int \<times> json) list \<Rightarrow> (host, (int \<times> json) list) io" where
  "cross_loop S folder selected flags [] rows = ret rows"
| "cross_loop S folder selected flags (t # ts) rows =
     (let cmd = cross_command folder flags t in
      bnd (call (tool S) (core_root S) (cross_env S t) cmd) (\<lambda>(rc, out).
      let rows' = rows @ [(rc, cross_row t cmd rc out)] in
      seq (write_file (folder @ [result_file selected]) (report (map snd rows')))
          (cross_loop S folder selected flags ts rows')))"

definition selected_targets :: "string \<Rightarrow> (string \<times> string) list" where
  "selected_targets selected =
     (if selected = [] then cross_targets else filter (\<lambda>t. target_name t = selected) cross_targets)"

text \<open>The empty selection stands for the absent option.\<close>

definition cross_main :: "site \<Rightarrow> string \<Rightarrow> (host, bool) io" where
  "cross_main S selected =
     (let folder = core_root S @ [''.build'', ''cross''] in
      seq (if selected = [] then ret () else choice selected (map target_name cross_targets))
      (bnd (generate S ''native'') (\<lambda>flags.
      seq (on_files (mkdir_exist_ok folder))
      (bnd (cross_loop S folder selected flags (selected_targets selected) []) (\<lambda>rows.
      ret (failed rows))))))"

section \<open>Core: \<^verbatim>\<open>bench_build.py\<close>\<close>

definition singbox :: string where
  "singbox = ''github.com/sagernet/sing-box@v1.15.0-alpha.9''"

definition bench_source :: "site \<Rightarrow> path" where
  "bench_source S = core_root S @ [''.build'', ''mod'', ''github.com'', ''sagernet'', ''sing-box@v1.15.0-alpha.9'']"

definition bench_mod :: "site \<Rightarrow> string \<Rightarrow> string \<Rightarrow> string" where
  "bench_mod S mode content =
     content @ (if mode \<noteq> ''native''
       then [nl] @ ''replace github.com/metacubex/utls => '' @ str (core_root S @ [''.build'', mode, ''utls'']) @ [nl] else [])"

definition bench_command :: "site \<Rightarrow> string \<Rightarrow> string list \<Rightarrow> string list" where
  "bench_command S mode flags =
     [''go'', ''build''] @ filter (\<lambda>f. \<not> modfile_flag f) flags @
     [''-mod=mod'', ''-modfile='' @ str (core_root S @ [''.build'', ''singbox-'' @ mode @ ''.mod'']), ''-trimpath'', ''-o'',
      str (core_root S @ [''.build'', ''singbox-'' @ mode]), ''./cmd/sing-box'']"

definition bench_build :: "site \<Rightarrow> string \<Rightarrow> (host, unit) io" where
  "bench_build S mode =
     (let source = bench_source S; work = core_root S @ [''.build'', ''sing-box-src''] in
      seq (choice mode modes)
      (bnd (generate S mode) (\<lambda>flags.
      bnd (gets (\<lambda>h. exists (files h) source)) (\<lambda>present.
      seq (if present then ret [] else core_run S [''go'', ''mod'', ''download'', singbox])
      (bnd (gets (\<lambda>h. exists (files h) work)) (\<lambda>copied.
      seq (if copied then ret () else on_files (copytree source work))
      (bnd (read_file (source @ [''go.mod''])) (\<lambda>content.
      seq (write_file (core_root S @ [''.build'', ''singbox-'' @ mode @ ''.mod'']) (bench_mod S mode content))
      (seq (copy_file (source @ [''go.sum'']) (core_root S @ [''.build'', ''singbox-'' @ mode @ ''.sum'']))
      (seq (run (tool S) work (core_env S) (bench_command S mode flags))
      (ret ())))))))))))"

section \<open>Service: \<^verbatim>\<open>build.py\<close>\<close>

definition service_root :: "site \<Rightarrow> path" where
  "service_root S = repo S @ [''veil-service'']"

definition service_mod :: "site \<Rightarrow> string \<Rightarrow> string \<Rightarrow> string" where
  "service_mod S mode text =
     replace_all ''replace veil => ../veil-core'' (''replace veil => '' @ dumps None (JStr (str (core_root S)))) text @
     replace_line (core_root S @ [''.build'', mode, ''utls''])"

definition service_flags :: "path \<Rightarrow> string list \<Rightarrow> string list" where
  "service_flags out flags = filter (\<lambda>f. \<not> modfile_flag f) flags @ [''-modfile='' @ str (out @ [''build.mod''])]"

definition prepare :: "site \<Rightarrow> string \<Rightarrow> (host, string list) io" where
  "prepare S mode =
     (let out = service_root S @ [''.build'', mode] in
      bnd (generate S mode) (\<lambda>flags.
      seq (mkdirs out)
      (bnd (read_file (service_root S @ [''go.mod''])) (\<lambda>text.
      seq (write_file (out @ [''build.mod'']) (service_mod S mode text))
      (seq (copy_file (service_root S @ [''go.sum'']) (out @ [''build.sum'']))
      (seq (write_file (out @ [''flags.json'']) (flags_json (service_flags out flags) @ [nl]))
           (ret (service_flags out flags))))))))"

text \<open>The options: no program given means the default ones, the output directory is an absolute path.\<close>

record service_options =
  service_mode :: string
  check_only :: bool
  with_race :: bool
  only_generate :: bool
  output_dir :: path
  service_version :: string
  programs :: "string list"

definition exe_suffix :: "site \<Rightarrow> string" where
  "exe_suffix S = (let goos = env_get ''GOOS'' (environ S) in
     if goos = ''windows'' \<or> goos = [] \<and> windows_host S then ''.exe'' else [])"

text \<open>\<open>Path.resolve()\<close>; a chain of links that does not end is an error.\<close>

definition resolved :: "path \<Rightarrow> (fs, path) io" where
  "resolved p fs = (case realpath fs p of None \<Rightarrow> (Inl (OSError ''Too many levels of symbolic links''), fs) | Some q \<Rightarrow> (Inr q, fs))"

definition go_test :: "string list \<Rightarrow> bool \<Rightarrow> string list" where
  "go_test flags race = [''test''] @ flags @ race_flag race @ [''-count=1'', ''-timeout=120s'', ''./...'']"

definition program_command :: "string list \<Rightarrow> string \<Rightarrow> path \<Rightarrow> string \<Rightarrow> string \<Rightarrow> string list" where
  "program_command flags version folder ext name =
     [''go'', ''build''] @ flags @
     [''-trimpath'', ''-ldflags=-X veil-service/internal/buildinfo.Version='' @ version, ''-o'',
      str (folder @ [name @ ext]), ''./cmd/'' @ name]"

definition service_build :: "site \<Rightarrow> service_options \<Rightarrow> (host, unit) io" where
  "service_build S a =
     (let go = (\<lambda>args. seq (run (tool S) (service_root S) (core_env S) args) (ret ())) in
      seq (choice (service_mode a) modes)
      (seq (for_io (programs a) (\<lambda>name. choice name [''veild'', ''veilctl'', ''veil-rpc'']))
      (if \<not> version_ok (service_version a)
       then raise (UsageError (''version must be 1'' @ [CHR 0xE2, CHR 0x80, CHR 0x93] @ ''64 ASCII letters, digits, dots, +, _ or -''))
       else bnd (prepare S (service_mode a)) (\<lambda>flags.
       if only_generate a then ret ()
       else if check_only a
       then seq (go (''go'' # go_test flags (with_race a))) (go ([''go'', ''vet''] @ flags @ [''./...'']))
       else seq (mkdirs (output_dir a))
         (for_io (if programs a = [] then [''veild'', ''veilctl''] else programs a) (\<lambda>name.
            bnd (on_files (resolved (output_dir a))) (\<lambda>folder.
            go (program_command flags (service_version a) folder (exe_suffix S) name))))))))"

section \<open>Service: \<^verbatim>\<open>cross_check.py\<close>\<close>

record service_target =
  goos :: string
  goarch :: string
  extra :: env
  packages :: "string list"

definition daemon_packages :: "string list" where
  "daemon_packages = [''./cmd/veild'', ''./cmd/veilctl'', ''./cmd/veil-rpc'']"

definition service_targets :: "service_target list" where
  "service_targets =
     (let t = (\<lambda>os arch e ps. \<lparr>goos = os, goarch = arch, extra = e, packages = ps\<rparr>);
          local = [''./cmd/veild'', ''./cmd/veilctl''] in
      [t ''linux'' ''amd64'' [] daemon_packages, t ''linux'' ''arm64'' [] daemon_packages,
       t ''linux'' ''arm'' [(''GOARM'', ''7'')] daemon_packages,
       t ''linux'' ''mips'' [(''GOMIPS'', ''softfloat'')] daemon_packages,
       t ''linux'' ''mipsle'' [(''GOMIPS'', ''softfloat'')] daemon_packages,
       t ''freebsd'' ''amd64'' [] local, t ''windows'' ''amd64'' [] local, t ''windows'' ''arm64'' [] local,
       t ''android'' ''arm64'' [] [''veil/service'', ''./control'']])"

definition service_target_name :: "service_target \<Rightarrow> string" where
  "service_target_name t = goos t @ ''/'' @ goarch t"

definition service_cross_env :: "site \<Rightarrow> service_target \<Rightarrow> env" where
  "service_cross_env S t =
     dict_update (dict_update (core_env S) [(''GOOS'', goos t), (''GOARCH'', goarch t), (''CGO_ENABLED'', ''0'')]) (extra t)"

definition service_row :: "service_target \<Rightarrow> int \<Rightarrow> string \<Rightarrow> json" where
  "service_row t rc out =
     JObj [(''goos'', JStr (goos t)), (''goarch'', JStr (goarch t)),
       (''options'', JObj (map (\<lambda>(k, v). (k, JStr v)) (extra t))), (''packages'', jstrs (packages t)),
       (''returncode'', JInt rc), (''output'', JStr out)]"

definition service_step :: "site \<Rightarrow> string list \<Rightarrow> service_target \<Rightarrow> (host, int \<times> json) io" where
  "service_step S flags t =
     bnd (call (tool S) (service_root S) (service_cross_env S t) ([''go'', ''build''] @ flags @ packages t)) (\<lambda>(rc, out).
     ret (rc, service_row t rc out))"

definition service_selected :: "string \<Rightarrow> service_target list" where
  "service_selected selected =
     filter (\<lambda>t. selected = [] \<or> service_target_name t = selected) service_targets"

definition service_cross :: "site \<Rightarrow> string \<Rightarrow> (host, bool) io" where
  "service_cross S selected =
     (let out = service_root S @ [''.build'', ''cross''] in
      seq (if selected = [] then ret () else choice selected (map service_target_name service_targets))
      (bnd (prepare S ''batch'') (\<lambda>flags.
      seq (on_files (mkdir_exist_ok out))
      (bnd (map_io (service_step S flags) (service_selected selected)) (\<lambda>rows.
      seq (write_file (out @ [result_file selected]) (report (map snd rows)))
          (ret (failed rows)))))))"

section \<open>Desktop: \<^verbatim>\<open>build.py\<close>\<close>

record desktop_options =
  desktop_version :: string
  desktop_check :: bool
  desktop_race :: bool
  debug :: bool
  desktop_output :: "path option"

definition desktop_root :: "site \<Rightarrow> path" where
  "desktop_root S = repo S @ [''veil-desktop'']"

definition desktop_mod :: "site \<Rightarrow> string \<Rightarrow> string" where
  "desktop_mod S text =
     fold (\<lambda>name. replace_all (''../'' @ name) (dumps None (JStr (str (repo S @ [name])))))
       [''veil-core'', ''veil-service''] text @
     replace_line (core_root S @ [''.build'', ''batch'', ''utls''])"

definition desktop_flags :: "path \<Rightarrow> bool \<Rightarrow> string list \<Rightarrow> string list" where
  "desktop_flags out dbg flags =
     filter (\<lambda>f. \<not> (modfile_flag f \<or> tags_flag f)) flags @
     [''-tags=with_utls,webkit2_41,production'' @ (if dbg then '',debug'' else []),
      ''-modfile='' @ str (out @ [''build.mod''])]"

definition desktop_build :: "site \<Rightarrow> desktop_options \<Rightarrow> (host, unit) io" where
  "desktop_build S a =
     (let out = desktop_root S @ [''.build''];
          go = (\<lambda>args. seq (run (tool S) (desktop_root S) (core_env S) (''go'' # args)) (ret ()));
          ext = exe_suffix S;
          target = (case desktop_output a of Some p \<Rightarrow> p | None \<Rightarrow> out @ [''veil-desktop'' @ ext])
      in if \<not> version_ok (desktop_version a) then raise (UsageError ''invalid version'')
         else bnd (generate S ''batch'') (\<lambda>flags.
         seq (on_files (mkdir_exist_ok out))
         (bnd (read_file (desktop_root S @ [''go.mod''])) (\<lambda>text.
         seq (write_file (out @ [''build.mod'']) (desktop_mod S text))
         (seq (copy_file (desktop_root S @ [''go.sum'']) (out @ [''build.sum'']))
         (let flags = desktop_flags out (debug a) flags in
          if desktop_check a
          then seq (go (go_test flags (desktop_race a))) (go ([''vet''] @ flags @ [''./...'']))
          else seq (mkdirs (butlast target))
            (bnd (on_files (resolved target)) (\<lambda>file.
            go ([''build''] @ flags @
              [''-trimpath'',
               ''-ldflags=-X main.version='' @ desktop_version a @ (if ext \<noteq> [] then '' -H=windowsgui'' else []),
               ''-o'', str file, ''.''])))))))))"

section \<open>Laws\<close>

lemma flag_kinds [simp]:
  "modfile_flag (''-modfile='' @ x)" "\<not> tags_flag (''-modfile='' @ x)" "tags_flag (''-tags='' @ x)"
  "\<not> modfile_flag (''-tags='' @ x)" "\<not> modfile_flag (''-overlay='' @ x)" "\<not> tags_flag (''-overlay='' @ x)"
  by (simp_all add: modfile_flag_def tags_flag_def startswith_def)

lemma generate_keeps_one_modfile:
  assumes "generate S mode h = (Inr flags, h')"
  shows "flags = filter (\<lambda>f. \<not> modfile_flag f) flags @ [''-modfile='' @ str (out_dir S mode @ [''build.mod''])]"
  using generate_Inr(1) [OF assms]
  by (simp add: native_flags_def overlay_flags_def) (simp add: modfile_flag_def startswith_def)

lemma test_loop_Inr:
  "\<exists>rows h'. test_loop S seconds cmds h = (Inr rows, h') \<and> ran h' = ran h @ take (length rows) cmds \<and>
     length rows \<le> length cmds \<and> list_all (\<lambda>r. fst r = 0) (butlast rows) \<and>
     (if failed rows then fst (last rows) \<noteq> 0 else length rows = length cmds)"
proof (induction cmds arbitrary: h)
  case Nil
  then show ?case by (simp add: ret_def failed_def)
next
  case (Cons cmd cmds)
  obtain rc out fs where step: "tool S (core_root S) (test_env S cmd) cmd (files h) = (rc, out, fs)"
    by (metis prod_cases3)
  define h1 where "h1 = h\<lparr>files := fs, ran := ran h @ [cmd]\<rparr>"
  have call: "call (tool S) (core_root S) (test_env S cmd) cmd h = (Inr (rc, out), h1)"
    by (simp add: call_def step h1_def)
  show ?case
  proof (cases "rc = 0")
    case True
    obtain rows h' where IH: "test_loop S seconds cmds h1 = (Inr rows, h')" "ran h' = ran h1 @ take (length rows) cmds"
        "length rows \<le> length cmds" "list_all (\<lambda>r. fst r = 0) (butlast rows)"
        "if failed rows then fst (last rows) \<noteq> 0 else length rows = length cmds"
      using Cons.IH by blast
    have run: "test_loop S seconds (cmd # cmds) h = (Inr ((rc, test_row S (seconds cmd) cmd rc out) # rows), h')"
      using True IH(1) by (simp add: bnd_def call ret_def)
    have "rows = [] \<Longrightarrow> \<not> failed rows" by (simp add: failed_def)
    then show ?thesis using run IH(2-5) True by (auto simp: h1_def failed_def split: if_splits)
  next
    case False
    then have "test_loop S seconds (cmd # cmds) h = (Inr [(rc, test_row S (seconds cmd) cmd rc out)], h1)"
      by (simp add: bnd_def call ret_def)
    then show ?thesis using False by (simp add: h1_def failed_def)
  qed
qed

lemma cross_loop_Inr:
  assumes "cross_loop S folder selected flags ts rows h = (Inr rows', h')"
  shows "\<exists>new. rows' = rows @ new \<and>
      list_all2 (\<lambda>t r. \<exists>out. snd r = cross_row t (cross_command folder flags t) (fst r) out) ts new \<and>
      (ts \<noteq> [] \<longrightarrow> read_file (folder @ [result_file selected]) h' = (Inr (report (map snd rows')), h'))"
  using assms
proof (induction ts arbitrary: rows h)
  case Nil
  then show ?case by (simp add: ret_iff)
next
  case (Cons t ts)
  let ?cmd = "cross_command folder flags t"
  from Cons.prems obtain rc out h1 h2 where
    "write_file (folder @ [result_file selected]) (report (map snd (rows @ [(rc, cross_row t ?cmd rc out)]))) h1 = (Inr (), h2)"
    and rest: "cross_loop S folder selected flags ts (rows @ [(rc, cross_row t ?cmd rc out)]) h2 = (Inr rows', h')"
    by (auto simp: Let_def bnd_Inr_iff seq_Inr_iff)
  from write_file_read [OF this(1)] have written:
    "read_file (folder @ [result_file selected]) h2 = (Inr (report (map snd (rows @ [(rc, cross_row t ?cmd rc out)]))), h2)" .
  from Cons.IH [OF rest] obtain new where "rows' = (rows @ [(rc, cross_row t ?cmd rc out)]) @ new"
    "list_all2 (\<lambda>t r. \<exists>out. snd r = cross_row t (cross_command folder flags t) (fst r) out) ts new"
    "ts \<noteq> [] \<longrightarrow> read_file (folder @ [result_file selected]) h' = (Inr (report (map snd rows')), h')"
    by blast
  then show ?case
    using rest written by (intro exI [of _ "(rc, cross_row t ?cmd rc out) # new"]) (cases "ts = []", auto simp: ret_iff)
qed

lemma selected_targets_nonempty:
  "selected = [] \<or> selected \<in> set (map target_name cross_targets) \<Longrightarrow> selected_targets selected \<noteq> []"
  by (auto simp: selected_targets_def filter_empty_conv) (simp add: cross_targets_def)

section \<open>Theorems\<close>

text \<open>
  When \<open>prepare\<close> of the service returns, its flags are those of the core's build without the core's
  module file and with the service's: the tags and the overlay stay, and there is one module file; the
  file \<^verbatim>\<open>flags.json\<close> of the service holds the list.
\<close>

theorem prepare_flags:
  "case prepare S mode h of
     (Inl e, h') \<Rightarrow> True
   | (Inr flags, h') \<Rightarrow>
       (let out = service_root S @ [''.build'', mode] in
        flags = butlast (if mode = ''native'' then native_flags (out_dir S mode) else overlay_flags mode (out_dir S mode)) @
          [''-modfile='' @ str (out @ [''build.mod''])] \<and>
        read_file (out @ [''flags.json'']) h' = (Inr (flags_json flags @ [nl]), h'))"
proof (cases "prepare S mode h")
  case (Pair r h')
  show ?thesis
  proof (cases r)
    case (Inr flags)
    with Pair obtain core h1 h2 where core: "generate S mode h = (Inr core, h1)"
      and flags: "flags = service_flags (service_root S @ [''.build'', mode]) core"
      and saved: "write_file (service_root S @ [''.build'', mode, ''flags.json'']) (flags_json flags @ [nl]) h2 = (Inr (), h')"
      by (auto simp: prepare_def Let_def bnd_Inr_iff seq_Inr_iff ret_iff)
    have "butlast core = filter (\<lambda>f. \<not> modfile_flag f) core"
      using generate_keeps_one_modfile [OF core] by (metis butlast_snoc)
    then show ?thesis
      using write_file_read [OF saved] generate_Inr(1) [OF core] Pair Inr flags by (simp add: service_flags_def Let_def)
  qed (simp add: Pair)
qed

text \<open>
  The tests of the core never raise by themselves: they run a prefix of the commands in order, one row each,
  of which only the last may have failed; when none failed, all commands were run.
\<close>

theorem tests_stop_at_failure:
  "\<exists>rows h'. test_loop S seconds (test_commands mode race stdlib flags) h = (Inr rows, h') \<and>
     ran h' = ran h @ take (length rows) (test_commands mode race stdlib flags) \<and>
     list_all (\<lambda>r. fst r = 0) (butlast rows) \<and>
     (if failed rows then fst (last rows) \<noteq> 0 else length rows = length (test_commands mode race stdlib flags))"
  using test_loop_Inr by blast

text \<open>
  When the cross compilation of the core returns, its result file holds one row per selected target, in their
  order, with the command run for it and its exit status; and its own status says whether one of them failed.
\<close>

theorem cross_reports_all:
  "case cross_main S selected h of
     (Inl e, h') \<Rightarrow> True
   | (Inr bad, h') \<Rightarrow>
       (let folder = core_root S @ [''.build'', ''cross''] in
        \<exists>rows. read_file (folder @ [result_file selected]) h' = (Inr (report (map snd rows)), h') \<and>
          list_all2 (\<lambda>t r. \<exists>out. snd r = cross_row t (cross_command folder (native_flags (out_dir S ''native'')) t) (fst r) out)
            (selected_targets selected) rows \<and>
          selected_targets selected \<noteq> [] \<and> (bad \<longleftrightarrow> (\<exists>r\<in>set rows. fst r \<noteq> 0)))"
proof (cases "cross_main S selected h")
  case (Pair r h')
  show ?thesis
  proof (cases r)
    case (Inr bad)
    let ?folder = "core_root S @ [''.build'', ''cross'']"
    from Pair Inr obtain flags h1 h2 rows where core: "generate S ''native'' h = (Inr flags, h1)"
      and loop: "cross_loop S ?folder selected flags (selected_targets selected) [] h2 = (Inr rows, h')"
      and bad: "bad = failed rows" and sel: "selected = [] \<or> selected \<in> set (map target_name cross_targets)"
      by (auto simp: cross_main_def choice_def Let_def bnd_Inr_iff seq_Inr_iff ret_iff raise_def split: if_splits)
    have "bad \<longleftrightarrow> (\<exists>r\<in>set rows. fst r \<noteq> 0)"
      by (simp add: bad failed_def list_ex_iff case_prod_beta)
    then show ?thesis
      using generate_Inr(1) [OF core] selected_targets_nonempty [OF sel] cross_loop_Inr [OF loop] Pair Inr
      by (simp add: Let_def) blast
  qed (simp add: Pair)
qed

end
