(* ===== verification/Release.thy ===== *)
theory Release
  imports Tools
begin

text \<open>
  The release check \<^verbatim>\<open>.github/scripts/release.py\<close>: the names a release must have, the checksum
  files, the manifests inside the archives, and publishing. \<open>sha\<close> stands for SHA-256 of a file's
  content; an archive is the list of its members.
\<close>

section \<open>Definitions\<close>

definition payload_files :: "string \<Rightarrow> string list" where
  "payload_files version =
     map (\<lambda>(target, arch, suffix). ''veil-'' @ version @ ''-'' @ target @ ''-'' @ arch @ ''.'' @ suffix)
       [(''linux'', ''amd64'', ''tar.gz''), (''linux'', ''arm64'', ''tar.gz''), (''linux'', ''armv7'', ''tar.gz''),
        (''windows'', ''amd64'', ''zip''), (''windows'', ''arm64'', ''zip'')] @
     [''veil-desktop-'' @ version @ ''-linux-amd64.tar.gz'', ''veil-desktop-'' @ version @ ''-windows-amd64.zip'',
      ''veil_'' @ version @ ''-1_x86_64.ipk'', ''luci-app-veil_'' @ version @ ''-1_all.ipk'',
      ''veil-'' @ version @ ''-r1.apk'', ''luci-app-veil-'' @ version @ ''-r1.apk'',
      ''veil-opnsense-build-'' @ version @ ''.tar.gz'']"

definition payload :: "string \<Rightarrow> string list" where
  "payload version = sort (payload_files version)"

definition verify_manifest :: "string \<Rightarrow> string \<Rightarrow> string \<Rightarrow> unit res" where
  "verify_manifest raw version commit =
     bind_res (loads raw) (\<lambda>manifest.
     bind_res (jget ''version'' manifest) (\<lambda>v.
     if v \<noteq> JStr version then Inl (ValueError ''package manifest does not match the clean release commit'')
     else bind_res (jget ''commit'' manifest) (\<lambda>c.
     if c \<noteq> JStr commit then Inl (ValueError ''package manifest does not match the clean release commit'')
     else bind_res (jget ''dirty'' manifest) (\<lambda>d.
     guard (d = JBool False) (ValueError ''package manifest does not match the clean release commit'')))))"

definition members :: "content \<Rightarrow> member list res" where
  "members c = (case c of Archive ms \<Rightarrow> Inr ms | Bytes s \<Rightarrow> Inl (RuntimeError ''not an archive''))"

definition sum_line :: "(content \<Rightarrow> string) \<Rightarrow> string \<Rightarrow> content \<Rightarrow> string" where
  "sum_line sha name c = sha c @ ''  '' @ name @ [nl]"

text \<open>The manifest of an archive: exactly one member whose name ends in \<open>/manifest.json\<close>.\<close>

definition check_archive :: "string \<Rightarrow> string \<Rightarrow> string \<Rightarrow> content \<Rightarrow> unit res" where
  "check_archive name version commit c =
     bind_res (members c) (\<lambda>ms.
     case filter (\<lambda>m. endswith (fst m) ''/manifest.json'') ms of
       [m] \<Rightarrow> (case snd (snd m) of
           None \<Rightarrow> Inl (RuntimeError ''AttributeError'')
         | Some (Bytes raw) \<Rightarrow> verify_manifest raw version commit
         | Some (Archive ns) \<Rightarrow> Inl (ValueError ''UnicodeDecodeError''))
     | _ \<Rightarrow> Inl (ValueError (''missing or duplicate manifest: '' @ name)))"

definition has_manifest :: "string \<Rightarrow> bool" where
  "has_manifest name \<longleftrightarrow> endswith name ''.zip'' \<or> endswith name ''.tar.gz'' \<and> \<not> contains ''opnsense'' name"

definition verify_file :: "(content \<Rightarrow> string) \<Rightarrow> path \<Rightarrow> string \<Rightarrow> string \<Rightarrow> string \<Rightarrow> (fs, string) io" where
  "verify_file sha folder version commit name =
     bnd (read_node (folder @ [name])) (\<lambda>c.
     bnd (read_text (folder @ [name @ ''.sha256''])) (\<lambda>recorded.
     if recorded \<noteq> sum_line sha name c then raise (ValueError (''checksum mismatch: '' @ name))
     else seq (if has_manifest name then lift_res (check_archive name version commit c) else ret ())
              (ret (sum_line sha name c))))"

definition verify :: "(content \<Rightarrow> string) \<Rightarrow> path \<Rightarrow> string \<Rightarrow> string \<Rightarrow> (fs, string list) io" where
  "verify sha folder version commit =
     (let names = payload version; sums = map (\<lambda>name. name @ ''.sha256'') names in
      bnd (iterdir folder) (\<lambda>found.
      if set found \<noteq> set names \<union> set sums
      then raise (ValueError ''release payload is missing files or contains unexpected files'')
      else bnd (map_io (verify_file sha folder version commit) names) (\<lambda>lines.
        seq (write_text (folder @ [''SHA256SUMS'']) (concat lines))
            (ret (names @ sums @ [''SHA256SUMS''])))))"

text \<open>\<open>[0-9]+\.[0-9]+\.[0-9]+\<close>\<close>

definition stable_version :: "string \<Rightarrow> bool" where
  "stable_version s \<longleftrightarrow> (let parts = split_char CHR ''.'' s in
     length parts = 3 \<and> list_all (\<lambda>p. p \<noteq> [] \<and> list_all is_digit p) parts)"

definition gh_command :: "path \<Rightarrow> string \<Rightarrow> string list \<Rightarrow> string list" where
  "gh_command folder version assets =
     (let tag = ''v'' @ version in
      [''gh'', ''release'', ''create'', tag, ''--verify-tag'', ''--title'', ''Veil '' @ tag,
       ''--notes-file'', ''.github/releases/'' @ tag @ ''.md''] @ map (\<lambda>name. str (folder @ [name])) assets)"

definition release_main ::
  "(content \<Rightarrow> string) \<Rightarrow> tool \<Rightarrow> path \<Rightarrow> env \<Rightarrow> string \<Rightarrow> path \<Rightarrow> bool \<Rightarrow> (host, unit) io" where
  "release_main sha tool cwd env version folder publish =
     (if \<not> stable_version version then raise (UsageError ''expected a stable MAJOR.MINOR.PATCH version'')
      else bnd (run tool cwd env [''git'', ''rev-parse'', ''HEAD'']) (\<lambda>out.
      bnd (on_files (verify sha folder version (strip out))) (\<lambda>assets.
      if publish then seq (run tool cwd env (gh_command folder version assets)) (ret ()) else ret ())))"

section \<open>The payload\<close>

lemma payload_set: "set (payload version) = set (payload_files version)"
  by (simp add: payload_def)

lemma neq_by_length: "length x \<noteq> length y \<Longrightarrow> x \<noteq> y"
  by blast

lemma payload_files_distinct: "distinct (payload_files version)"
  unfolding payload_files_def list.map prod.case append.simps(1) append_Cons [of "_ :: string"]
    distinct.simps list.set insert_iff empty_iff de_Morgan_disj simp_thms
  by (intro conjI; (rule neq_by_length, simp; fail)?; simp)

text \<open>
  A release has twelve different files, whatever the version.
\<close>

theorem payload_distinct: "distinct (payload version) \<and> length (payload version) = 12 \<and> sorted (payload version)"
  by (simp add: payload_def payload_files_distinct) (simp add: payload_files_def)

section \<open>What a verified release is\<close>

definition clean_manifest :: "string \<Rightarrow> string \<Rightarrow> string \<Rightarrow> bool" where
  "clean_manifest raw version commit \<longleftrightarrow>
     (\<exists>m. loads raw = Inr m \<and> jget ''version'' m = Inr (JStr version) \<and>
        jget ''commit'' m = Inr (JStr commit) \<and> jget ''dirty'' m = Inr (JBool False))"

lemma verify_manifest_iff: "verify_manifest raw version commit = Inr u \<longleftrightarrow> clean_manifest raw version commit"
  by (auto simp: verify_manifest_def clean_manifest_def bind_res_Inr_iff guard_iff split: if_splits)

lemma check_archive_iff:
  "check_archive name version commit c = Inr u \<longleftrightarrow>
     (\<exists>ms m mode raw. c = Archive ms \<and> filter (\<lambda>m. endswith (fst m) ''/manifest.json'') ms = [(m, mode, Some (Bytes raw))] \<and>
        clean_manifest raw version commit)"
  by (auto simp: check_archive_def members_def verify_manifest_iff bind_res_def split: content.splits list.splits option.splits)

definition verified_file :: "(content \<Rightarrow> string) \<Rightarrow> path \<Rightarrow> string \<Rightarrow> string \<Rightarrow> fs \<Rightarrow> string \<Rightarrow> string \<Rightarrow> bool" where
  "verified_file sha folder version commit fs name line \<longleftrightarrow>
     (\<exists>c. read_node (folder @ [name]) fs = (Inr c, fs) \<and> line = sum_line sha name c \<and>
        read_text (folder @ [name @ ''.sha256'']) fs = (Inr line, fs) \<and>
        (has_manifest name \<longrightarrow> check_archive name version commit c = Inr ()))"

lemma verify_file_reads [reads_intros]: "reads (verify_file sha folder version commit name)"
  unfolding verify_file_def by (intro reads_intros)

lemma verify_file_iff:
  "verify_file sha folder version commit name fs = (Inr line, fs') \<longleftrightarrow>
     fs' = fs \<and> verified_file sha folder version commit fs name line"
proof
  assume v: "verify_file sha folder version commit name fs = (Inr line, fs')"
  then have "fs' = fs" by (rule readsD [OF verify_file_reads])
  obtain c fs1 t fs2 where c: "read_node (folder @ [name]) fs = (Inr c, fs1)"
      "read_text (folder @ [name @ ''.sha256'']) fs1 = (Inr t, fs2)"
    and rest: "(if t \<noteq> sum_line sha name c then raise (ValueError (''checksum mismatch: '' @ name))
     else seq (if has_manifest name then lift_res (check_archive name version commit c) else ret ())
              (ret (sum_line sha name c))) fs2 = (Inr line, fs')"
    using v by (auto simp: verify_file_def bnd_Inr_iff [of _ _ fs] bnd_Inr_iff [of "read_text _"])
  have "fs1 = fs" "fs2 = fs" using c readsD [OF fs_reads(1)] readsD [OF read_text_reads] by blast+
  with c rest \<open>fs' = fs\<close> show "fs' = fs \<and> verified_file sha folder version commit fs name line"
    by (auto simp: verified_file_def raise_def seq_Inr_iff ret_iff lift_res_def split: if_splits)
next
  assume "fs' = fs \<and> verified_file sha folder version commit fs name line"
  then show "verify_file sha folder version commit name fs = (Inr line, fs')"
    by (auto simp: verified_file_def verify_file_def bnd_def seq_def ret_def lift_res_def)
qed

lemma verify_files_iff:
  "map_io (verify_file sha folder version commit) names fs = (Inr lines, fs') \<longleftrightarrow>
     fs' = fs \<and> list_all2 (verified_file sha folder version commit fs) names lines"
proof (induction names arbitrary: lines)
  case Nil
  then show ?case by (auto simp: ret_iff)
next
  case (Cons n ns)
  then show ?case by (auto simp: bnd_Inr_iff verify_file_iff ret_iff list_all2_Cons1)
qed


text \<open>
  A release that is not verified is left alone: when the check fails, for whatever reason, no
  file has changed.
\<close>

theorem verify_failure_changes_nothing:
  assumes "verify sha folder version commit fs = (Inl e, fs')"
  shows "fs' = fs"
proof -
  have unwritten: "write_content p c f = (Inl e', f') \<Longrightarrow> f' = f" for p c f e' f'
    by (auto simp: write_content_def split: option.splits node.splits if_splits)
  have last: "seq (write_content p c) (ret x) f = (Inl e', f') \<Longrightarrow> f' = f" for p c f e' f' and x :: "string list"
    by (auto simp: seq_def bnd_def ret_def split: sum.splits prod.splits dest: unwritten)
  have r: "reads (map_io (verify_file sha folder version commit) (payload version))" by (intro reads_intros)
  from assms show ?thesis
    unfolding verify_def Let_def write_text_def bnd_reads [OF fs_reads(2)]
    by (auto simp: raise_def bnd_reads [OF r] split: sum.splits if_splits dest: last)
qed

theorem verify_failure_changes_nothing_witness:
  "verify (\<lambda>_. []) [''out''] ''1.0.0'' ''abc'' [] = (Inl enoent, [])"
proof -
  have "fst (verify (\<lambda>_. []) [''out''] ''1.0.0'' ''abc'' []) = Inl enoent"
    by (simp add: verify_def Let_def bnd_def iterdir_def realpath_def lookup_def)
  then show ?thesis using verify_failure_changes_nothing by (metis prod.collapse)
qed

text \<open>
  C12. Nothing is published unverified. The commands the script runs are: none for a version that
  is not stable, else \<open>git rev-parse HEAD\<close>, and after it, only if publishing was asked for and the
  folder verifies for the commit that \<open>git\<close> reported, the creation of the release with exactly
  the verified assets.
\<close>

theorem publishes_only_verified:
  "ran (snd (release_main sha tool cwd env version folder publish h)) = ran h @
     (if \<not> stable_version version then []
      else [''git'', ''rev-parse'', ''HEAD''] #
        (case tool cwd env [''git'', ''rev-parse'', ''HEAD''] (files h) of (rc, out, fs) \<Rightarrow>
           if rc = 0 \<and> publish
           then (case fst (verify sha folder version (strip out) fs) of
               Inl e \<Rightarrow> [] | Inr assets \<Rightarrow> [gh_command folder version assets])
           else []))"
  by (auto simp: release_main_def run_def call_def on_files_def bnd_def seq_def raise_def ret_def
      split: if_splits prod.splits sum.splits)

end
