(* ===== verification/Packages.thy ===== *)
theory Packages
  imports Builds Release
begin

text \<open>
  The packaging scripts: \<^verbatim>\<open>veil-service/scripts/package.py\<close> and \<^verbatim>\<open>veil-desktop/scripts/package.py\<close>, which
  stage a build, describe it in a manifest and pack it, \<^verbatim>\<open>opnsense_bundle.py\<close> and \<^verbatim>\<open>openwrt_package.py\<close>. All
  work in a temporary directory below the output directory and record the SHA-256 of the
  result beside it. Paths given as options are absolute. Time stamps and owners of the members of archives are not modelled.
\<close>

section \<open>Shared pieces\<close>

text \<open>\<open>tempfile.TemporaryDirectory\<close> as a context: the directory goes away with all it holds, however the body ends.\<close>

definition with_temp :: "site \<Rightarrow> string \<Rightarrow> path \<Rightarrow> (path \<Rightarrow> (host, 'a) io) \<Rightarrow> (host, 'a) io" where
  "with_temp S pre dir body =
     bnd (gets (\<lambda>h. (is_dir (files h) dir, temp_name S (files h) dir))) (\<lambda>(ok, n).
     if \<not> ok then raise enoent
     else let temp = dir @ [pre @ n] in
       seq (on_files (modify (put temp Dir)))
           (try_finally (body temp) (on_files (modify (del (inside temp))))))"

definition relative_name :: "path \<Rightarrow> path \<Rightarrow> string" where
  "relative_name base p = join ''/'' (drop (length base) p)"

definition digest_of :: "site \<Rightarrow> fs \<Rightarrow> path \<Rightarrow> string option" where
  "digest_of S fs p = (case stat fs p of Some (File c m) \<Rightarrow> Some (sha S c) | _ \<Rightarrow> None)"

text \<open>The digest beside an artifact.\<close>

definition record_digest :: "site \<Rightarrow> path \<Rightarrow> (host, unit) io" where
  "record_digest S artifact =
     bnd (on_files (read_node artifact)) (\<lambda>c.
     write_file (butlast artifact @ [last artifact @ ''.sha256'']) (sha S c @ ''  '' @ last artifact @ [nl]))"

text \<open>\<open>pending.replace(archive)\<close> and the digest.\<close>

definition finish_archive :: "site \<Rightarrow> path \<Rightarrow> path \<Rightarrow> member list \<Rightarrow> (host, unit) io" where
  "finish_archive S pending archive ms =
     seq (on_files (write_content pending (Archive ms)))
     (seq (on_files (replace_file pending archive))
          (record_digest S archive))"

text \<open>
  \<open>tar.add(stage, arcname=name)\<close>: the directory itself and everything below it, a directory before
  its entries and these in the order of their names, which is the lexicographic order of the paths.
\<close>

definition arcname :: "string \<Rightarrow> path \<Rightarrow> path \<Rightarrow> string" where
  "arcname name stage p = join ''/'' (name # drop (length stage) p)"

definition node_content :: "node option \<Rightarrow> content option" where
  "node_content n = (case n of Some (File c m) \<Rightarrow> Some c | _ \<Rightarrow> None)"

definition tar_members :: "(string \<Rightarrow> node option \<Rightarrow> nat) \<Rightarrow> string \<Rightarrow> path \<Rightarrow> fs \<Rightarrow> member list" where
  "tar_members mode_of name stage fs =
     map (\<lambda>p. (arcname name stage p, mode_of (arcname name stage p) (lookup fs p), node_content (lookup fs p)))
       (sort (stage # below fs stage))"

text \<open>The entries of a directory, as \<open>zipfile\<close> receives them one by one.\<close>

definition zip_members :: "(string \<Rightarrow> node option \<Rightarrow> nat) \<Rightarrow> string \<Rightarrow> path \<Rightarrow> (host, member list) io" where
  "zip_members mode_of name stage =
     bnd (on_files (iterdir stage)) (\<lambda>names.
     map_io (\<lambda>n.
       bnd (on_files (read_node (stage @ [n]))) (\<lambda>c.
       bnd (gets (\<lambda>h. mode_of n (stat (files h) (stage @ [n])))) (\<lambda>m.
       ret (name @ ''/'' @ n, m, Some c)))) (sort names))"

definition git_commit :: "site \<Rightarrow> path \<Rightarrow> (host, string) io" where
  "git_commit S dir = bnd (run (tool S) dir (environ S) [''git'', ''rev-parse'', ''HEAD'']) (\<lambda>out. ret (strip out))"

definition git_dirty :: "site \<Rightarrow> (host, bool) io" where
  "git_dirty S = bnd (run (tool S) (repo S) (environ S) [''git'', ''status'', ''--porcelain'']) (\<lambda>out. ret (strip out \<noteq> []))"

definition go_version :: "site \<Rightarrow> env \<Rightarrow> (host, string) io" where
  "go_version S env = bnd (run (tool S) (cwd S) env [''go'', ''version'']) (\<lambda>out. ret (strip out))"

text \<open>\<open>os.environ.get(k) or check_output(git show ...).strip()\<close>.\<close>

definition epoch_text :: "site \<Rightarrow> path \<Rightarrow> (host, string) io" where
  "epoch_text S dir =
     (let given = env_get ''SOURCE_DATE_EPOCH'' (environ S) in
      if given \<noteq> [] then ret given
      else bnd (run (tool S) dir (environ S) [''git'', ''show'', ''-s'', ''--format=%ct'', ''HEAD'']) (\<lambda>out. ret (strip out)))"

text \<open>\<open>int(text)\<close>: an optional sign and ASCII digits, single underscores between them.\<close>

definition py_int :: "string \<Rightarrow> int res" where
  "py_int s =
     (let t = strip s; neg = startswith t ''-''; u = (if neg \<or> startswith t ''+'' then drop 1 t else t);
          parts = split_char CHR ''_'' u
      in if list_all (\<lambda>p. p \<noteq> [] \<and> list_all is_digit p) parts
         then Inr (if neg then - int (undec (concat parts)) else int (undec (concat parts)))
         else Inl (ValueError ''invalid literal for int()''))"

section \<open>The service's archives: \<^verbatim>\<open>package.py\<close>\<close>

definition ARCHES :: "(string \<times> env) list" where
  "ARCHES = [(''amd64'', []), (''arm64'', []), (''armv7'', [(''GOARM'', ''7'')])]"

definition package_env :: "site \<Rightarrow> string \<Rightarrow> string \<Rightarrow> env res" where
  "package_env S target arch =
     bind_res (dict_get arch ARCHES) (\<lambda>more.
     Inr (dict_update (dict_update (environ S)
       [(''GOOS'', target), (''GOARCH'', if arch = ''armv7'' then ''arm'' else arch), (''CGO_ENABLED'', ''0'')]) more))"

definition package_name :: "string \<Rightarrow> string \<Rightarrow> string \<Rightarrow> string" where
  "package_name version target arch = ''veil-'' @ version @ ''-'' @ target @ ''-'' @ arch"

definition archive_name :: "string \<Rightarrow> string \<Rightarrow> string \<Rightarrow> string" where
  "archive_name version target arch =
     package_name version target arch @ (if target = ''linux'' then ''.tar.gz'' else ''.zip'')"

definition docs :: "string \<Rightarrow> path" where
  "docs target = (if target = ''linux'' then [''share'', ''veil''] else [])"

text \<open>What is copied into the stage, in order: sources with their places.\<close>

definition copies :: "site \<Rightarrow> string \<Rightarrow> (path \<times> path) list" where
  "copies S target =
     (let platform = service_root S @ [''platform''] in
      [(platform @ [if target = ''linux'' then ''systemd'' else ''windows'', ''README.md''], docs target @ [''README.md'']),
       (repo S @ [''LICENSE''], docs target @ [''LICENSE'']),
       (repo S @ [''THIRD_PARTY.md''], docs target @ [''THIRD_PARTY.md''])] @
      (if target = ''linux'' then
         [(platform @ [''systemd'', ''veil-system''], [''bin'', ''veil-system'']),
          (platform @ [''systemd'', ''veil@.service''], [''lib'', ''systemd'', ''system'', ''veil@.service'']),
          (platform @ [''systemd'', ''veil.conf''], [''lib'', ''sysusers.d'', ''veil.conf'']),
          (platform @ [''systemd'', ''install.sh''], [''install.sh''])]
       else []))"

definition copy_into :: "path \<Rightarrow> path \<times> path \<Rightarrow> (host, unit) io" where
  "copy_into stage sr =
     seq (mkdirs (butlast (stage @ snd sr))) (copy_file (fst sr) (stage @ snd sr))"

definition stage_digests :: "site \<Rightarrow> path \<Rightarrow> fs \<Rightarrow> (string \<times> json) list" where
  "stage_digests S stage fs =
     List.map_filter (\<lambda>p. map_option (\<lambda>d. (relative_name stage p, JStr d)) (digest_of S fs p))
       (sort (below fs stage))"

definition service_manifest ::
  "string \<Rightarrow> string \<Rightarrow> bool \<Rightarrow> string \<Rightarrow> string \<Rightarrow> string \<Rightarrow> (string \<times> json) list \<Rightarrow> json" where
  "service_manifest version commit dirty target arch go digests =
     JObj [(''version'', JStr version), (''commit'', JStr commit), (''dirty'', JBool dirty),
       (''target'', JStr (target @ ''/'' @ arch)), (''backend'', JStr ''batch''), (''cgo'', JBool False),
       (''go'', JStr go), (''sha256'', JObj digests)]"

definition normalize :: "string \<Rightarrow> node option \<Rightarrow> nat" where
  "normalize name n =
     (if n = Some Dir \<or> contains ''/bin/'' name \<or> endswith name ''/install.sh'' then mode_755 else mode_644)"

definition package_build :: "site \<Rightarrow> string \<Rightarrow> string \<Rightarrow> path \<Rightarrow> string list" where
  "package_build S version target stage =
     [python S, str (service_root S @ [''scripts'', ''build.py'']), ''batch'', ''--output-dir'',
      str (if target = ''linux'' then stage @ [''bin''] else stage), ''--version'', version]"

text \<open>Filling the stage: the build, the copies, the manifest.\<close>

definition package_stage :: "site \<Rightarrow> string \<Rightarrow> string \<Rightarrow> string \<Rightarrow> env \<Rightarrow> path \<Rightarrow> (host, unit) io" where
  "package_stage S version arch target env stage =
     seq (run (tool S) (cwd S) env (package_build S version target stage))
     (seq (for_io (copies S target) (copy_into stage))
     (bnd (git_commit S (repo S)) (\<lambda>commit.
     bnd (git_dirty S) (\<lambda>dirty.
     bnd (go_version S env) (\<lambda>go.
     bnd (gets (\<lambda>h. stage_digests S stage (files h))) (\<lambda>digests.
     write_file (stage @ docs target @ [''manifest.json''])
       (dumps (Some 2) (service_manifest version commit dirty target arch go digests) @ [nl])))))))"

definition package_members :: "string \<Rightarrow> string \<Rightarrow> path \<Rightarrow> (host, member list) io" where
  "package_members name target stage =
     (if target = ''windows'' then zip_members (\<lambda>n node. mode_644) name stage
      else gets (\<lambda>h. tar_members normalize name stage (files h)))"

definition package_in :: "site \<Rightarrow> string \<Rightarrow> string \<Rightarrow> string \<Rightarrow> env \<Rightarrow> path \<Rightarrow> path \<Rightarrow> (host, path) io" where
  "package_in S version arch target env archive temp =
     (let name = package_name version target arch in
      seq (package_stage S version arch target env (temp @ [name]))
      (bnd (epoch_text S (repo S)) (\<lambda>text.
      bnd (lift_res (py_int text)) (\<lambda>epoch.
      bnd (package_members name target (temp @ [name])) (\<lambda>ms.
      seq (finish_archive S (temp @ [last archive]) archive ms)
          (ret archive))))))"

definition package :: "site \<Rightarrow> string \<Rightarrow> string \<Rightarrow> path \<Rightarrow> string \<Rightarrow> (host, path) io" where
  "package S version arch out target =
     bnd (lift_res (package_env S target arch)) (\<lambda>env.
     seq (mkdirs out)
         (with_temp S ''.package-'' out
            (package_in S version arch target env (out @ [archive_name version target arch]))))"

text \<open>The main program; \<open>arch\<close> is the option or the name of the host's machine, where it is known.\<close>

definition package_main :: "site \<Rightarrow> string \<Rightarrow> string option \<Rightarrow> path \<Rightarrow> string \<Rightarrow> (host, path) io" where
  "package_main S version arch out target =
     seq (choice target [''linux'', ''windows''])
     (seq (case arch of None \<Rightarrow> ret () | Some a \<Rightarrow> choice a (map fst ARCHES))
     (if \<not> version_ok version
      then raise (UsageError (''invalid version: use 1'' @ [CHR 0xE2, CHR 0x80, CHR 0x93] @ ''64 ASCII letters, digits, dots, +, _ or -''))
      else case arch of
        None \<Rightarrow> raise (UsageError ''--arch is required on this build host'')
      | Some a \<Rightarrow>
          if target = ''windows'' \<and> a = ''armv7'' then raise (UsageError ''Windows CLI packages support amd64 and arm64'')
          else bnd (on_files (resolved out)) (\<lambda>out. package S version a out target)))"

definition native_arch :: "string \<Rightarrow> string option" where
  "native_arch machine =
     map_of [(''x86_64'', ''amd64''), (''amd64'', ''amd64''), (''aarch64'', ''arm64''), (''arm64'', ''arm64''), (''armv7l'', ''armv7'')]
       (map (\<lambda>c. if is_upper c then char_of (of_char c + 32 :: nat) else c) machine)"

section \<open>The desktop's archives: \<^verbatim>\<open>package.py\<close>\<close>

definition desktop_name :: "string \<Rightarrow> string \<Rightarrow> string \<Rightarrow> string" where
  "desktop_name version target arch = ''veil-desktop-'' @ version @ ''-'' @ target @ ''-'' @ arch"

definition desktop_copies :: "site \<Rightarrow> string \<Rightarrow> (path \<times> string) list" where
  "desktop_copies S target =
     [(desktop_root S @ [''README.md''], ''README.md''), (repo S @ [''LICENSE''], ''LICENSE''),
      (repo S @ [''THIRD_PARTY.md''], ''THIRD_PARTY.md'')] @
     (if target = ''linux'' then
        [(desktop_root S @ [''scripts'', ''install.py''], ''install.py''),
         (desktop_root S @ [''assets'', ''veil.svg''], ''veil.svg'')]
      else [])"

text \<open>The digests of the entries; reading a directory raises.\<close>

definition desktop_digests :: "site \<Rightarrow> path \<Rightarrow> (host, (string \<times> json) list) io" where
  "desktop_digests S stage =
     bnd (on_files (iterdir stage)) (\<lambda>names.
     map_io (\<lambda>n. bnd (read_digest S (stage @ [n])) (\<lambda>d. ret (n, JStr d))) (sort names))"

definition desktop_manifest ::
  "string \<Rightarrow> string \<Rightarrow> string \<Rightarrow> string \<Rightarrow> bool \<Rightarrow> string \<Rightarrow> (string \<times> json) list \<Rightarrow> json" where
  "desktop_manifest version target arch commit dirty go digests =
     JObj [(''version'', JStr version), (''target'', JStr (target @ ''/'' @ arch)), (''backend'', JStr ''batch''),
       (''commit'', JStr commit), (''dirty'', JBool dirty), (''go'', JStr go), (''sha256'', JObj digests)]"

definition stored_mode :: "string \<Rightarrow> node option \<Rightarrow> nat" where
  "stored_mode name n = (case n of Some (File c m) \<Rightarrow> m | Some (Link t) \<Rightarrow> 511 | _ \<Rightarrow> mode_755)"

definition desktop_stage :: "site \<Rightarrow> string \<Rightarrow> string \<Rightarrow> string \<Rightarrow> env \<Rightarrow> path \<Rightarrow> (host, unit) io" where
  "desktop_stage S version target arch env stage =
     seq (run (tool S) (cwd S) env
            [python S, str (desktop_root S @ [''scripts'', ''build.py'']), ''--version'', version, ''--output'',
             str (stage @ [if target = ''windows'' then ''veil-desktop.exe'' else ''veil-desktop''])])
     (seq (for_io (desktop_copies S target) (\<lambda>(src, n). copy_file src (stage @ [n])))
     (bnd (git_commit S (repo S)) (\<lambda>commit.
     bnd (git_dirty S) (\<lambda>dirty.
     bnd (go_version S env) (\<lambda>go.
     bnd (desktop_digests S stage) (\<lambda>digests.
     write_file (stage @ [''manifest.json''])
       (dumps (Some 2) (desktop_manifest version target arch commit dirty go digests) @ [nl])))))))"

definition desktop_members :: "string \<Rightarrow> string \<Rightarrow> path \<Rightarrow> (host, member list) io" where
  "desktop_members name target stage =
     (if target = ''windows'' then zip_members stored_mode name stage
      else gets (\<lambda>h. tar_members stored_mode name stage (files h)))"

definition desktop_archive :: "string \<Rightarrow> string \<Rightarrow> string \<Rightarrow> string" where
  "desktop_archive version target arch =
     desktop_name version target arch @ (if target = ''windows'' then ''.zip'' else ''.tar.gz'')"

definition desktop_in :: "site \<Rightarrow> string \<Rightarrow> string \<Rightarrow> string \<Rightarrow> env \<Rightarrow> path \<Rightarrow> path \<Rightarrow> (host, unit) io" where
  "desktop_in S version target arch env archive temp =
     (let name = desktop_name version target arch in
      seq (desktop_stage S version target arch env (temp @ [name]))
      (bnd (desktop_members name target (temp @ [name])) (\<lambda>ms.
      finish_archive S (temp @ [last archive]) archive ms)))"

text \<open>\<open>linux_host\<close> is \<open>platform.system() == "Linux"\<close>.\<close>

definition desktop_package :: "site \<Rightarrow> bool \<Rightarrow> string \<Rightarrow> string \<Rightarrow> string \<Rightarrow> path \<Rightarrow> (host, unit) io" where
  "desktop_package S linux_host version target arch out =
     (let env = dict_update (environ S) [(''GOOS'', target), (''GOARCH'', arch)];
          env = (if target = ''windows'' then dict_set ''CGO_ENABLED'' ''0'' env else env)
      in seq (mkdirs out)
         (if target \<noteq> ''windows'' \<and> \<not> linux_host
          then raise (ValueError ''Linux desktop releases require a native Linux build host'')
          else with_temp S ''.desktop-'' out
            (desktop_in S version target arch env (out @ [desktop_archive version target arch]))))"

definition desktop_main :: "site \<Rightarrow> bool \<Rightarrow> string \<Rightarrow> string \<Rightarrow> string option \<Rightarrow> path \<Rightarrow> (host, unit) io" where
  "desktop_main S linux_host version target arch out =
     seq (case arch of None \<Rightarrow> ret () | Some a \<Rightarrow> choice a [''amd64'', ''arm64''])
     (if \<not> version_ok version then raise (UsageError ''invalid version'')
      else case arch of
        None \<Rightarrow> raise (UsageError ''specify a supported target and architecture'')
      | Some a \<Rightarrow>
          if target \<notin> {''linux'', ''windows''} then raise (UsageError ''specify a supported target and architecture'')
          else bnd (on_files (resolved out)) (desktop_package S linux_host version target a))"

section \<open>The OPNsense bundle\<close>

text \<open>\<open>[0-9][A-Za-z0-9.+]{0,63}\<close>, and with a hyphen for OpenWrt.\<close>

definition digit_version :: "string \<Rightarrow> string \<Rightarrow> bool" where
  "digit_version others s \<longleftrightarrow> s \<noteq> [] \<and> length s \<le> 64 \<and> is_digit (hd s) \<and>
     list_all (\<lambda>c. is_alnum c \<or> c \<in> set others) (tl s)"

definition ui_version :: string where
  "ui_version = ''__VEIL_UI_VERSION__''"

definition stamp_version :: "string \<Rightarrow> path \<Rightarrow> (host, unit) io" where
  "stamp_version version p = bnd (read_file p) (\<lambda>text. write_file p (replace_all ui_version version text))"

definition build_script :: "string \<Rightarrow> string \<Rightarrow> string" where
  "build_script version revision =
     ''#!/bin/sh'' @ [nl] @
       ''set -eu'' @ [nl] @
       ''cd '' @ [CHR 0x22] @ ''$(dirname '' @ [CHR 0x22] @ ''$0'' @ [CHR 0x22] @ '')'' @
       [CHR 0x22] @ [nl] @
       ''[ '' @ [CHR 0x22] @ ''$(uname -s)'' @ [CHR 0x22] @ '' = FreeBSD ] || { echo '' @
       [CHR 0x22] @ ''Run inside OPNsense'' @ [CHR 0x22] @ '' >&2; exit 1; }'' @ [nl] @
       ''abi=$(/usr/local/sbin/opnsense-version -v | cut -d. -f1,2)'' @ [nl] @
     ''make -C net/veil PLUGIN_VERSION='' @ version @ '' PLUGIN_HASH='' @ revision @
     '' PLUGIN_ABI='' @ [CHR 0x22] @ ''$abi'' @ [CHR 0x22] @ '' PLUGIN_ARCH=amd64 package'' @ [nl]"

text \<open>\<open>mkdir(parents=True)\<close>: the directory must be new.\<close>

definition mkdir_new :: "path \<Rightarrow> (fs, unit) io" where
  "mkdir_new p = bnd (gets (\<lambda>fs. exists fs p)) (\<lambda>there. if there then raise eexist else mkdir_parents p)"

definition bundle_mode :: "fs \<Rightarrow> path \<Rightarrow> nat" where
  "bundle_mode fs p = (case stat fs p of Some (File c m) \<Rightarrow> if and m 73 \<noteq> 0 then mode_755 else mode_644 | _ \<Rightarrow> mode_644)"

definition bundle_members :: "path \<Rightarrow> fs \<Rightarrow> member list" where
  "bundle_members folder fs =
     map (\<lambda>p. (relative_name folder p, bundle_mode fs p, node_content (lookup fs p)))
       (filter (is_file fs) (sort (below fs folder)))"

definition bundle_tree :: "site \<Rightarrow> path \<Rightarrow> string \<Rightarrow> path \<Rightarrow> (host, unit) io" where
  "bundle_tree S plugins version folder =
     (let port = folder @ [''net'', ''veil''];
          shared = port @ [''src'', ''opnsense'', ''www'', ''js'', ''veil'', ''shared''];
          rc = port @ [''src'', ''etc'', ''rc.d'', ''veil''];
          license_dir = port @ [''src'', ''share'', ''veil''] in
      seq (for_io [''Mk'', ''Scripts'', ''Templates''] (\<lambda>n. on_files (copytree (plugins @ [n]) (folder @ [n]))))
      (seq (on_files (copytree (service_root S @ [''platform'', ''opnsense'']) port))
      (seq (mkdirs shared)
      (seq (for_io [''connections.js'', ''connections.css'', ''i18n.js'']
              (\<lambda>n. copy_file (service_root S @ [''webui'', n]) (shared @ [n])))
      (seq (stamp_version version (port @ [''src'', ''opnsense'', ''mvc'', ''app'', ''views'', ''OPNsense'', ''Veil'', ''index.volt'']))
      (seq (run (tool S) (cwd S)
              (dict_update (environ S) [(''GOOS'', ''freebsd''), (''GOARCH'', ''amd64''), (''CGO_ENABLED'', ''0'')])
              [python S, str (service_root S @ [''scripts'', ''build.py'']), ''batch'', ''--version'', version,
               ''--output-dir'', str (port @ [''src'', ''bin''])])
      (seq (mkdirs (butlast rc))
      (seq (copy_file (service_root S @ [''platform'', ''freebsd'', ''veil'']) rc)
      (seq (for_io [rc, port @ [''src'', ''opnsense'', ''scripts'', ''veil'', ''control.php''],
                    port @ [''src'', ''etc'', ''rc.syshook.d'', ''start'', ''91-veil'']] (\<lambda>p. on_files (chmod p mode_755)))
      (seq (on_files (mkdir_new license_dir))
      (seq (for_io [''LICENSE'', ''THIRD_PARTY.md''] (\<lambda>n. copy_file (repo S @ [n]) (license_dir @ [n])))
      (bnd (git_commit S (service_root S)) (\<lambda>revision.
      seq (write_file (folder @ [''build.sh'']) (build_script version revision))
          (on_files (chmod (folder @ [''build.sh'']) mode_755)))))))))))))))"

definition bundle_in :: "site \<Rightarrow> path \<Rightarrow> string \<Rightarrow> path \<Rightarrow> path \<Rightarrow> (host, unit) io" where
  "bundle_in S plugins version artifact folder =
     seq (bundle_tree S plugins version folder)
     (bnd (gets (\<lambda>h. bundle_members folder (files h))) (\<lambda>ms.
     seq (on_files (write_content artifact (Archive ms)))
         (record_digest S artifact)))"

definition bundle_name :: "string \<Rightarrow> string" where
  "bundle_name version = ''veil-opnsense-build-'' @ version @ ''.tar.gz''"

definition opnsense_bundle :: "site \<Rightarrow> path \<Rightarrow> string \<Rightarrow> path \<Rightarrow> (host, unit) io" where
  "opnsense_bundle S plugins version folder =
     (if \<not> digit_version ''.+'' version
      then raise (UsageError ''version must start with a digit and contain letters, digits, . or +'')
      else bnd (gets (\<lambda>h. is_file (files h) (plugins @ [''Mk'', ''plugins.mk'']))) (\<lambda>official.
      if \<not> official then raise (UsageError ''official plugins checkout must contain Mk/plugins.mk'')
      else bnd (on_files (resolved folder)) (\<lambda>out.
      seq (mkdirs out)
          (with_temp S ''.opnsense-'' out (bundle_in S plugins version (out @ [bundle_name version]))))))"

section \<open>Laws\<close>

lemma with_temp_cases:
  "with_temp S pre dir body h =
     (let temp = dir @ [pre @ temp_name S (files h) dir] in
      if \<not> is_dir (files h) dir then (Inl enoent, h)
      else case body temp (h\<lparr>files := put temp Dir (files h)\<rparr>) of
        (r, h') \<Rightarrow> (r, h'\<lparr>files := del (inside temp) (files h')\<rparr>))"
  by (auto simp: with_temp_def bnd_def gets_def raise_def seq_def on_files_def modify_def try_finally_def Let_def split: prod.splits)

lemma write_links:
  assumes "write_content p c fs = (Inr u, fs')"
  shows "is_symlink fs' q \<longleftrightarrow> is_symlink fs q"
proof -
  obtain r m where "fs' = put r (File c m) fs" "r \<noteq> []" "\<And>t. lookup fs r \<noteq> Some (Link t)"
    using assms by (auto simp: write_content_def lookup_def split: option.splits node.splits if_splits)
  then show ?thesis by (simp add: is_symlink_iff lookup_put)
qed

lemma write_plain:
  assumes "write_content p c fs = (Inr u, fs')" and "plain fs p"
  shows "\<exists>m. fs' = put p (File c m) fs \<and> p \<noteq> []"
  using assms by (auto simp: write_content_def lookup_def split: option.splits node.splits if_splits)

lemma plain_links: "(\<And>q. is_symlink fs q \<longleftrightarrow> is_symlink fs' q) \<Longrightarrow> plain fs p \<longleftrightarrow> plain fs' p"
  by (simp add: plain_def)

lemma record_digest_recorded:
  assumes "record_digest S artifact h = (Inr u, h')" and "artifact \<noteq> []"
    and "plain (files h') artifact" and "plain (files h') (butlast artifact @ [last artifact @ ''.sha256''])"
  shows "\<exists>c m m'. lookup (files h') artifact = Some (File c m) \<and>
    lookup (files h') (butlast artifact @ [last artifact @ ''.sha256'']) = Some (File (Bytes (sum_line (sha S) (last artifact) c)) m')"
proof -
  let ?sum = "butlast artifact @ [last artifact @ ''.sha256'']"
  from assms(1) obtain c h1 where r: "on_files (read_node artifact) h = (Inr c, h1)"
    and w: "write_file ?sum (sha S c @ ''  '' @ last artifact @ [nl]) h1 = (Inr (), h')"
    by (auto simp: record_digest_def bnd_Inr_iff)
  then have h1: "h1 = h" by (metis readsD on_files_reads fs_reads(1))
  from w h1 have wc: "write_content ?sum (Bytes (sum_line (sha S) (last artifact) c)) (files h) = (Inr (), files h')"
    by (auto simp: write_file_def write_text_def on_files_Inr_iff sum_line_def)
  note links = plain_links [OF write_links [OF wc]]
  then have plain: "plain (files h) artifact" "plain (files h) ?sum" using assms(3,4) by blast+
  obtain m' where put: "files h' = put ?sum (File (Bytes (sum_line (sha S) (last artifact) c)) m') (files h)"
    using write_plain [OF wc plain(2)] by blast
  obtain m where "lookup (files h) artifact = Some (File c m)"
    using r plain(1) by (auto simp: on_files_def read_node_def split: option.splits node.splits prod.splits)
  moreover have "artifact \<noteq> ?sum" using assms(2) by (metis append_butlast_last_id last_snoc append_self_conv list.distinct(1))
  ultimately show ?thesis by (auto simp: put lookup_put)
qed

lemma plain_del_inside:
  assumes "plain (del (inside temp) fs) (out @ [n])" and "\<not> inside temp (out @ [n])"
  shows "plain fs (out @ [n])"
proof (rule plain_mono [OF assms(1)])
  fix q
  assume q: "inside q (out @ [n])" "q \<noteq> []" "is_symlink fs q"
  have "\<not> inside temp q"
    using q(1) assms(2) by (metis append.assoc inside_append inside_split)
  then show "is_symlink (del (inside temp) fs) q" using q(3) by (simp add: is_symlink_iff lookup_del)
qed


lemma temp_artifact:
  assumes run: "with_temp S pre out body h = (Inr x, h')"
    and last: "\<And>temp h1 h2. body temp h1 = (Inr x, h2) \<Longrightarrow> \<exists>h3. record_digest S (out @ [n]) h3 = (Inr (), h2)"
    and names: "pre \<noteq> []" "n \<noteq> []" "hd pre \<noteq> hd n"
    and plain: "plain (files h') (out @ [n])" "plain (files h') (out @ [n @ ''.sha256''])"
  shows "\<exists>c. read_node (out @ [n]) (files h') = (Inr c, files h') \<and>
     read_text (out @ [n @ ''.sha256'']) (files h') = (Inr (sum_line (sha S) n c), files h')"
proof -
  define temp where "temp = out @ [pre @ temp_name S (files h) out]"
  obtain h2 where body: "body temp (h\<lparr>files := put temp Dir (files h)\<rparr>) = (Inr x, h2)"
    and h': "h' = h2\<lparr>files := del (inside temp) (files h2)\<rparr>"
    using run by (auto simp: with_temp_cases temp_def Let_def split: if_splits prod.splits)
  have out: "\<not> inside temp (out @ [n])" "\<not> inside temp (out @ [n @ ''.sha256''])"
    using names by (auto simp: inside_def temp_def append_eq_Cons_conv hd_append dest: arg_cong [where f = hd])
  have fs': "files h' = del (inside temp) (files h2)" by (simp add: h')
  have "plain (files h2) (out @ [n])" "plain (files h2) (out @ [n @ ''.sha256''])"
    using plain out by (auto simp: fs' intro: plain_del_inside)
  then obtain c m m' where "lookup (files h2) (out @ [n]) = Some (File c m)"
      "lookup (files h2) (out @ [n @ ''.sha256'']) = Some (File (Bytes (sum_line (sha S) n c)) m')"
    using last [OF body] record_digest_recorded [of S "out @ [n]"] by fastforce
  then have "lookup (files h') (out @ [n]) = Some (File c m)"
      "lookup (files h') (out @ [n @ ''.sha256'']) = Some (File (Bytes (sum_line (sha S) n c)) m')"
    using out by (simp_all add: fs' lookup_del)
  then show ?thesis using plain by (simp add: read_text_def read_node_def bnd_def ret_def)
qed

lemma sum_verified:
  assumes "read_node (out @ [n]) fs = (Inr c, fs)" and "read_text (out @ [n @ ''.sha256'']) fs = (Inr (sum_line sh n c), fs)"
  shows "verify_file sh out version commit n fs =
    ((if has_manifest n then bind_res (check_archive n version commit c) (\<lambda>_. Inr (sum_line sh n c)) else Inr (sum_line sh n c)), fs)"
  using assms by (auto simp: verify_file_def bnd_def seq_def ret_def lift_res_def bind_res_def split: sum.splits)

lemma plain_below:
  assumes "plain fs stage" and "list_all (\<lambda>p. \<not> is_symlink fs p) (below fs stage)" and "p \<in> set (below fs stage)"
  shows "plain fs p"
  unfolding plain_iff
proof (intro allI impI notI)
  fix i
  assume i: "1 \<le> i \<and> i \<le> length p" and link: "is_symlink fs (take i p)"
  obtain r where p: "p = stage @ r" using assms(3) by (auto simp: below_def dest: inside_split)
  have ne: "take i p \<noteq> []" using i by auto
  show False
  proof (cases "i \<le> length stage")
    case True
    then show ?thesis using link assms(1) i by (simp add: p plain_iff)
  next
    case False
    then have "inside stage (take i p)" "take i p \<noteq> stage" using i by (auto simp: p inside_def dest: arg_cong [where f = length])
    moreover obtain t where "map_of fs (take i p) = Some (Link t)" using link ne by (auto simp: is_symlink_iff lookup_def)
    ultimately have "take i p \<in> set (below fs stage)" by (force simp: below_def dest: map_of_SomeD)
    then show ?thesis using link assms(2) by (auto simp: list_all_iff)
  qed
qed

lemma set_below: "set (below fs stage) = {q \<in> fst ` set fs. inside stage q \<and> q \<noteq> stage}"
  by (force simp: below_def)

lemma below_put: "inside stage p \<Longrightarrow> p \<noteq> stage \<Longrightarrow> set (below (put p n fs) stage) = insert p (set (below fs stage))"
  by (auto simp: set_below put_def)

lemma arcname_below: "p \<in> set (below fs stage) \<Longrightarrow> arcname name stage p = name @ ''/'' @ relative_name stage p"
proof -
  assume "p \<in> set (below fs stage)"
  then obtain r where "p = stage @ r" "r \<noteq> []" by (auto simp: set_below dest!: inside_split)
  then show ?thesis by (simp add: arcname_def relative_name_def join_Cons)
qed

definition file_members :: "(content \<Rightarrow> string) \<Rightarrow> string \<Rightarrow> member list \<Rightarrow> (string \<times> string) set" where
  "file_members sh name ms = {(n, d). \<exists>mode c. (name @ ''/'' @ n, mode, Some c) \<in> set ms \<and> d = sh c}"

definition stage_files :: "fs \<Rightarrow> path \<Rightarrow> (path \<times> content) set" where
  "stage_files fs stage = {(p, c). p \<in> set (below fs stage) \<and> node_content (lookup fs p) = Some c}"

lemma tar_file_member:
  assumes "lookup fs stage = Some Dir"
  shows "(name @ ''/'' @ n, mode, Some c) \<in> set (tar_members mode_of name stage fs) \<longleftrightarrow>
    (\<exists>p. (p, c) \<in> stage_files fs stage \<and> n = relative_name stage p \<and> mode = mode_of (name @ ''/'' @ n) (lookup fs p))"
    (is "?member \<longleftrightarrow> ?staged")
proof
  assume ?member
  then obtain p where "p \<in> set (stage # below fs stage)"
      and eq: "(name @ ''/'' @ n, mode, Some c) = (arcname name stage p, mode_of (arcname name stage p) (lookup fs p), node_content (lookup fs p))"
    unfolding tar_members_def set_map set_sort by (elim imageE)
  then have p: "p = stage \<or> p \<in> set (below fs stage)" "name @ ''/'' @ n = arcname name stage p"
      "mode = mode_of (arcname name stage p) (lookup fs p)" "node_content (lookup fs p) = Some c"
    by simp_all
  then have "p \<noteq> stage" using assms by (auto simp: node_content_def)
  with p show ?staged by (intro exI [of _ p]) (simp add: arcname_below stage_files_def)
next
  assume ?staged
  then obtain p where p: "p \<in> set (below fs stage)" "node_content (lookup fs p) = Some c" "n = relative_name stage p"
      "mode = mode_of (name @ ''/'' @ n) (lookup fs p)"
    by (auto simp: stage_files_def)
  then show ?member
    unfolding tar_members_def set_map set_sort by (intro image_eqI [of _ _ p]) (simp_all add: arcname_below)
qed

lemma file_members_tar:
  assumes "lookup fs stage = Some Dir"
  shows "file_members sh name (tar_members mode_of name stage fs) =
    (\<lambda>(p, c). (relative_name stage p, sh c)) ` stage_files fs stage"
  unfolding file_members_def tar_file_member [OF assms] by (auto simp: image_iff)

lemma in_map_filter: "x \<in> set (List.map_filter f xs) \<longleftrightarrow> (\<exists>p\<in>set xs. f p = Some x)"
  by (induction xs) (auto simp: map_filter_simps split: option.splits)

lemma digests_below:
  assumes "plain fs stage" and "list_all (\<lambda>p. \<not> is_symlink fs p) (below fs stage)"
  shows "{(n, d). (n, JStr d) \<in> set (stage_digests S stage fs)} =
    (\<lambda>(p, c). (relative_name stage p, sha S c)) ` stage_files fs stage"
proof -
  have d: "digest_of S fs p = map_option (sha S) (node_content (lookup fs p))" if "p \<in> set (below fs stage)" for p
    using plain_below [OF assms that] by (simp add: digest_of_def node_content_def split: option.splits node.splits)
  have "(n, JStr x) \<in> set (stage_digests S stage fs) \<longleftrightarrow>
      (\<exists>p\<in>set (below fs stage). digest_of S fs p = Some x \<and> n = relative_name stage p)" for n x
    by (auto simp: stage_digests_def in_map_filter)
  then show ?thesis by (force simp: stage_files_def d)
qed

definition packing_site :: site where
  "packing_site = sample_site\<lparr>sha := (\<lambda>c. ''0''), repo := [''r'']\<rparr>"

section \<open>Theorems\<close>

lemma finish_archive_ends:
  "finish_archive S pending archive ms h = (Inr u, h') \<Longrightarrow> \<exists>h3. record_digest S archive h3 = (Inr (), h')"
  by (auto simp: finish_archive_def seq_Inr_iff)

lemma artifact_names:
  "hd (archive_name version target arch) = CHR ''v''" "archive_name version target arch \<noteq> []"
  "hd (desktop_archive version target arch) = CHR ''v''" "desktop_archive version target arch \<noteq> []"
  "hd (bundle_name version) = CHR ''v''" "bundle_name version \<noteq> []"
  by (simp_all add: archive_name_def package_name_def desktop_archive_def desktop_name_def bundle_name_def)

lemma packed_artifact:
  assumes "with_temp S (CHR ''.'' # pre) out body h = (Inr x, h')"
    and "\<And>temp h1 h2. body temp h1 = (Inr x, h2) \<Longrightarrow> \<exists>h3. record_digest S (out @ [n]) h3 = (Inr (), h2)"
    and "n \<noteq> []" "hd n = CHR ''v''"
    and "plain (files h') (out @ [n])" "plain (files h') (out @ [n @ ''.sha256''])"
  shows "\<exists>c. read_node (out @ [n]) (files h') = (Inr c, files h') \<and>
     verify_file (sha S) out version commit n (files h') =
       ((if has_manifest n then bind_res (check_archive n version commit c) (\<lambda>_. Inr (sum_line (sha S) n c))
         else Inr (sum_line (sha S) n c)), files h')"
  using temp_artifact [OF assms(1,2) _ assms(3) _ assms(5,6)] assms(4) sum_verified by fastforce

text \<open>
  C14. What the service's packaging leaves in the output directory passes the release check up to its manifest:
  verifying the file never finds a wrong checksum, only what the check of the manifest inside the archive finds
  (the two names must not be links).
\<close>

theorem package_passes_checksum:
  "case package S version arch out target h of
     (Inl e, h') \<Rightarrow> True
   | (Inr archive, h') \<Rightarrow>
       (let name = archive_name version target arch in
        archive = out @ [name] \<and>
        (if plain (files h') archive \<and> plain (files h') (out @ [name @ ''.sha256''])
         then \<exists>c. read_node archive (files h') = (Inr c, files h') \<and>
           verify_file (sha S) out version commit name (files h') =
             ((if has_manifest name then bind_res (check_archive name version commit c) (\<lambda>_. Inr (sum_line (sha S) name c))
               else Inr (sum_line (sha S) name c)), files h')
         else True))"
proof (cases "package S version arch out target h")
  case (Pair r h')
  let ?name = "archive_name version target arch"
  have last: "\<exists>h3. record_digest S (out @ [?name]) h3 = (Inr (), h2)" and res: "x = out @ [?name]"
    if "package_in S version arch target env (out @ [?name]) temp h1 = (Inr x, h2)" for env temp h1 h2 x
    using that by (auto simp: package_in_def Let_def seq_Inr_iff bnd_Inr_iff ret_iff dest: finish_archive_ends)
  show ?thesis
  proof (cases r)
    case (Inr archive)
    with Pair obtain env h1 where run:
      "with_temp S ''.package-'' out (package_in S version arch target env (out @ [?name])) h1 = (Inr archive, h')"
      by (auto simp: package_def seq_Inr_iff bnd_Inr_iff)
    then have "archive = out @ [?name]"
      by (auto simp: with_temp_cases Let_def split: if_splits prod.splits dest: res)
    then show ?thesis
      using packed_artifact [OF run last] artifact_names by (simp add: Pair Inr Let_def)
  qed (simp add: Pair)
qed

text \<open>
  The same holds of the desktop's packaging.
\<close>

theorem desktop_passes_checksum:
  "case desktop_package S linux_host version target arch out h of
     (Inl e, h') \<Rightarrow> True
   | (Inr _, h') \<Rightarrow>
       (let name = desktop_archive version target arch in
        if plain (files h') (out @ [name]) \<and> plain (files h') (out @ [name @ ''.sha256''])
        then \<exists>c. read_node (out @ [name]) (files h') = (Inr c, files h') \<and>
          verify_file (sha S) out version commit name (files h') =
            ((if has_manifest name then bind_res (check_archive name version commit c) (\<lambda>_. Inr (sum_line (sha S) name c))
              else Inr (sum_line (sha S) name c)), files h')
        else True)"
proof (cases "desktop_package S linux_host version target arch out h")
  case (Pair r h')
  let ?name = "desktop_archive version target arch"
  have last: "\<exists>h3. record_digest S (out @ [?name]) h3 = (Inr (), h2)"
    if "desktop_in S version target arch env (out @ [?name]) temp h1 = (Inr x, h2)" for env temp h1 h2 x
    using that by (auto simp: desktop_in_def Let_def seq_Inr_iff bnd_Inr_iff dest: finish_archive_ends)
  show ?thesis
  proof (cases r)
    case (Inr x)
    with Pair obtain env h1 where run:
      "with_temp S ''.desktop-'' out (desktop_in S version target arch env (out @ [?name])) h1 = (Inr x, h')"
      by (auto simp: desktop_package_def Let_def seq_Inr_iff raise_def split: if_splits)
    then show ?thesis
      using packed_artifact [OF run last] artifact_names by (simp add: Pair Inr Let_def)
  qed (simp add: Pair)
qed

text \<open>
  The temporary directory does not survive: whether packaging succeeds or fails, and wherever it fails, nothing is
  left below the name that was chosen for it, a name that was free.
\<close>

theorem package_removes_temp:
  assumes "mkdirs out h = (Inr (), h1)" and "temp = out @ [''.package-'' @ temp_name S (files h1) out]"
    and "package_env S target arch = Inr env"
    and free: "\<And>q. lookup (files h1) (temp @ q) = None"
  shows "lookup (files (snd (package S version arch out target h))) (temp @ q) = None"
proof -
  have "files (snd (package S version arch out target h)) =
    files (snd (with_temp S ''.package-'' out
            (package_in S version arch target env (out @ [archive_name version target arch])) h1))"
    using assms(1,3) by (simp add: package_def bnd_def lift_res_def seq_def)
  then show ?thesis
    using free assms(2) by (auto simp: with_temp_cases Let_def lookup_del inside_def split: prod.splits)
qed

theorem package_removes_temp_witness:
  "lookup (files (snd (package packing_site ''1.0'' ''amd64'' [''out''] ''linux'' \<lparr>files = [([''out''], Dir)], ran = []\<rparr>)))
     [''out'', ''.package-tmp'', ''veil-1.0-linux-amd64''] = None"
proof -
  let ?h = "\<lparr>files = [([''out''], Dir)], ran = []\<rparr> :: host"
  have m: "mkdirs [''out''] ?h = (Inr (), ?h)"
    by code_simp
  have t: "[''out'', ''.package-tmp''] = [''out''] @ [''.package-'' @ temp_name packing_site (files ?h) [''out'']]"
    by (simp add: packing_site_def sample_site_def)
  obtain env where "package_env packing_site ''linux'' ''amd64'' = Inr env"
    by (simp add: package_env_def ARCHES_def dict_get_def)
  from package_removes_temp [OF m t this, of "''1.0''" "[''veil-1.0-linux-amd64'']"] show ?thesis
    by (simp add: lookup_def)
qed

text \<open>
  C15. The manifest describes the archive: the regular files of the packed stage, with the digests of their
  contents, are those the manifest lists and the manifest itself (in a stage without links that had no manifest before).
\<close>

theorem manifest_describes_archive:
  assumes stage: "plain fs stage" "lookup fs stage = Some Dir" "list_all (\<lambda>p. \<not> is_symlink fs p) (below fs stage)"
    and manifest: "manifest = stage @ docs target @ [''manifest.json'']" "lookup fs manifest = None"
  shows "file_members (sha S) name (tar_members normalize name stage (put manifest (File (Bytes raw) mode) fs)) =
    {(n, d). (n, JStr d) \<in> set (stage_digests S stage fs)} \<union> {(relative_name stage manifest, sha S (Bytes raw))}"
proof -
  let ?fs = "put manifest (File (Bytes raw) mode) fs"
  have m: "inside stage manifest" "manifest \<noteq> stage" "manifest \<noteq> []" by (simp_all add: manifest(1))
  have "lookup ?fs stage = Some Dir" using m stage(2) by (simp add: lookup_put)
  moreover have "stage_files ?fs stage = insert (manifest, Bytes raw) (stage_files fs stage)"
    using m manifest(2) by (auto simp: stage_files_def below_put lookup_put node_content_def split: if_splits)
  ultimately show ?thesis by (simp add: file_members_tar digests_below [OF stage(1,3)])
qed

theorem manifest_describes_archive_witness:
  "file_members (sha packing_site) ''v'' (tar_members normalize ''v'' [''s'']
     (put [''s'', ''manifest.json''] (File (Bytes ''{}'') mode_644) [([''s''], Dir), ([''s'', ''veild''], File (Bytes ''x'') mode_644)])) =
   {(''veild'', ''0''), (''manifest.json'', ''0'')}"
proof -
  let ?fs = "[([''s''], Dir), ([''s'', ''veild''], File (Bytes ''x'') mode_644)]"
  have "plain ?fs [''s'']" "lookup ?fs [''s''] = Some Dir" "list_all (\<lambda>p. \<not> is_symlink ?fs p) (below ?fs [''s''])"
    "[''s'', ''manifest.json''] = [''s''] @ docs ''windows'' @ [''manifest.json'']" "lookup ?fs [''s'', ''manifest.json''] = None"
    by code_simp+
  from manifest_describes_archive [OF this, of packing_site "''v''" "''{}''" mode_644]
  have eq: "file_members (sha packing_site) ''v'' (tar_members normalize ''v'' [''s''] (put [''s'', ''manifest.json''] (File (Bytes ''{}'') mode_644) ?fs)) =
    {(n, d). (n, JStr d) \<in> set (stage_digests packing_site [''s''] ?fs)} \<union> {(relative_name [''s''] [''s'', ''manifest.json''], ''0'')}"
    by (simp add: packing_site_def)
  have "stage_digests packing_site [''s''] ?fs = [(''veild'', JStr ''0'')]" "relative_name [''s''] [''s'', ''manifest.json''] = ''manifest.json''"
    by code_simp+
  then show ?thesis unfolding eq by auto
qed

text \<open>
  The release check accepts the manifest of a package exactly for the version and the commit it was built from,
  and only if the tree was clean.
\<close>

theorem manifest_verifies:
  assumes "json_ok (service_manifest version commit dirty target arch go digests)"
  shows "verify_manifest (dumps (Some 2) (service_manifest version commit dirty target arch go digests) @ [nl]) v c = Inr () \<longleftrightarrow>
    v = version \<and> c = commit \<and> \<not> dirty"
proof -
  have "loads (dumps (Some 2) (service_manifest version commit dirty target arch go digests) @ [nl]) =
      Inr (service_manifest version commit dirty target arch go digests)"
    using loads_dumps [OF assms] by blast
  then show ?thesis by (auto simp: verify_manifest_iff clean_manifest_def service_manifest_def dict_get_def)
qed

theorem manifest_verifies_witness:
  "verify_manifest (dumps (Some 2) (service_manifest ''1.0'' ''abc'' False ''linux'' ''amd64'' ''go'' [(''bin/veild'', JStr ''00'')]) @ [nl])
     ''1.0'' ''abc'' = Inr ()"
proof -
  have "json_ok (service_manifest ''1.0'' ''abc'' False ''linux'' ''amd64'' ''go'' [(''bin/veild'', JStr ''00'')])"
    by (simp add: service_manifest_def utf8_ok_ascii is_ascii_def)
  then show ?thesis by (simp add: manifest_verifies)
qed

end
