(* ===== verification/Openwrt.thy ===== *)
theory Openwrt
  imports Packages
begin

text \<open>
  OpenWrt: \<^verbatim>\<open>openwrt_package.py\<close> of the service, which builds the daemon's package and the LuCI application as IPK
  or APK, and \<^verbatim>\<open>openwrt_check.py\<close>, which checks the translation catalogue and the access list of the
  application. The owner of a file is not modelled, so \<open>os.chown\<close> has no effect here.
\<close>

section \<open>Packaging\<close>

definition target :: "string \<Rightarrow> env res" where
  "target architecture =
     (if architecture = ''x86_64'' then Inr [(''GOARCH'', ''amd64'')]
      else if startswith architecture ''aarch64_'' then Inr [(''GOARCH'', ''arm64'')]
      else if startswith architecture ''arm_'' then Inr [(''GOARCH'', ''arm''), (''GOARM'', ''5'')]
      else if startswith architecture ''mipsel_'' then Inr [(''GOARCH'', ''mipsle''), (''GOMIPS'', ''softfloat'')]
      else if startswith architecture ''mips_'' then Inr [(''GOARCH'', ''mips''), (''GOMIPS'', ''softfloat'')]
      else Inl (ValueError ''unsupported package architecture''))"

definition exec_mode :: "bool \<Rightarrow> nat" where
  "exec_mode executable = (if executable then mode_755 else mode_644)"

definition copy_to :: "path \<Rightarrow> path \<Rightarrow> path \<Rightarrow> bool \<Rightarrow> (host, unit) io" where
  "copy_to source root relative executable =
     seq (mkdirs (butlast (root @ relative)))
     (seq (copy_file source (root @ relative))
          (on_files (chmod (root @ relative) (exec_mode executable))))"

definition write_to :: "path \<Rightarrow> path \<Rightarrow> string \<Rightarrow> bool \<Rightarrow> (host, unit) io" where
  "write_to root relative text executable =
     seq (mkdirs (butlast (root @ relative)))
     (seq (write_file (root @ relative) text)
          (on_files (chmod (root @ relative) (exec_mode executable))))"

definition prerm :: string where
  "prerm =
       ''#!/bin/sh'' @ [nl] @
       ''[ -n '' @ [CHR 0x22] @ ''$IPKG_INSTROOT'' @ [CHR 0x22] @ '' ] && exit 0'' @ [nl] @
       ''/etc/init.d/veil stop'' @ [nl] @
       ''if [ '' @ [CHR 0x22] @ ''$1'' @ [CHR 0x22] @
       '' = remove ]; then /etc/init.d/veil disable; fi'' @ [nl]"

definition postinst :: string where
  "postinst =
       ''#!/bin/sh'' @ [nl] @
       ''[ -n '' @ [CHR 0x22] @ ''$IPKG_INSTROOT'' @ [CHR 0x22] @ '' ] && exit 0'' @ [nl] @
       ''uci set luci.languages.zh_cn='' @
       [CHR 0x22, CHR 0xE7, CHR 0xAE, CHR 0x80, CHR 0xE4, CHR 0xBD, CHR 0x93, CHR 0xE4, CHR 0xB8, CHR 0xAD, CHR 0xE6,
        CHR 0x96, CHR 0x87, CHR 0x22] @
       [nl] @
       ''uci commit luci'' @ [nl] @
       ''/etc/init.d/rpcd reload'' @ [nl] @
       ''rm -f /tmp/luci-indexcache*'' @ [nl]"

definition pre_upgrade :: string where
  "pre_upgrade = ''#!/bin/sh'' @ [nl] @ ''/etc/init.d/veil stop'' @ [nl]"

definition pre_deinstall :: string where
  "pre_deinstall = ''#!/bin/sh'' @ [nl] @ ''/etc/init.d/veil stop'' @ [nl] @ ''/etc/init.d/veil disable'' @ [nl]"

text \<open>The options; \<open>uid_root\<close> is \<open>os.geteuid() == 0\<close>.\<close>

record openwrt_options =
  sdk :: "path option"
  format :: string
  apk_tool :: "path option"
  po2lmo :: path
  architecture :: string
  openwrt_version :: string
  openwrt_output :: path
  uid_root :: bool

definition openwrt_root :: "site \<Rightarrow> path" where
  "openwrt_root S = service_root S @ [''platform'', ''openwrt'']"

definition engine_tree :: "site \<Rightarrow> path \<Rightarrow> path \<Rightarrow> (host, unit) io" where
  "engine_tree S binaries engine =
     seq (copy_to (binaries @ [''veild'']) engine [''usr'', ''sbin'', ''veild''] True)
     (seq (copy_to (binaries @ [''veilctl'']) engine [''usr'', ''bin'', ''veilctl''] True)
     (seq (copy_to (binaries @ [''veil-rpc'']) engine [''usr'', ''libexec'', ''rpcd'', ''veil''] True)
     (seq (copy_to (openwrt_root S @ [''veil'']) engine [''etc'', ''init.d'', ''veil''] True)
     (seq (copy_to (repo S @ [''LICENSE'']) engine [''usr'', ''share'', ''veil'', ''LICENSE''] False)
     (seq (copy_to (repo S @ [''THIRD_PARTY.md'']) engine [''usr'', ''share'', ''veil'', ''THIRD_PARTY.md''] False)
     (seq (write_to engine [''lib'', ''upgrade'', ''keep.d'', ''veil''] (''/etc/veil/'' @ [nl]) False)
          (write_to engine [''CONTROL'', ''prerm''] prerm True)))))))"

definition app_sources :: "site \<Rightarrow> path \<Rightarrow> string \<Rightarrow> fs \<Rightarrow> path list" where
  "app_sources S base source_dir fs = filter (is_file fs) (below fs (base @ [source_dir]))"

definition app_tree :: "site \<Rightarrow> path \<Rightarrow> string \<Rightarrow> path \<Rightarrow> (host, unit) io" where
  "app_tree S compiler version app =
     (let base = openwrt_root S @ [''luci-app-veil''];
          translation = app @ [''usr'', ''lib'', ''lua'', ''luci'', ''i18n'', ''veil.zh-cn.lmo''] in
      seq (for_io [(''root'', []), (''htdocs'', [''www''])] (\<lambda>(source_dir, pre).
             bnd (gets (\<lambda>h. app_sources S base source_dir (files h))) (\<lambda>sources.
             for_io sources (\<lambda>p. copy_to p app (pre @ drop (Suc (length base)) p) False))))
      (seq (for_io [''connections.js'', ''connections.css'', ''i18n.js''] (\<lambda>n.
              copy_to (service_root S @ [''webui'', n]) app [''www'', ''luci-static'', ''resources'', ''veil'', n] False))
      (seq (stamp_version version (app @ [''www'', ''luci-static'', ''resources'', ''view'', ''veil.js'']))
      (seq (mkdirs (butlast translation))
      (seq (run (tool S) (cwd S) (environ S) [str compiler, str (base @ [''po'', ''zh_Hans'', ''veil.po'']), str translation])
           (write_to app [''CONTROL'', ''postinst''] postinst True))))))"

text \<open>The two packages: root, name, architecture, dependencies, description.\<close>

record opkg =
  opkg_root :: path
  opkg_name :: string
  opkg_arch :: string
  depends :: string
  description :: string

definition opkgs :: "string \<Rightarrow> path \<Rightarrow> opkg list" where
  "opkgs arch folder =
     [\<lparr>opkg_root = folder @ [''veil''], opkg_name = ''veil'', opkg_arch = arch, depends = ''ca-bundle, rpcd'',
        description = ''Veil SOCKS5 and HTTP proxy with local control''\<rparr>,
      \<lparr>opkg_root = folder @ [''luci-app-veil''], opkg_name = ''luci-app-veil'', opkg_arch = ''all'', depends = ''veil, luci-base'',
        description = ''Veil configuration and status for LuCI (English and Chinese)''\<rparr>]"

definition control_text :: "string \<Rightarrow> opkg \<Rightarrow> string" where
  "control_text version p =
     ''Package: '' @ opkg_name p @ [nl] @ ''Version: '' @ version @ [nl] @ ''Architecture: '' @ opkg_arch p @ [nl] @
     ''Maintainer: Project Veil'' @ [nl] @ ''Section: net'' @ [nl] @ ''License: GPL-3.0-or-later'' @ [nl] @
     ''Installed-Size: 0'' @ [nl] @ ''Depends: '' @ depends p @ [nl] @ ''Description: '' @ description p @ [nl]"

definition artifact_name :: "string \<Rightarrow> string \<Rightarrow> opkg \<Rightarrow> string" where
  "artifact_name fmt version p =
     (if fmt = ''ipk'' then opkg_name p @ ''_'' @ version @ ''_'' @ opkg_arch p @ ''.ipk''
      else opkg_name p @ ''-'' @ version @ ''.apk'')"

text \<open>\<open>Path.rename\<close> of a directory: everything below moves with it.\<close>

definition rename_tree :: "path \<Rightarrow> path \<Rightarrow> (fs, unit) io" where
  "rename_tree p q fs =
     (if lookup fs p = None then (Inl enoent, fs)
      else if lookup fs q \<noteq> None then (Inl (OSError ''Directory not empty''), fs)
      else (Inr (), map (\<lambda>(r, n). (if inside p r then q @ drop (length p) r else r, n)) fs))"

definition scripts :: "path \<Rightarrow> opkg \<Rightarrow> (string \<times> path) list" where
  "scripts hooks p =
     (if opkg_name p = ''veil'' then [(''pre-upgrade'', hooks @ [''pre-upgrade'']), (''pre-deinstall'', hooks @ [''pre-deinstall''])]
      else [(''post-install'', hooks @ [''postinst'']), (''post-upgrade'', hooks @ [''postinst''])])"

definition mkpkg_command :: "path \<Rightarrow> string \<Rightarrow> path \<Rightarrow> path \<Rightarrow> opkg \<Rightarrow> string list" where
  "mkpkg_command apk version artifact hooks p =
     [str apk, ''mkpkg'', ''--files'', str (opkg_root p), ''--output'', str artifact] @
     concat (map (\<lambda>(k, v). [''--info'', k @ '':'' @ v])
       [(''name'', opkg_name p), (''version'', version), (''arch'', if opkg_arch p = ''all'' then ''noarch'' else opkg_arch p),
        (''depends'', replace_all '','' [] (depends p)), (''description'', description p),
        (''license'', ''GPL-3.0-or-later''), (''url'', ''https://github.com/RC-CHN/Project-Veil'')]) @
     concat (map (\<lambda>(k, q). [''--script'', k @ '':'' @ str q]) (scripts hooks p))"

definition build_opkg ::
  "site \<Rightarrow> openwrt_options \<Rightarrow> path option \<Rightarrow> env \<Rightarrow> path \<Rightarrow> path \<Rightarrow> opkg \<Rightarrow> (host, unit) io" where
  "build_opkg S a ipkg env out folder p =
     (let artifact = out @ [artifact_name (format a) (openwrt_version a) p]; hooks = folder @ [opkg_name p @ ''-hooks''] in
      seq (write_to (opkg_root p) [''CONTROL'', ''control''] (control_text (openwrt_version a) p) False)
      (seq (if format a = ''ipk''
            then seq (run (tool S) (cwd S) env [''sh'', str (the ipkg), str (opkg_root p), str out]) (ret ())
            else
              seq (on_files (rename_tree (opkg_root p @ [''CONTROL'']) hooks))
              (seq (when_io (opkg_name p = ''veil'')
                     (seq (write_to hooks [''pre-upgrade''] pre_upgrade True)
                          (write_to hooks [''pre-deinstall''] pre_deinstall True)))
              (bnd (on_files (resolved (the (apk_tool a)))) (\<lambda>apk.
              seq (run (tool S) (cwd S) env (mkpkg_command apk (openwrt_version a) artifact hooks p)) (ret ())))))
      (record_digest S artifact)))"

definition openwrt_in :: "site \<Rightarrow> openwrt_options \<Rightarrow> path option \<Rightarrow> env \<Rightarrow> env \<Rightarrow> path \<Rightarrow> path \<Rightarrow> path \<Rightarrow> (host, unit) io" where
  "openwrt_in S a ipkg env opkg_env compiler out folder =
     seq (run (tool S) (cwd S) env
            [python S, str (service_root S @ [''scripts'', ''build.py'']), ''batch'', ''--version'', openwrt_version a,
             ''--output-dir'', str (folder @ [''bin'']), ''--program'', ''veild'', ''--program'', ''veilctl'', ''--program'', ''veil-rpc''])
     (seq (engine_tree S (folder @ [''bin'']) (folder @ [''veil'']))
     (seq (app_tree S compiler (openwrt_version a) (folder @ [''luci-app-veil'']))
          (for_io (opkgs (architecture a) folder) (build_opkg S a ipkg opkg_env out folder))))"

definition arch_ok :: "string \<Rightarrow> bool" where
  "arch_ok s \<longleftrightarrow> s \<noteq> [] \<and> list_all (\<lambda>c. is_lower c \<or> is_digit c \<or> c = CHR ''_'') s"

text \<open>The guards of the options, in the order of the script.\<close>

definition ipkg_path :: "openwrt_options \<Rightarrow> (fs, path option) io" where
  "ipkg_path a = (case sdk a of None \<Rightarrow> ret None
     | Some s \<Rightarrow> bnd (resolved s) (\<lambda>q. ret (Some (q @ [''scripts'', ''ipkg-build'']))))"

definition ipkg_present :: "path option \<Rightarrow> fs \<Rightarrow> bool" where
  "ipkg_present ipkg fs = (case ipkg of None \<Rightarrow> False | Some p \<Rightarrow> is_file fs p)"

definition apk_present :: "openwrt_options \<Rightarrow> fs \<Rightarrow> bool" where
  "apk_present a fs = (case apk_tool a of None \<Rightarrow> False | Some p \<Rightarrow> is_file fs p)"

definition openwrt_guards :: "openwrt_options \<Rightarrow> path option \<Rightarrow> path \<Rightarrow> fs \<Rightarrow> unit res" where
  "openwrt_guards a ipkg compiler fs =
     bind_res (guard (is_file fs compiler) (UsageError ''the compiled po2lmo tool is required'')) (\<lambda>_.
     bind_res (guard (format a \<noteq> ''ipk'' \<or> ipkg_present ipkg fs) (UsageError ''IPK builds require SDK scripts/ipkg-build'')) (\<lambda>_.
     bind_res (guard (format a \<noteq> ''apk'' \<or> apk_present a fs) (UsageError ''APK builds require --apk-tool with mkpkg support'')) (\<lambda>_.
     guard (format a \<noteq> ''apk'' \<or> uid_root a) (UsageError ''run APK builds under fakeroot to encode root file ownership''))))"

definition openwrt_package :: "site \<Rightarrow> openwrt_options \<Rightarrow> (host, unit) io" where
  "openwrt_package S a =
     seq (choice (format a) [''ipk'', ''apk''])
     (if \<not> digit_version ''.+-'' (openwrt_version a)
      then raise (UsageError ''version must start with a digit and contain only letters, digits, ., + or -'')
      else if \<not> arch_ok (architecture a) then raise (UsageError ''invalid OpenWrt package architecture'')
      else case target (architecture a) of
        Inl e \<Rightarrow> raise (UsageError ''unsupported package architecture'')
      | Inr platform_env \<Rightarrow>
          bnd (on_files (ipkg_path a)) (\<lambda>ipkg.
          bnd (on_files (resolved (po2lmo a))) (\<lambda>compiler.
          bnd (gets (\<lambda>h. openwrt_guards a ipkg compiler (files h))) (\<lambda>g.
          seq (lift_res g)
          (bnd (on_files (resolved (openwrt_output a))) (\<lambda>out.
          seq (mkdirs out)
          (let env = dict_update (dict_update (environ S) [(''GOOS'', ''linux''), (''CGO_ENABLED'', ''0'')]) platform_env in
           bnd (epoch_text S (service_root S)) (\<lambda>epoch.
           let opkg_env = dict_update (environ S) [(''TAR'', ''tar --owner=0 --group=0''), (''SOURCE_DATE_EPOCH'', epoch)] in
           with_temp S ''.openwrt-'' out (openwrt_in S a ipkg env opkg_env compiler out)))))))))"

end
