(* ===== verification/Windows_Check.thy ===== *)
theory Windows_Check
  imports Packages "HOL-Library.Multiset"
begin

text \<open>
  The check of a Windows archive, \<open>verify\<close> of \<^verbatim>\<open>veil-service/scripts/windows_package_check.py\<close>: checksum, layout,
  manifest, digests of the members and the headers of the programs; and the main program, which may run them.
  \<open>repr\<close> stands for Python's text of a JSON value that is a float or a container.
\<close>

section \<open>Definitions\<close>

definition windows_files :: "string list" where
  "windows_files = [''veild.exe'', ''veilctl.exe'', ''README.md'', ''LICENSE'', ''THIRD_PARTY.md'']"

definition MACHINES :: "(string \<times> nat) list" where
  "MACHINES = [(''windows/amd64'', 0x8664), (''windows/arm64'', 0xAA64)]"

definition assert :: "bool \<Rightarrow> string \<Rightarrow> unit res" where
  "assert b msg = guard b (AssertionError msg)"

definition struct_error :: exn where
  "struct_error = RuntimeError ''struct.error''"

text \<open>\<open>struct.unpack_from\<close> for little-endian numbers of \<open>k\<close> bytes.\<close>

definition unpack_from :: "nat \<Rightarrow> string \<Rightarrow> nat \<Rightarrow> nat res" where
  "unpack_from k data offset =
     (if offset + k \<le> length data
      then Inr (foldr (\<lambda>c a. of_char c + 256 * a) (slice offset (offset + k) data) 0)
      else Inl struct_error)"

text \<open>The two programs; an archive in their place starts with its own signature, not with \<open>MZ\<close>.\<close>

definition pe_check :: "nat \<Rightarrow> string \<Rightarrow> content \<Rightarrow> unit res" where
  "pe_check machine name c =
     (let data = (case c of Bytes s \<Rightarrow> s | Archive ms \<Rightarrow> ''PK'') in
      bind_res (assert (take 2 data = ''MZ'') (name @ '': not a Windows executable'')) (\<lambda>_.
      bind_res (unpack_from 4 data 0x3C) (\<lambda>offset.
      bind_res (assert (slice offset (offset + 4) data = ''PE'' @ [CHR 0x00, CHR 0x00]) (name @ '': missing PE header'')) (\<lambda>_.
      bind_res (unpack_from 2 data (offset + 4)) (\<lambda>m.
      assert (m = machine) (name @ '': wrong architecture''))))))"

definition json_text :: "(json \<Rightarrow> string) \<Rightarrow> json \<Rightarrow> string" where
  "json_text repr v = (case v of JStr s \<Rightarrow> s | JInt i \<Rightarrow> dec_int i | JNull \<Rightarrow> ''None''
     | JBool b \<Rightarrow> if b then ''True'' else ''False'' | _ \<Rightarrow> repr v)"

text \<open>\<open>set(value)\<close>: the keys of a dictionary, the items of a list, the characters of a text.\<close>

definition iterated :: "json \<Rightarrow> json list res" where
  "iterated v = (case v of
      JObj ms \<Rightarrow> Inr (map (JStr \<circ> fst) ms)
    | JArr vs \<Rightarrow> if list_ex (\<lambda>w. case w of JArr _ \<Rightarrow> True | JObj _ \<Rightarrow> True | _ \<Rightarrow> False) vs then Inl type_error else Inr vs
    | JStr s \<Rightarrow> Inr (map (\<lambda>c. JStr [c]) s)
    | _ \<Rightarrow> Inl type_error)"

definition member_content :: "member list \<Rightarrow> string \<Rightarrow> content" where
  "member_content ms name = (case map_of ms name of Some (m, Some c) \<Rightarrow> c | _ \<Rightarrow> Bytes [])"

definition machine_of :: "json \<Rightarrow> (string \<times> nat) res" where
  "machine_of v = (case v of
      JStr t \<Rightarrow> (case map_of MACHINES t of Some m \<Rightarrow> Inr (t, m) | None \<Rightarrow> Inl (AssertionError ''unexpected target''))
    | JArr _ \<Rightarrow> Inl type_error | JObj _ \<Rightarrow> Inl type_error
    | _ \<Rightarrow> Inl (AssertionError ''unexpected target''))"

definition digest_check :: "(content \<Rightarrow> string) \<Rightarrow> json \<Rightarrow> string \<times> content \<Rightarrow> unit res" where
  "digest_check sh digests nc =
     bind_res (jget (fst nc) digests) (\<lambda>d. assert (d = JStr (sh (snd nc))) (fst nc))"

text \<open>The checks on the members of the archive named \<open>stem\<close>: the manifest and the contents, or the first failure.\<close>

definition verify_members ::
  "(content \<Rightarrow> string) \<Rightarrow> (json \<Rightarrow> string) \<Rightarrow> string \<Rightarrow> member list \<Rightarrow> (json \<times> (string \<times> content) list) res" where
  "verify_members sh repr stem ms =
     (let names = map (\<lambda>n. stem @ ''/'' @ n) (windows_files @ [''manifest.json'']);
          contents = map (\<lambda>n. (n, member_content ms (stem @ ''/'' @ n))) windows_files in
      bind_res (assert (sort (map fst ms) = sort names) ''unexpected package layout'') (\<lambda>_.
      bind_res (case member_content ms (stem @ ''/manifest.json'') of
          Bytes s \<Rightarrow> loads s | Archive _ \<Rightarrow> Inl (ValueError ''UnicodeDecodeError'')) (\<lambda>manifest.
      bind_res (bind_res (jget ''target'' manifest) machine_of) (\<lambda>(t, machine).
      bind_res (bind_res (jget ''backend'' manifest) (\<lambda>b. assert (b = JStr ''batch'') [])) (\<lambda>_.
      bind_res (bind_res (jget ''cgo'' manifest) (\<lambda>b. assert (b = JBool False) [])) (\<lambda>_.
      bind_res (jget ''sha256'' manifest) (\<lambda>digests.
      bind_res (bind_res (iterated digests) (\<lambda>ks. assert (set ks = JStr ` set windows_files) ''incomplete file manifest'')) (\<lambda>_.
      bind_res (bind_res (jget ''version'' manifest) (\<lambda>v.
        assert (stem = ''veil-'' @ json_text repr v @ ''-'' @ replace_all ''/'' ''-'' t) [])) (\<lambda>_.
      bind_res (map_res (digest_check sh digests) contents) (\<lambda>_.
      bind_res (map_res (\<lambda>n. pe_check machine n (member_content ms (stem @ ''/'' @ n))) [''veild.exe'', ''veilctl.exe'']) (\<lambda>_.
      Inr (manifest, contents))))))))))))"

text \<open>\<open>text.split()[0]\<close> and \<open>Path.stem\<close>.\<close>

definition first_word :: "string \<Rightarrow> string res" where
  "first_word s = (let w = takeWhile (\<lambda>c. \<not> is_space c) (dropWhile is_space s) in if w = [] then Inl IndexError else Inr w)"

definition stem_of :: "string \<Rightarrow> string" where
  "stem_of name =
     (let e = length (takeWhile (\<lambda>c. c \<noteq> CHR ''.'') (rev name)) in
      if e = 0 \<or> length name \<le> Suc e then name else take (length name - Suc e) name)"

definition verify_windows ::
  "(content \<Rightarrow> string) \<Rightarrow> (json \<Rightarrow> string) \<Rightarrow> path \<Rightarrow> (fs, json \<times> (string \<times> content) list) io" where
  "verify_windows sh repr archive =
     bnd (read_text (butlast archive @ [last archive @ ''.sha256''])) (\<lambda>text.
     bnd (lift_res (first_word text)) (\<lambda>digest.
     bnd (read_node archive) (\<lambda>c.
     seq (lift_res (assert (sh c = digest) ''archive digest mismatch''))
     (bnd (lift_res (members c)) (\<lambda>ms.
     lift_res (verify_members sh repr (stem_of (last archive)) ms))))))"

definition version_line :: "(json \<Rightarrow> string) \<Rightarrow> json \<Rightarrow> string res" where
  "version_line repr manifest =
     bind_res (jget ''version'' manifest) (\<lambda>v.
     bind_res (jget ''target'' manifest) (\<lambda>t.
     Inr (''Veil '' @ json_text repr v @ '' ('' @ json_text repr t @ '')'')))"

text \<open>The main program; a directory for the programs is made below the system's place for temporary files.\<close>

definition windows_check_main :: "site \<Rightarrow> (json \<Rightarrow> string) \<Rightarrow> path \<Rightarrow> path \<Rightarrow> bool \<Rightarrow> (host, unit) io" where
  "windows_check_main S repr tmp archive run_programs =
     (if run_programs \<and> \<not> windows_host S then raise (UsageError ''--run requires native Windows'')
      else bnd (on_files (resolved archive)) (\<lambda>archive.
      bnd (on_files (verify_windows (sha S) repr archive)) (\<lambda>(manifest, contents).
      when_io run_programs (with_temp S ''veil cli package '' tmp (\<lambda>root.
        seq (for_io contents (\<lambda>(n, c). on_files (write_content (root @ [n]) c)))
        (seq (for_io [''veild.exe'', ''veilctl.exe''] (\<lambda>n.
          bnd (run (tool S) (cwd S) (environ S) [str (root @ [n]), ''-version'']) (\<lambda>out.
          bnd (lift_res (version_line repr manifest)) (\<lambda>line.
          lift_res (assert (strip out = line) out)))))
        (seq (run (tool S) (cwd S) (environ S)
               [python S, str (service_root S @ [''scripts'', ''windows_smoke.py'']), ''--bin-dir'', str root])
        (ret ()))))))))"

section \<open>Packages verify\<close>

text \<open>The members of the archive that packaging makes of a Windows stage with the given contents.\<close>

definition windows_digests :: "(content \<Rightarrow> string) \<Rightarrow> (string \<Rightarrow> content) \<Rightarrow> (string \<times> json) list" where
  "windows_digests sh contents = map (\<lambda>n. (n, JStr (sh (contents n)))) (sort windows_files)"

definition windows_members :: "string \<Rightarrow> json \<Rightarrow> (string \<Rightarrow> content) \<Rightarrow> member list" where
  "windows_members stem manifest contents =
     map (\<lambda>n. (stem @ ''/'' @ n, mode_644,
           Some (if n = ''manifest.json'' then Bytes (dumps (Some 2) manifest @ [nl]) else contents n)))
       (sort (windows_files @ [''manifest.json'']))"

text \<open>A smallest executable: the header at 0x40 and its machine.\<close>

definition sample_program :: content where
  "sample_program =
     Bytes (''MZ'' @ replicate 58 (CHR 0x00) @ [CHR 0x40, CHR 0x00, CHR 0x00, CHR 0x00] @
       ''PE'' @ [CHR 0x00, CHR 0x00, CHR 0x64, CHR 0x86])"

lemma map_of_renamed: "inj f \<Longrightarrow> n \<in> set xs \<Longrightarrow> map_of (map (\<lambda>n. (f n, g n)) xs) (f n) = Some (g n)"
  by (induction xs) (auto simp: inj_eq)

lemma sort_same: "mset xs = mset ys \<Longrightarrow> sort xs = sort ys"
  by (metis properties_for_sort sorted_sort mset_sort)

lemma windows_layout: "sort (map fst (windows_members stem manifest contents)) = sort (map (\<lambda>n. stem @ ''/'' @ n) (windows_files @ [''manifest.json'']))"
  by (rule sort_same) (simp add: windows_members_def comp_def)

lemma windows_content:
  assumes "n \<in> set (windows_files @ [''manifest.json''])"
  shows "member_content (windows_members stem manifest contents) (stem @ ''/'' @ n) =
    (if n = ''manifest.json'' then Bytes (dumps (Some 2) manifest @ [nl]) else contents n)"
proof -
  have "inj (\<lambda>n. stem @ ''/'' @ n)" by (simp add: inj_def)
  moreover have "n \<in> set (sort (windows_files @ [''manifest.json'']))" using assms by (simp only: set_sort)
  ultimately have "map_of (windows_members stem manifest contents) (stem @ ''/'' @ n) = Some (mode_644,
      Some (if n = ''manifest.json'' then Bytes (dumps (Some 2) manifest @ [nl]) else contents n))"
    unfolding windows_members_def by (rule map_of_renamed)
  then show ?thesis unfolding member_content_def by simp
qed

lemma no_manifest: "n \<in> set windows_files \<Longrightarrow> n \<noteq> ''manifest.json''"
  by (auto simp: windows_files_def)

lemma windows_target: "map_of MACHINES (''windows/'' @ arch) = Some machine \<Longrightarrow>
    replace_all ''/'' ''-'' (''windows/'' @ arch) = ''windows-'' @ arch"
proof -
  assume "map_of MACHINES (''windows/'' @ arch) = Some machine"
  then have "arch = ''amd64'' \<or> arch = ''arm64''" by (auto simp: MACHINES_def split: if_splits)
  then show ?thesis by (elim disjE) (simp, code_simp)+
qed

lemma windows_digest_of: "n \<in> set windows_files \<Longrightarrow>
    jget n (JObj (windows_digests sh contents)) = Inr (JStr (sh (contents n)))"
  using map_of_renamed [of "\<lambda>n. n" n "sort windows_files" "\<lambda>n. JStr (sh (contents n))"]
  by (simp add: windows_digests_def dict_get_def)

section \<open>Theorems\<close>



end
