(* ===== verification/Fixtures.thy ===== *)
theory Fixtures
  imports Core_Build
begin

text \<open>
  The fixtures of the tests, \<^verbatim>\<open>veil-core/scripts/fixtures.py\<close>: local keys and certificates, the configurations of server and
  client for every variant, starting programs, waiting for their ports and stopping them. A process is the way it
  behaves: whether it still runs, and whether it ends within five seconds of a \<open>SIGTERM\<close>.
\<close>

section \<open>Files\<close>

definition save :: "path \<Rightarrow> json \<Rightarrow> (fs, path) io" where
  "save p obj =
     seq (write_text p (dumps (Some 2) obj @ [nl]))
     (seq (chmod p mode_600) (ret p))"

record keys_of =
  fixture_folder :: path
  cert_file :: string
  key_file :: string
  key_values :: json

definition openssl_command :: "path \<Rightarrow> path \<Rightarrow> bool \<Rightarrow> string list" where
  "openssl_command cert key rsa =
     [''openssl'', ''req'', ''-x509'', ''-newkey''] @
     (if rsa then [''rsa:2048''] else [''ec'', ''-pkeyopt'', ''ec_paramgen_curve:P-256'']) @
     [''-nodes'', ''-keyout'', str key, ''-out'', str cert, ''-days'', ''1'', ''-subj'', ''/CN=cover.test'',
      ''-addext'', ''subjectAltName=DNS:cover.test'']"

definition fixture :: "site \<Rightarrow> path \<Rightarrow> bool \<Rightarrow> (host, keys_of) io" where
  "fixture S dir rsa =
     (let cert = dir @ [''cert.pem'']; key = dir @ [''key.pem''] in
      seq (mkdirs dir)
      (seq (run (tool S) (cwd S) (environ S) (openssl_command cert key rsa))
      (seq (on_files (chmod key mode_600))
      (bnd (run (tool S) (cwd S) (environ S) [str (core_root S @ [''.build'', ''veil-native'']), ''-keygen'']) (\<lambda>out.
      bnd (lift_res (loads out)) (\<lambda>ks.
      ret \<lparr>fixture_folder = dir, cert_file = str cert, key_file = str key, key_values = ks\<rparr>))))))"

section \<open>Configurations\<close>

definition local_port :: "int \<Rightarrow> string" where
  "local_port p = ''127.0.0.1:'' @ dec_int p"

definition veil_tls_server :: "keys_of \<Rightarrow> bool \<Rightarrow> int \<Rightarrow> json res" where
  "veil_tls_server f reality cover =
     (let st = [(''mode'', JStr (if reality then ''reality'' else ''tls'')), (''server_name'', JStr ''cover.test'')] in
      if reality
      then bind_res (jget ''reality_private_key'' (key_values f)) (\<lambda>private.
           bind_res (jget ''short_id'' (key_values f)) (\<lambda>short.
           Inr (JObj (dict_update st [(''reality_private_key'', private), (''short_id'', short),
             (''cover_address'', JStr (local_port cover))]))))
      else Inr (JObj (dict_update st [(''certificate'', JStr (cert_file f)), (''private_key_file'', JStr (key_file f))])))"

definition veil_tls_client :: "keys_of \<Rightarrow> bool \<Rightarrow> json res" where
  "veil_tls_client f reality =
     (let ct = [(''mode'', JStr (if reality then ''reality'' else ''tls'')), (''server_name'', JStr ''cover.test'')] in
      if reality
      then bind_res (jget ''reality_public_key'' (key_values f)) (\<lambda>public.
           bind_res (jget ''short_id'' (key_values f)) (\<lambda>short.
           Inr (JObj (dict_update ct [(''reality_public_key'', public), (''short_id'', short)]))))
      else Inr (JObj (dict_update ct [(''ca_file'', JStr (cert_file f))])))"

definition veil_server :: "keys_of \<Rightarrow> bool \<Rightarrow> int \<Rightarrow> int \<Rightarrow> json res" where
  "veil_server f reality sp cover =
     bind_res (veil_tls_server f reality cover) (\<lambda>st.
     bind_res (jget ''secret'' (key_values f)) (\<lambda>secret.
     Inr (JObj [(''role'', JStr ''server''), (''listen'', JStr (local_port sp)), (''secret'', secret), (''tls'', st),
       (''max_connections'', JInt 128), (''idle_seconds'', JInt 60)])))"

definition veil_client :: "keys_of \<Rightarrow> bool \<Rightarrow> int \<Rightarrow> int \<Rightarrow> json res" where
  "veil_client f reality sp cp =
     bind_res (veil_tls_client f reality) (\<lambda>ct.
     bind_res (jget ''secret'' (key_values f)) (\<lambda>secret.
     Inr (JObj [(''role'', JStr ''client''), (''listen'', JStr (local_port cp)), (''server'', JStr (local_port sp)),
       (''secret'', secret), (''tls'', ct), (''max_connections'', JInt 128), (''idle_seconds'', JInt 60)])))"

definition singbox_tls :: "(string \<times> json) list" where
  "singbox_tls = [(''enabled'', JBool True), (''server_name'', JStr ''cover.test''),
     (''min_version'', JStr ''1.3''), (''max_version'', JStr ''1.3'')]"

definition singbox_tls_server :: "keys_of \<Rightarrow> bool \<Rightarrow> int \<Rightarrow> json res" where
  "singbox_tls_server f reality cover =
     (if reality
      then bind_res (jget ''reality_private_key'' (key_values f)) (\<lambda>private.
           bind_res (jget ''short_id'' (key_values f)) (\<lambda>short.
           Inr (JObj (dict_set ''reality'' (JObj
             [(''enabled'', JBool True),
              (''handshake'', JObj [(''server'', JStr ''127.0.0.1''), (''server_port'', JInt cover)]),
              (''private_key'', private), (''short_id'', JArr [short]), (''max_time_difference'', JStr ''1m'')]) singbox_tls))))
      else Inr (JObj (dict_update singbox_tls [(''certificate_path'', JStr (cert_file f)), (''key_path'', JStr (key_file f))])))"

definition singbox_tls_client :: "keys_of \<Rightarrow> bool \<Rightarrow> json res" where
  "singbox_tls_client f reality =
     (if reality
      then bind_res (jget ''reality_public_key'' (key_values f)) (\<lambda>public.
           bind_res (jget ''short_id'' (key_values f)) (\<lambda>short.
           Inr (JObj (dict_update singbox_tls
             [(''utls'', JObj [(''enabled'', JBool True), (''fingerprint'', JStr ''chrome'')]),
              (''reality'', JObj [(''enabled'', JBool True), (''public_key'', public), (''short_id'', short)])]))))
      else Inr (JObj (dict_update singbox_tls [(''certificate_path'', JStr (cert_file f))])))"

definition log_errors :: "string \<times> json" where
  "log_errors = (''log'', JObj [(''level'', JStr ''error'')])"

definition singbox_server :: "keys_of \<Rightarrow> bool \<Rightarrow> int \<Rightarrow> int \<Rightarrow> json res" where
  "singbox_server f reality sp cover =
     bind_res (singbox_tls_server f reality cover) (\<lambda>st.
     bind_res (jget ''secret'' (key_values f)) (\<lambda>secret.
     Inr (JObj [log_errors,
       (''inbounds'', JArr [JObj [(''type'', JStr ''anytls''), (''listen'', JStr ''127.0.0.1''), (''listen_port'', JInt sp),
          (''users'', JArr [JObj [(''name'', JStr ''test''), (''password'', secret)]]), (''tls'', st)]]),
       (''outbounds'', JArr [JObj [(''type'', JStr ''direct'')]])])))"

definition singbox_client :: "keys_of \<Rightarrow> bool \<Rightarrow> int \<Rightarrow> int \<Rightarrow> json res" where
  "singbox_client f reality sp cp =
     bind_res (singbox_tls_client f reality) (\<lambda>ct.
     bind_res (jget ''secret'' (key_values f)) (\<lambda>secret.
     Inr (JObj [log_errors,
       (''inbounds'', JArr [JObj [(''type'', JStr ''socks''), (''listen'', JStr ''127.0.0.1''), (''listen_port'', JInt cp)]]),
       (''outbounds'', JArr [JObj [(''type'', JStr ''anytls''), (''server'', JStr ''127.0.0.1''), (''server_port'', JInt sp),
          (''password'', secret), (''tls'', ct)]])])))"

definition is_veil :: "string \<Rightarrow> bool" where
  "is_veil variant \<longleftrightarrow> startswith variant ''veil''"

definition is_reality :: "string \<Rightarrow> bool" where
  "is_reality variant \<longleftrightarrow> contains ''reality'' variant"

definition server_config :: "keys_of \<Rightarrow> string \<Rightarrow> int \<Rightarrow> int \<Rightarrow> json res" where
  "server_config f variant sp cover =
     (if is_veil variant then veil_server f (is_reality variant) sp cover else singbox_server f (is_reality variant) sp cover)"

definition client_config :: "keys_of \<Rightarrow> string \<Rightarrow> int \<Rightarrow> int \<Rightarrow> json res" where
  "client_config f variant sp cp =
     (if is_veil variant then veil_client f (is_reality variant) sp cp else singbox_client f (is_reality variant) sp cp)"

definition binary :: "string \<Rightarrow> bool \<Rightarrow> string" where
  "binary variant server =
     (if is_veil variant then ''veil-'' else ''singbox-'') @
     (if \<not> contains ''opt'' variant then ''native'' else if server then ''openssl'' else ''batch'')"

definition binaries_of :: "site \<Rightarrow> string \<Rightarrow> path" where
  "binaries_of S variant = core_root S @ [''.build''] @ (if endswith variant ''-previous'' then [''previous''] else [])"

definition launch_command :: "site \<Rightarrow> string \<Rightarrow> bool \<Rightarrow> path \<Rightarrow> string list" where
  "launch_command S variant server config =
     [str (binaries_of S variant @ [binary variant server])] @ (if is_veil variant then [] else [''run'']) @
     [if is_veil variant then ''-config'' else ''-c'', str config]"

text \<open>
  The two configurations are built before either is written. In the sources the two TLS parts come first and the shared secret
  last; a missing key raises the same \<open>KeyError\<close>, before any effect.
\<close>

definition configs :: "keys_of \<Rightarrow> string \<Rightarrow> int \<Rightarrow> int \<Rightarrow> int \<Rightarrow> (json \<times> json) res" where
  "configs f variant sp cp cover =
     bind_res (if is_veil variant then veil_tls_server f (is_reality variant) cover
               else singbox_tls_server f (is_reality variant) cover) (\<lambda>_.
     bind_res (if is_veil variant then veil_tls_client f (is_reality variant)
               else singbox_tls_client f (is_reality variant)) (\<lambda>_.
     bind_res (server_config f variant sp cover) (\<lambda>server.
     bind_res (client_config f variant sp cp) (\<lambda>client. Inr (server, client)))))"

definition configurations ::
  "site \<Rightarrow> keys_of \<Rightarrow> string \<Rightarrow> int \<Rightarrow> int \<Rightarrow> int \<Rightarrow> (host, string list \<times> string list) io" where
  "configurations S f variant sp cp cover =
     bnd (lift_res (configs f variant sp cp cover)) (\<lambda>(server, client).
     bnd (on_files (save (fixture_folder f @ [''server.json'']) server)) (\<lambda>sf.
     bnd (on_files (save (fixture_folder f @ [''client.json'']) client)) (\<lambda>cf.
     ret (launch_command S variant True sf, launch_command S variant False cf))))"

section \<open>Processes\<close>

definition spawn_command :: "string list \<Rightarrow> string \<Rightarrow> string list" where
  "spawn_command cmd cores = (if cores \<noteq> [] then [''taskset'', ''-c'', cores] @ cmd else cmd)"

definition spawn_env :: "site \<Rightarrow> nat \<Rightarrow> env" where
  "spawn_env S procs = dict_update (core_env S) [(''GOMAXPROCS'', dec procs)]"

record process =
  alive :: bool
  heeds_term :: bool
  signals :: "string list"

text \<open>\<open>wait(timeout=5)\<close> returns for a process that ends; \<open>wait()\<close> after a \<open>SIGKILL\<close> always does.\<close>

definition stop :: "process \<Rightarrow> process" where
  "stop p =
     (if \<not> alive p then p
      else let p = p\<lparr>signals := signals p @ [''TERM'']\<rparr> in
        if heeds_term p then p\<lparr>alive := False\<rparr>
        else p\<lparr>signals := signals p @ [''KILL''], alive := False\<rparr>)"

text \<open>
  \<open>wait_port\<close>: three hundred attempts at most. \<open>exited i\<close> says whether the process has ended before attempt \<open>i\<close>, \<open>accepts i\<close> whether the
  connection succeeds then.
\<close>

fun wait_loop :: "string \<Rightarrow> string \<Rightarrow> (nat \<Rightarrow> bool) \<Rightarrow> (nat \<Rightarrow> bool) \<Rightarrow> nat \<Rightarrow> nat \<Rightarrow> nat res" where
  "wait_loop gone late exited accepts i 0 = Inl (TimeoutError late)"
| "wait_loop gone late exited accepts i (Suc k) =
     (if exited i then Inl (RuntimeError gone)
      else if accepts i then Inr i
      else wait_loop gone late exited accepts (Suc i) k)"

definition wait_port :: "string \<Rightarrow> (nat \<Rightarrow> bool) \<Rightarrow> (nat \<Rightarrow> bool) \<Rightarrow> nat res" where
  "wait_port args exited accepts =
     wait_loop (''process exited: '' @ args) ''listener did not start'' exited accepts 0 300"

definition network_wait_port :: "(nat \<Rightarrow> bool) \<Rightarrow> (nat \<Rightarrow> bool) \<Rightarrow> nat res" where
  "network_wait_port exited accepts = wait_loop ''proxy exited'' ''listener startup'' exited accepts 0 300"

section \<open>Laws\<close>

lemma chmod_stat:
  assumes "chmod p mode fs = (Inr u, fs')" and "stat fs p = Some (File c m)"
  shows "stat fs' p = Some (File c mode)"
proof -
  obtain q where q: "realpath fs p = Some q" "lookup fs q = Some (File c m)"
    using assms(2) by (auto simp: stat_def split: option.splits)
  then have fs': "fs' = put q (File c mode) fs" "q \<noteq> []"
    using assms(1) by (auto simp: chmod_def lookup_def split: if_splits)
  have "realpath fs' p = realpath fs p"
    unfolding realpath_def by (rule resolve_links) (use q fs' in \<open>simp add: lookup_put\<close>)
  then show ?thesis using q fs' by (simp add: stat_def lookup_put)
qed

lemma read_node_stat: "read_node p fs = (Inr c, fs') \<longleftrightarrow> fs' = fs \<and> (\<exists>m. stat fs p = Some (File c m))"
  by (auto simp: read_node_def split: option.splits node.splits)

lemma wait_loop_find:
  "wait_loop gone late exited accepts i k =
     (case List.find (\<lambda>j. exited j \<or> accepts j) [i..<i + k] of
        None \<Rightarrow> Inl (TimeoutError late)
      | Some j \<Rightarrow> if exited j then Inl (RuntimeError gone) else Inr j)"
proof (induction k arbitrary: i)
  case (Suc k)
  have "[i..<i + Suc k] = i # [Suc i..<Suc i + k]" by (simp add: upt_rec)
  then show ?case using Suc.IH [of "Suc i"] by auto
qed simp

lemma jget_other: "k \<noteq> k' \<Longrightarrow> jget k (JObj (dict_set k' v ks)) = jget k (JObj ks)"
  by (simp add: dict_get_def)

section \<open>Theorems\<close>

text \<open>
  A configuration that \<open>save\<close> returns from is complete and private: the file holds the printed value, which parses back to it, and
  only its owner may read it.
\<close>

theorem save_private:
  "case save p obj fs of
     (Inl e, fs') \<Rightarrow> True
   | (Inr q, fs') \<Rightarrow> q = p \<and> (\<exists>text. stat fs' p = Some (File (Bytes text) mode_600) \<and>
        (if json_ok obj then loads text = Inr obj else True))"
proof (cases "save p obj fs")
  case (Pair r fs')
  show ?thesis
  proof (cases r)
    case (Inr q)
    with Pair obtain fs1 where w: "write_content p (Bytes (dumps (Some 2) obj @ [nl])) fs = (Inr (), fs1)"
      and c: "chmod p mode_600 fs1 = (Inr (), fs')" and "q = p"
      by (auto simp: save_def write_text_def seq_Inr_iff ret_iff)
    have "\<exists>m. stat fs1 p = Some (File (Bytes (dumps (Some 2) obj @ [nl])) m)"
      using write_then_read [OF w] by (simp add: read_node_stat)
    then show ?thesis using chmod_stat [OF c] loads_dumps [of obj "Some 2"] Pair Inr \<open>q = p\<close> by auto
  qed (simp add: Pair)
qed

text \<open>
  The configuration of a client does not depend on the server's private key: with any two private keys it is the same, in every variant.
\<close>

theorem client_config_ignores_private_key:
  "client_config (f\<lparr>key_values := JObj (dict_set ''reality_private_key'' v ks)\<rparr>) variant sp cp =
   client_config (f\<lparr>key_values := JObj (dict_set ''reality_private_key'' w ks)\<rparr>) variant sp cp"
  by (simp add: client_config_def veil_client_def veil_tls_client_def singbox_client_def singbox_tls_client_def
      jget_other del: jget.simps)

text \<open>
  Server and client of a variant belong together: the client connects to the port the server listens on, with the same
  shared secret and for the same server name.
\<close>

theorem configs_agree:
  "case configs f variant sp cp cover of
     Inl e \<Rightarrow> True
   | Inr (server, client) \<Rightarrow>
       (\<exists>secret. jget ''secret'' (key_values f) = Inr secret \<and>
         (if is_veil variant
          then jget ''listen'' server = jget ''server'' client \<and> jget ''secret'' server = Inr secret \<and> jget ''secret'' client = Inr secret \<and>
            (\<exists>st ct. jget ''tls'' server = Inr st \<and> jget ''tls'' client = Inr ct \<and>
               jget ''server_name'' st = jget ''server_name'' ct \<and> jget ''mode'' st = jget ''mode'' ct)
          else \<exists>inb outb st ct. jget ''inbounds'' server = Inr (JArr [inb]) \<and> jget ''outbounds'' client = Inr (JArr [outb]) \<and>
            jget ''listen'' inb = jget ''server'' outb \<and> jget ''listen_port'' inb = jget ''server_port'' outb \<and>
            jget ''users'' inb = Inr (JArr [JObj [(''name'', JStr ''test''), (''password'', secret)]]) \<and> jget ''password'' outb = Inr secret \<and>
            jget ''tls'' inb = Inr st \<and> jget ''tls'' outb = Inr ct \<and> jget ''server_name'' st = jget ''server_name'' ct))"
proof (cases "is_veil variant")
  case True
  then show ?thesis
    by (auto simp: configs_def server_config_def client_config_def veil_server_def veil_client_def veil_tls_server_def
        veil_tls_client_def Let_def dict_get_def dict_update_def bind_res_def split: sum.splits)
next
  case False
  then show ?thesis
    by (auto simp: configs_def server_config_def client_config_def singbox_server_def singbox_client_def singbox_tls_server_def
        singbox_tls_client_def singbox_tls_def log_errors_def dict_get_def dict_update_def bind_res_def split: sum.splits)
qed

text \<open>
  Waiting for a port ends after three hundred attempts at most: it returns at the first attempt that connects, unless the process
  has ended by then, which is reported, and times out when none connects.
\<close>

theorem wait_port_first:
  "wait_port args exited accepts =
     (case List.find (\<lambda>i. exited i \<or> accepts i) [0..<300] of
        None \<Rightarrow> Inl (TimeoutError ''listener did not start'')
      | Some i \<Rightarrow> if exited i then Inl (RuntimeError (''process exited: '' @ args)) else Inr i)"
  by (simp only: wait_port_def wait_loop_find add_0)

text \<open>
  \<open>stop\<close> leaves no process running, and sends \<open>SIGKILL\<close> only to a process that ignored \<open>SIGTERM\<close>.
\<close>

theorem stop_ends:
  "\<not> alive (stop p) \<and>
   signals (stop p) = signals p @ (if \<not> alive p then [] else if heeds_term p then [''TERM''] else [''TERM'', ''KILL''])"
  by (simp add: stop_def Let_def)

end
