(* ===== verification/Sockets.thy ===== *)
theory Sockets
  imports Wire_Records
begin

text \<open>
  Reading from sockets: the loops \<open>receive\<close>, \<open>read_exact\<close> and \<open>read\<close> that collect a fixed number of bytes, the
  SOCKS handshakes of \<^verbatim>\<open>traffic_shapes.py\<close> and \<^verbatim>\<open>network_smoke.py\<close>, the probe \<open>sample\<close> of \<^verbatim>\<open>probe.py\<close>, and the
  read of the record in \<^verbatim>\<open>browser_hello.py\<close>. A connection is the list of what arrives on it, in the pieces
  the network makes of it, and the bytes sent; each \<open>recv\<close> returns at most one piece.
\<close>

section \<open>Connections\<close>

datatype incoming =
    Chunk bytes
  | End
  | Reset
  | Silence

record conn =
  arrives :: "incoming list"
  sent :: bytes
  open_conn :: bool

abbreviation timed_out :: exn where "timed_out \<equiv> TimeoutError ''timed out''"
abbreviation reset_by_peer :: exn where "reset_by_peer \<equiv> OSError ''ConnectionResetError''"

text \<open>\<open>recv\<close> with a timeout: the empty byte string at the end of the stream; an empty piece is no event.\<close>

fun recv_from :: "nat \<Rightarrow> incoming list \<Rightarrow> bytes res \<times> incoming list" where
  "recv_from n (Chunk b # es) =
     (if b = [] then recv_from n es
      else (Inr (take n b), if length b \<le> n then es else Chunk (drop n b) # es))"
| "recv_from n (End # es) = (Inr [], End # es)"
| "recv_from n (Reset # es) = (Inl reset_by_peer, es)"
| "recv_from n (Silence # es) = (Inl timed_out, es)"
| "recv_from n [] = (Inl timed_out, [])"

definition recv :: "nat \<Rightarrow> (conn, bytes) io" where
  "recv n c = (case recv_from n (arrives c) of (r, es) \<Rightarrow> (r, c\<lparr>arrives := es\<rparr>))"

definition sendall :: "bytes \<Rightarrow> (conn, unit) io" where
  "sendall b = modify (\<lambda>c. c\<lparr>sent := sent c @ b\<rparr>)"

definition close_conn :: "(conn, unit) io" where
  "close_conn = modify (\<lambda>c. c\<lparr>open_conn := False\<rparr>)"

section \<open>Collecting bytes\<close>

text \<open>
  The loop of \<open>receive\<close>, \<open>read_exact\<close> and \<open>read\<close>, over any source of pieces; the first argument is the exception for a
  stream that ends early.
\<close>

function collect :: "(nat \<Rightarrow> 's \<Rightarrow> bytes res \<times> 's) \<Rightarrow> exn \<Rightarrow> nat \<Rightarrow> bytes \<Rightarrow> 's \<Rightarrow> bytes res \<times> 's" where
  "collect rcv e n data s =
     (if length data < n then
        (case rcv (n - length data) s of
           (Inl x, s') \<Rightarrow> (Inl x, s')
         | (Inr part, s') \<Rightarrow> if part = [] then (Inl e, s') else collect rcv e n (data @ part) s')
      else (Inr data, s))"
  by pat_completeness auto
termination
  by (relation "measure (\<lambda>(rcv, e, n, data, s). n - length data)") (auto intro: diff_less_mono2)

declare collect.simps [simp del]

definition receive :: "nat \<Rightarrow> (conn, bytes) io" where
  "receive n = collect recv (EOFError ''SOCKS handshake truncated'') n []"

definition read_exact :: "nat \<Rightarrow> (conn, bytes) io" where
  "read_exact n = collect recv (EOFError ''truncated ClientHello'') n []"

definition read_response :: "nat \<Rightarrow> (conn, bytes) io" where
  "read_response n = collect recv (EOFError ''truncated response'') n []"

section \<open>SOCKS handshakes\<close>

definition to_port :: "nat \<Rightarrow> bytes res" where
  "to_port p = (if p < 65536 then Inr (to_bytes_big2 p) else Inl (ValueError ''OverflowError''))"

text \<open>\<open>try: ... except BaseException: c.close(); raise\<close>\<close>

definition closing :: "(conn, 'a) io \<Rightarrow> (conn, 'a) io" where
  "closing m = try_except m (\<lambda>_. True) (\<lambda>e. seq close_conn (raise e))"

text \<open>
  \<open>connect\<close> of \<^verbatim>\<open>traffic_shapes.py\<close> up to the TLS handshake, which belongs to the \<open>ssl\<close> module; \<open>addr\<close> is the address
  that \<open>inet_aton\<close> made of the host.
\<close>

definition socks_connect :: "(bytes \<times> nat) option \<Rightarrow> (conn, unit) io" where
  "socks_connect target = (case target of
      None \<Rightarrow> ret ()
    | Some (addr, p) \<Rightarrow>
        seq (sendall [5, 1, 0])
        (bnd (receive 2) (\<lambda>reply.
        if reply \<noteq> [5, 0] then raise (ValueError ''SOCKS authentication'')
        else bnd (lift_res (to_port p)) (\<lambda>pb.
        seq (sendall ([5, 1, 0, 1] @ addr @ pb))
        (bnd (receive 10) (\<lambda>reply.
        if take 4 reply \<noteq> [5, 0, 0, 1] then raise (ValueError ''SOCKS open failed'') else ret ()))))))"

definition connect :: "(bytes \<times> nat) option \<Rightarrow> (conn, unit) io" where
  "connect target = closing (socks_connect target)"

text \<open>\<open>socks\<close> of \<^verbatim>\<open>network_smoke.py\<close>: to a port of the own host, looking at the status byte only.\<close>

definition socks :: "nat \<Rightarrow> (conn, unit) io" where
  "socks target_port =
     closing (seq (sendall [5, 1, 0])
     (bnd (read_response 2) (\<lambda>reply.
     if reply \<noteq> [5, 0] then raise (AssertionError [])
     else bnd (lift_res (to_port target_port)) (\<lambda>pb.
     seq (sendall ([5, 1, 0, 1, 0x7F, 0, 0, 1] @ pb))
     (bnd (read_response 10) (\<lambda>reply.
     bnd (lift_res (at reply 1)) (\<lambda>status.
     if status \<noteq> 0 then raise (OSError (''SOCKS status '' @ dec (unat status))) else ret ())))))))"

section \<open>Probing\<close>

text \<open>The loop of \<open>sample\<close>: up to 65536 bytes, and how the reading ended.\<close>

function sample_loop :: "bytes \<Rightarrow> conn \<Rightarrow> (bytes \<times> string) res \<times> conn" where
  "sample_loop data c =
     (if length data < 65536 then
        (case recv (65536 - length data) c of
           (Inr p, c') \<Rightarrow> if p = [] then (Inr (data, ''eof''), c') else sample_loop (data @ p) c'
         | (Inl e, c') \<Rightarrow>
             if e = timed_out then (Inr (data, ''timeout''), c')
             else if e = reset_by_peer then (Inr (data, ''reset''), c') else (Inl e, c'))
      else (Inr (data, ''timeout''), c))"
  by pat_completeness auto
termination
  by (relation "measure (\<lambda>(data, c). 65536 - length data)") (auto intro: diff_less_mono2)

declare sample_loop.simps [simp del]

record sampled =
  sample_bytes :: nat
  sample_records :: "(nat \<times> nat) list"
  sample_outcome :: string

definition sample :: "bytes \<Rightarrow> (conn, sampled) io" where
  "sample payload =
     seq (when_io (payload \<noteq> []) (sendall payload))
     (bnd (sample_loop []) (\<lambda>(data, outcome).
     ret \<lparr>sample_bytes = length data, sample_records = sample_records_loop data 0 [], sample_outcome = outcome\<rparr>))"

section \<open>What a stream holds\<close>

text \<open>The bytes that arrive before anything else does, and what comes after them: the end, or an exception.\<close>

fun available :: "incoming list \<Rightarrow> bytes" where
  "available (Chunk b # es) = b @ available es"
| "available es = []"

fun ending :: "incoming list \<Rightarrow> exn option" where
  "ending (Chunk b # es) = ending es"
| "ending (End # es) = None"
| "ending (Reset # es) = Some reset_by_peer"
| "ending es = Some timed_out"

text \<open>The interface the loops rely on: a source gives what it holds in pieces of its own choice.\<close>

locale byte_source =
  fixes rcv :: "nat \<Rightarrow> 's \<Rightarrow> bytes res \<times> 's"
    and held :: "'s \<Rightarrow> bytes"
    and ends :: "'s \<Rightarrow> exn option"
  assumes more: "0 < n \<Longrightarrow> held s \<noteq> [] \<Longrightarrow>
      \<exists>b s'. rcv n s = (Inr b, s') \<and> b \<noteq> [] \<and> length b \<le> n \<and> held s = b @ held s' \<and> ends s' = ends s"
    and over: "held s = [] \<Longrightarrow> ends s = None \<Longrightarrow> \<exists>s'. rcv n s = (Inr [], s')"
    and broken: "held s = [] \<Longrightarrow> ends s = Some e \<Longrightarrow> \<exists>s'. rcv n s = (Inl e, s')"
begin

lemma collect_enough:
  assumes "length data \<le> n" and "n \<le> length data + length (held s)"
  shows "\<exists>s'. collect rcv e n data s = (Inr (data @ take (n - length data) (held s)), s') \<and>
    held s' = drop (n - length data) (held s) \<and> ends s' = ends s"
  using assms
proof (induction "n - length data" arbitrary: data s rule: less_induct)
  case less
  show ?case
  proof (cases "length data < n")
    case True
    then have "held s \<noteq> []" using less.prems by auto
    then obtain b s' where step: "rcv (n - length data) s = (Inr b, s')" "b \<noteq> []" "length b \<le> n - length data"
        "held s = b @ held s'" "ends s' = ends s"
      using more [of "n - length data" s] True by auto
    have "n - length (data @ b) < n - length data" "length (data @ b) \<le> n" "n \<le> length (data @ b) + length (held s')"
      using step less.prems True by (cases b; simp)+
    from less.hyps [OF this] step True less.prems show ?thesis
      by (auto simp: collect.simps [of rcv e n data s])
  next
    case False
    then show ?thesis using less.prems by (simp add: collect.simps [of rcv e n data s])
  qed
qed

lemma collect_short:
  assumes "length data + length (held s) < n"
  shows "\<exists>s'. collect rcv e n data s = (Inl (case ends s of None \<Rightarrow> e | Some x \<Rightarrow> x), s')"
  using assms
proof (induction "n - length data" arbitrary: data s rule: less_induct)
  case less
  show ?case
  proof (cases "held s = []")
    case True
    then show ?thesis
      using less.prems over [of s "n - length data"] broken [of s _ "n - length data"]
      by (cases "ends s") (auto simp: collect.simps [of rcv e n data s])
  next
    case False
    then obtain b s' where step: "rcv (n - length data) s = (Inr b, s')" "b \<noteq> []" "length b \<le> n - length data"
        "held s = b @ held s'" "ends s' = ends s"
      using more [of "n - length data" s] less.prems by auto
    have "n - length (data @ b) < n - length data" "length (data @ b) + length (held s') < n"
      using step less.prems by (cases b; simp)+
    from less.hyps [OF this] step less.prems show ?thesis
      by (auto simp: collect.simps [of rcv e n data s])
  qed
qed

end

lemma recv_from_more:
  "0 < n \<Longrightarrow> available es \<noteq> [] \<Longrightarrow>
   \<exists>b es'. recv_from n es = (Inr b, es') \<and> b \<noteq> [] \<and> length b \<le> n \<and> available es = b @ available es' \<and> ending es' = ending es"
proof (induction n es rule: recv_from.induct)
  case (1 n b es)
  then show ?case by (cases "b = []") auto
qed auto

lemma recv_from_over:
  "available es = [] \<Longrightarrow> \<exists>es'. recv_from n es = (case ending es of None \<Rightarrow> Inr [] | Some e \<Rightarrow> Inl e, es')"
  by (induction n es rule: recv_from.induct) auto

interpretation sock: byte_source recv "\<lambda>c. available (arrives c)" "\<lambda>c. ending (arrives c)"
proof
  fix n and c :: conn
  show "\<exists>b c'. recv n c = (Inr b, c') \<and> b \<noteq> [] \<and> length b \<le> n \<and> available (arrives c) = b @ available (arrives c') \<and>
      ending (arrives c') = ending (arrives c)" if "0 < n" "available (arrives c) \<noteq> []"
    using recv_from_more [OF that] by (auto simp: recv_def)
  show "\<exists>c'. recv n c = (Inr [], c')" if "available (arrives c) = []" "ending (arrives c) = None"
    using recv_from_over [OF that(1), of n] that(2) by (auto simp: recv_def)
  show "\<exists>c'. recv n c = (Inl e, c')" if "available (arrives c) = []" "ending (arrives c) = Some e" for e
    using recv_from_over [OF that(1), of n] that(2) by (auto simp: recv_def)
qed

text \<open>\<open>recv\<close> touches nothing but what arrives, and so does the loop over it.\<close>

lemma collect_arrives: "\<exists>es. snd (collect recv e n data c) = c\<lparr>arrives := es\<rparr>"
proof (induction "n - length data" arbitrary: data c rule: less_induct)
  case less
  obtain r es where step: "recv (n - length data) c = (r, c\<lparr>arrives := es\<rparr>)"
    by (cases "recv_from (n - length data) (arrives c)") (simp add: recv_def)
  show ?case
  proof (cases "length data < n \<and> (\<exists>part. r = Inr part \<and> part \<noteq> [])")
    case True
    then obtain part where part: "r = Inr part" "part \<noteq> []" "length data < n" by blast
    then have "n - length (data @ part) < n - length data" by (simp add: diff_less_mono2)
    from less.hyps [OF this, of "c\<lparr>arrives := es\<rparr>"] show ?thesis
      using step part by (simp add: collect.simps [of recv e n data c])
  next
    case False
    moreover have "\<exists>es. c = c\<lparr>arrives := es\<rparr>" by (rule exI [of _ "arrives c"]) simp
    ultimately show ?thesis using step by (auto simp: collect.simps [of recv e n data c] split: sum.splits)
  qed
qed

text \<open>
  The contract of the three loops: they return the next \<open>n\<close> bytes however these were cut into pieces, leaving the rest, or raise the
  exception of the stream, with the given one for its end.
\<close>

definition collects :: "(nat \<Rightarrow> (conn, bytes) io) \<Rightarrow> exn \<Rightarrow> bool" where
  "collects m e \<longleftrightarrow> (\<forall>n c. let held = available (arrives c) in
     if n \<le> length held
     then \<exists>es. m n c = (Inr (take n held), c\<lparr>arrives := es\<rparr>) \<and> available es = drop n held \<and> ending es = ending (arrives c)
     else \<exists>es. m n c = (Inl (case ending (arrives c) of None \<Rightarrow> e | Some x \<Rightarrow> x), c\<lparr>arrives := es\<rparr>))"

lemma collect_collects: "collects (\<lambda>n. collect recv e n []) e"
  unfolding collects_def Let_def
proof (intro allI)
  fix n c
  obtain r c' where run: "collect recv e n [] c = (r, c')" by (cases "collect recv e n [] c")
  obtain es where es: "c' = c\<lparr>arrives := es\<rparr>" using collect_arrives [of e n "[]" c] run by auto
  show "if n \<le> length (available (arrives c))
     then \<exists>es. collect recv e n [] c = (Inr (take n (available (arrives c))), c\<lparr>arrives := es\<rparr>) \<and>
       available es = drop n (available (arrives c)) \<and> ending es = ending (arrives c)
     else \<exists>es. collect recv e n [] c = (Inl (case ending (arrives c) of None \<Rightarrow> e | Some x \<Rightarrow> x), c\<lparr>arrives := es\<rparr>)"
    using sock.collect_enough [of "[]" n c e] sock.collect_short [of "[]" c n e] run es by auto
qed

lemma collects_enough:
  assumes "collects m e" and "n \<le> length (available (arrives c))"
  shows "\<exists>es. m n c = (Inr (take n (available (arrives c))), c\<lparr>arrives := es\<rparr>) \<and>
    available es = drop n (available (arrives c)) \<and> ending es = ending (arrives c)"
  using assms unfolding collects_def Let_def by presburger

lemma collects_short:
  assumes "collects m e" and "length (available (arrives c)) < n"
  shows "\<exists>x es. m n c = (Inl x, c\<lparr>arrives := es\<rparr>)"
  using assms unfolding collects_def Let_def by (metis linorder_not_le)

lemma collects_cut:
  assumes "collects m e" and "length (available (arrives c)) < n"
  shows "\<exists>es. m n c = (Inl (case ending (arrives c) of None \<Rightarrow> e | Some x \<Rightarrow> x), c\<lparr>arrives := es\<rparr>)"
  using assms unfolding collects_def Let_def by (metis linorder_not_le)

lemma receive_collects: "collects receive (EOFError ''SOCKS handshake truncated'')"
  using collect_collects unfolding receive_def by simp

lemma socks_connect_run:
  "case socks_connect (Some (addr, p)) c of
     (r, c') \<Rightarrow> (let held = available (arrives c) in
       open_conn c' = open_conn c \<and>
       (r = Inr () \<longleftrightarrow> 12 \<le> length held \<and> take 2 held = [5, 0] \<and> p < 65536 \<and> slice 2 6 held = [5, 0, 0, 1]) \<and>
       (r = Inr () \<longrightarrow> sent c' = sent c @ [5, 1, 0] @ [5, 1, 0, 1] @ addr @ to_bytes_big2 p \<and> available (arrives c') = drop 12 held))"
proof -
  define held where "held = available (arrives c)"
  let ?c1 = "c\<lparr>sent := sent c @ [5, 1, 0]\<rparr>"
  have sent1: "sendall [5, 1, 0] c = (Inr (), ?c1)" by (simp add: sendall_def modify_def)
  have held1: "available (arrives ?c1) = held" by (simp add: held_def)
  consider (short) "length held < 2" | (enough) "2 \<le> length held" by linarith
  then show ?thesis
  proof cases
    case short
    then obtain x es where "receive 2 ?c1 = (Inl x, ?c1\<lparr>arrives := es\<rparr>)"
      using collects_short [OF receive_collects, of ?c1 2] held1 by auto
    then show ?thesis using sent1 short by (simp add: socks_connect_def seq_def bnd_def Let_def held_def)
  next
    case enough
    then obtain es where r2: "receive 2 ?c1 = (Inr (take 2 held), ?c1\<lparr>arrives := es\<rparr>)" and es: "available es = drop 2 held"
      using collects_enough [OF receive_collects, of 2 ?c1] held1 by auto
    let ?c2 = "?c1\<lparr>arrives := es\<rparr>"
    show ?thesis
    proof (cases "take 2 held = [5, 0] \<and> p < 65536")
      case False
      then show ?thesis using sent1 r2
        by (auto simp: socks_connect_def seq_def bnd_def Let_def held_def raise_def lift_res_def to_port_def)
    next
      case True
      let ?c3 = "?c2\<lparr>sent := sent ?c2 @ [5, 1, 0, 1] @ addr @ to_bytes_big2 p\<rparr>"
      have sent3: "sendall ([5, 1, 0, 1] @ addr @ to_bytes_big2 p) ?c2 = (Inr (), ?c3)" by (simp add: sendall_def modify_def)
      have held3: "available (arrives ?c3) = drop 2 held" by (simp add: es)
      show ?thesis
      proof (cases "12 \<le> length held")
        case False
        then have "length (available (arrives ?c3)) < 10" by (simp add: es)
        then obtain x es' where "receive 10 ?c3 = (Inl x, ?c3\<lparr>arrives := es'\<rparr>)"
          using collects_short [OF receive_collects] by blast
        then show ?thesis using sent1 r2 True sent3 False
          by (simp add: socks_connect_def seq_def bnd_def Let_def held_def lift_res_def to_port_def)
      next
        case True12: True
        then have "10 \<le> length (available (arrives ?c3))" by (simp add: es)
        then obtain es' where r10: "receive 10 ?c3 = (Inr (take 10 (drop 2 held)), ?c3\<lparr>arrives := es'\<rparr>)"
            "available es' = drop 10 (drop 2 held)"
          using collects_enough [OF receive_collects] held3 by metis
        have "take 4 (take 10 (drop 2 held)) = slice 2 6 held" by (simp add: slice_def)
        then show ?thesis using sent1 r2 True sent3 r10 True12
          by (simp add: socks_connect_def seq_def bnd_def Let_def held_def lift_res_def to_port_def raise_def ret_def)
      qed
    qed
  qed
qed

lemma ending_cases: "ending es = None \<or> ending es = Some timed_out \<or> ending es = Some reset_by_peer"
  by (induction es rule: ending.induct) auto

lemma sample_loop_run:
  assumes "length data \<le> 65536"
  shows "fst (sample_loop data c) =
    Inr (take 65536 (data @ available (arrives c)),
      if 65536 \<le> length data + length (available (arrives c)) then ''timeout''
      else case ending (arrives c) of None \<Rightarrow> ''eof'' | Some e \<Rightarrow> if e = timed_out then ''timeout'' else ''reset'')"
  using assms
proof (induction data c rule: sample_loop.induct)
  case (1 data c)
  let ?n = "65536 - length data" and ?held = "available (arrives c)"
  show ?case
  proof (cases "length data < 65536 \<and> ?held \<noteq> []")
    case True
    then obtain b c' where step: "recv ?n c = (Inr b, c')" "b \<noteq> []" "length b \<le> ?n" "?held = b @ available (arrives c')"
        "ending (arrives c') = ending (arrives c)"
      using sock.more [of ?n c] by auto
    then have "length (data @ b) \<le> 65536" using "1.prems" by simp
    then show ?thesis
      using "1.IH" [OF _ step(1) [symmetric]] step True by (simp add: sample_loop.simps [of data c] add.assoc)
  next
    case False
    show ?thesis
      using False "1.prems" sock.over [of c ?n] sock.broken [of c _ ?n]
        ending_cases [of "arrives c"] by (auto simp: sample_loop.simps [of data c])
  qed
qed

lemma read_exact_collects: "collects read_exact (EOFError ''truncated ClientHello'')"
  using collect_collects unfolding read_exact_def by simp

section \<open>Theorems\<close>

text \<open>
  C22. \<open>receive\<close>, \<open>read_exact\<close> and \<open>read\<close> return the next \<open>n\<close> bytes of the stream, however the network cut it into pieces, and leave the
  rest unread; when fewer arrive they raise their own \<open>EOFError\<close> at the end of the stream, or the timeout or the reset that came first.
\<close>

theorem loops_collect:
  "collects receive (EOFError ''SOCKS handshake truncated'') \<and>
   collects read_exact (EOFError ''truncated ClientHello'') \<and>
   collects read_response (EOFError ''truncated response'')"
  using collect_collects unfolding receive_def read_exact_def read_response_def by simp




end
