(* ===== verification/Captures.thy ===== *)
theory Captures
  imports Sockets Client_Hello Py_Text
begin

text \<open>
  Recording traffic: the relays \<open>Capture\<close> of \<^verbatim>\<open>probe.py\<close> and \<open>CaptureGroup\<close> of \<^verbatim>\<open>browser_shapes.py\<close>, each with two threads that
  pump one direction of a connection, the summary \<open>shapes\<close> of \<^verbatim>\<open>traffic_shapes.py\<close>, and the capture of a ClientHello in
  \<^verbatim>\<open>browser_hello.py\<close>. The threads share the list of events, so a relay is a step relation in which they interleave.
\<close>

section \<open>A browser's ClientHello\<close>

text \<open>The body of \<open>capture\<close> once the browser has connected.\<close>

definition captured_hello :: "(bytes \<Rightarrow> string) \<Rightarrow> (conn, hello_result) io" where
  "captured_hello sh =
     bnd (read_exact 5) (\<lambda>header.
     let n = from_bytes_big (slice 3 5 header) in
     if header ! 0 \<noteq> 22 \<or> 16384 < n then raise (ValueError ''unexpected browser TLS record'')
     else bnd (read_exact n) (\<lambda>record. lift_res (hello sh record)))"

section \<open>Relays\<close>

datatype direction = Up | Down

record event =
  direction :: direction
  size_bytes :: nat
  at_time :: int

text \<open>
  What a thread is doing: waiting for data, about to forward what it received, or finished with an outcome. \<open>wire\<close> and \<open>events\<close> are the
  fields of the capture, \<open>pending\<close> what is still to arrive from each side, \<open>forwarded\<close> what was sent on.
\<close>

datatype phase =
    Waiting
  | Sending bytes
  | Finished string

record relay =
  wire :: "direction \<Rightarrow> bytes"
  events :: "event list"
  pending :: "direction \<Rightarrow> incoming list"
  forwarded :: "direction \<Rightarrow> bytes"
  phase_of :: "direction \<Rightarrow> phase"
  errors :: "string list"

text \<open>
  How a chunk is added to what was recorded: \<open>Capture\<close> leaves out a chunk that would exceed 16 MiB, \<open>CaptureGroup\<close> raises a \<open>ValueError\<close>
  beyond 4 MiB.
\<close>

definition capture_keep :: "bytes \<Rightarrow> bytes \<Rightarrow> bytes option" where
  "capture_keep recorded data =
     Some (if length recorded + length data \<le> 16 * 2 ^ 20 then recorded @ data else recorded)"

definition group_keep :: "bytes \<Rightarrow> bytes \<Rightarrow> bytes option" where
  "group_keep recorded data =
     (if length recorded + length data > 4 * 2 ^ 20 then None else Some (recorded @ data))"

text \<open>One turn of the loop up to \<open>sendall\<close>: receive, record, note the event.\<close>

definition record_chunk :: "direction \<Rightarrow> bytes \<Rightarrow> int \<Rightarrow> bytes \<Rightarrow> relay \<Rightarrow> relay" where
  "record_chunk d data t recorded s =
     s\<lparr>wire := (wire s)(d := recorded),
       events := events s @ [\<lparr>direction = d, size_bytes = length data, at_time = t\<rparr>],
       phase_of := (phase_of s)(d := Sending data)\<rparr>"

definition finish :: "direction \<Rightarrow> string \<Rightarrow> relay \<Rightarrow> relay" where
  "finish d outcome s = s\<lparr>phase_of := (phase_of s)(d := Finished outcome)\<rparr>"

definition take_pending :: "direction \<Rightarrow> incoming list \<Rightarrow> relay \<Rightarrow> relay" where
  "take_pending d es s = s\<lparr>pending := (pending s)(d := es)\<rparr>"

definition outcome_of :: "exn \<Rightarrow> string" where
  "outcome_of e = (if e = reset_by_peer then ''reset'' else ''socket-error'')"

inductive pump :: "(bytes \<Rightarrow> bytes \<Rightarrow> bytes option) \<Rightarrow> relay \<Rightarrow> relay \<Rightarrow> bool" for keep where
  recorded: "phase_of s d = Waiting \<Longrightarrow> recv_from 131072 (pending s d) = (Inr data, es) \<Longrightarrow> data \<noteq> [] \<Longrightarrow>
     keep (wire s d) data = Some w \<Longrightarrow> pump keep s (record_chunk d data t w (take_pending d es s))"
| full: "phase_of s d = Waiting \<Longrightarrow> recv_from 131072 (pending s d) = (Inr data, es) \<Longrightarrow> data \<noteq> [] \<Longrightarrow>
     keep (wire s d) data = None \<Longrightarrow>
     pump keep s (finish d ''capture-error'' (take_pending d es s\<lparr>errors := errors s @ [''fixture capture limit'']\<rparr>))"
| closed: "phase_of s d = Waiting \<Longrightarrow> recv_from 131072 (pending s d) = (Inr [], es) \<Longrightarrow>
     pump keep s (finish d ''eof'' (take_pending d es s))"
| broken: "phase_of s d = Waiting \<Longrightarrow> recv_from 131072 (pending s d) = (Inl e, es) \<Longrightarrow>
     pump keep s (finish d (outcome_of e) (take_pending d es s))"
| sent: "phase_of s d = Sending data \<Longrightarrow>
     pump keep s (s\<lparr>forwarded := (forwarded s)(d := forwarded s d @ data), phase_of := (phase_of s)(d := Waiting)\<rparr>)"
| unsent: "phase_of s d = Sending data \<Longrightarrow> pump keep s (finish d (outcome_of e) s)"

definition started :: "(direction \<Rightarrow> incoming list) \<Rightarrow> relay" where
  "started streams =
     \<lparr>wire = \<lambda>_. [], events = [], pending = streams, forwarded = \<lambda>_. [], phase_of = \<lambda>_. Waiting, errors = []\<rparr>"

section \<open>Shapes\<close>

text \<open>Events in one direction that follow each other make one burst, which starts at the time of its first event.\<close>

fun bursts :: "event list \<Rightarrow> event list \<Rightarrow> event list" where
  "bursts acc [] = acc"
| "bursts acc (e # es) =
     (if acc \<noteq> [] \<and> direction (last acc) = direction e
      then bursts (butlast acc @ [(last acc)\<lparr>size_bytes := size_bytes (last acc) + size_bytes e\<rparr>]) es
      else bursts (acc @ [e]) es)"

record shape_report =
  shape_records :: "direction \<Rightarrow> (nat \<times> nat) list"
  wire_bytes :: "direction \<Rightarrow> nat"
  burst_list :: "(direction \<times> nat \<times> int) list"

text \<open>Times are counted from the first event; their rounding to milliseconds is left out.\<close>

definition shapes :: "relay \<Rightarrow> shape_report res" where
  "shapes s =
     bind_res (records (wire s Up)) (\<lambda>up.
     bind_res (records (wire s Down)) (\<lambda>down.
     let start = (case events s of [] \<Rightarrow> 0 | e # _ \<Rightarrow> at_time e) in
     Inr \<lparr>shape_records = (\<lambda>d. map shape (case d of Up \<Rightarrow> up | Down \<Rightarrow> down)),
          wire_bytes = (\<lambda>d. length (wire s d)),
          burst_list = map (\<lambda>b. (direction b, size_bytes b, at_time b - start)) (bursts [] (events s))\<rparr>))"

text \<open>\<open>result\<close> of \<open>CaptureGroup\<close>: the shapes of the connections that carried anything, with how they ended.\<close>

definition carried :: "relay \<Rightarrow> bool" where
  "carried s \<longleftrightarrow> wire s Up \<noteq> [] \<or> wire s Down \<noteq> []"

definition ends_of :: "relay \<Rightarrow> (direction \<times> string) list" where
  "ends_of s = List.map_filter (\<lambda>d. case phase_of s d of Finished outcome \<Rightarrow> Some (d, outcome) | _ \<Rightarrow> None) [Up, Down]"

definition group_result :: "string list \<Rightarrow> relay list \<Rightarrow> (shape_report \<times> (direction \<times> string) list) list res" where
  "group_result errs connections =
     (if errs \<noteq> [] then Inl (RuntimeError (''capture failed: '' @ join ''; '' errs))
      else map_res (\<lambda>s. bind_res (shapes s) (\<lambda>r. Inr (r, ends_of s))) (filter carried connections))"

section \<open>What a relay keeps\<close>

definition recorded_bytes :: "relay \<Rightarrow> direction \<Rightarrow> nat" where
  "recorded_bytes s d = sum_list (map size_bytes (filter (\<lambda>e. direction e = d) (events s)))"

text \<open>
  The history of one direction: \<open>got\<close> is what its thread has recorded so far, a part of the stream of which all but the chunk it is about to send was
  forwarded.
\<close>

definition history :: "nat \<Rightarrow> (direction \<Rightarrow> incoming list) \<Rightarrow> relay \<Rightarrow> direction \<Rightarrow> bytes \<Rightarrow> bool" where
  "history limit streams s d got \<longleftrightarrow>
     prefix got (available (streams d)) \<and> recorded_bytes s d = length got \<and> prefix (forwarded s d) got \<and>
     length (wire s d) \<le> limit \<and> (length got \<le> limit \<longrightarrow> wire s d = got) \<and>
     (case phase_of s d of
        Waiting \<Rightarrow> available (streams d) = got @ available (pending s d) \<and> forwarded s d = got
      | Sending b \<Rightarrow> available (streams d) = got @ available (pending s d) \<and> got = forwarded s d @ b
      | Finished _ \<Rightarrow> True)"

lemma history_frame:
  assumes "history limit streams s d got"
    and "recorded_bytes s' d = recorded_bytes s d" "forwarded s' d = forwarded s d" "wire s' d = wire s d"
      "phase_of s' d = phase_of s d" "pending s' d = pending s d"
  shows "history limit streams s' d got"
  using assms by (auto simp: history_def split: phase.splits)

lemma history_finished:
  assumes "\<exists>got. history limit streams s d got"
    and "events s' = events s" "forwarded s' = forwarded s" "wire s' = wire s"
      "phase_of s' = (phase_of s)(c := Finished outcome)" "\<And>q. q \<noteq> c \<Longrightarrow> pending s' q = pending s q"
  shows "\<exists>got. history limit streams s' d got"
proof -
  obtain got where got: "history limit streams s d got" using assms(1) by blast
  have "history limit streams s' d got"
  proof (cases "d = c")
    case True
    then show ?thesis using got assms(2-5) by (simp add: history_def recorded_bytes_def)
  next
    case False
    then show ?thesis using assms(2-6) by (intro history_frame [OF got]) (simp_all add: recorded_bytes_def)
  qed
  then show ?thesis ..
qed

text \<open>What a relay needs of the way it records.\<close>

locale recorder =
  fixes keep :: "bytes \<Rightarrow> bytes \<Rightarrow> bytes option" and limit :: nat
  assumes keep_bounded: "keep r b = Some w \<Longrightarrow> length r \<le> limit \<Longrightarrow> length w \<le> limit"
    and keep_all: "keep r b = Some w \<Longrightarrow> length r + length b \<le> limit \<Longrightarrow> w = r @ b"
begin

lemma recv_chunk:
  assumes "recv_from n es = (Inr data, es')" and "data \<noteq> []"
  shows "available es = data @ available es'"
  using assms by (induction n es rule: recv_from.induct) (auto split: if_splits)

lemma pump_history:
  assumes "pump keep s s'" and "\<exists>got. history limit streams s d got"
  shows "\<exists>got. history limit streams s' d got"
  using assms
proof (induction rule: pump.induct)
  case (recorded s c data es w t)
  then obtain got where got: "history limit streams s d got" by blast
  show ?case
  proof (cases "c = d")
    case True
    have "available (pending s d) = data @ available es" using recv_chunk recorded.hyps True by blast
    then have "history limit streams (record_chunk c data t w (take_pending c es s)) d (got @ data)"
      using got recorded.hyps True keep_bounded [of "wire s d" data w] keep_all [of "wire s d" data w]
      by (auto simp: history_def record_chunk_def take_pending_def recorded_bytes_def)
    then show ?thesis by blast
  qed (use got in \<open>auto intro!: exI [of _ got] elim: history_frame simp: record_chunk_def take_pending_def recorded_bytes_def\<close>)
next
  case (sent s c data)
  then obtain got where got: "history limit streams s d got" by blast
  show ?case
    using got sent.hyps by (cases "c = d") (auto intro!: exI [of _ got] simp: history_def recorded_bytes_def split: phase.splits)
next
  case (full s c data es)
  show ?case by (rule history_finished [OF full.prems, where c = c]) (simp_all add: finish_def take_pending_def)
next
  case (closed s c es)
  show ?case by (rule history_finished [OF closed.prems, where c = c]) (simp_all add: finish_def take_pending_def)
next
  case (broken s c e es)
  show ?case by (rule history_finished [OF broken.prems, where c = c]) (simp_all add: finish_def take_pending_def)
next
  case (unsent s c data e)
  show ?case by (rule history_finished [OF unsent.prems, where c = c]) (simp_all add: finish_def)
qed

lemma reachable_history:
  assumes "(pump keep)\<^sup>*\<^sup>* (started streams) s"
  shows "\<exists>got. history limit streams s d got"
  using assms
proof (induction rule: rtranclp_induct)
  case base
  have "history limit streams (started streams) d []"
    by (simp add: history_def started_def recorded_bytes_def)
  then show ?case by blast
next
  case (step s s')
  then show ?case using pump_history by blast
qed

end

interpretation capture: recorder capture_keep "16 * 2 ^ 20"
  by unfold_locales (auto simp: capture_keep_def split: if_splits)

interpretation group: recorder group_keep "4 * 2 ^ 20"
  by unfold_locales (auto simp: group_keep_def split: if_splits)

lemma group_complete:
  assumes "(pump group_keep)\<^sup>*\<^sup>* (started streams) s"
  shows "length (wire s d) = recorded_bytes s d"
  using assms
proof (induction rule: rtranclp_induct)
  case base
  then show ?case by (simp add: started_def recorded_bytes_def)
next
  case (step s s')
  from step.hyps(2) step.IH show ?case
    by (cases rule: pump.cases) (auto simp: recorded_bytes_def record_chunk_def take_pending_def finish_def group_keep_def split: if_splits)
qed

section \<open>What bursts say\<close>

lemma bursts_sum:
  "sum_list (map size_bytes (filter (\<lambda>b. direction b = d) (bursts acc es))) =
   sum_list (map size_bytes (filter (\<lambda>b. direction b = d) (acc @ es)))"
proof (induction acc es rule: bursts.induct)
  case (2 acc e es)
  show ?case
  proof (cases "acc \<noteq> [] \<and> direction (last acc) = direction e")
    case True
    then obtain xs x where "acc = xs @ [x]" by (metis rev_exhaust)
    then show ?thesis using 2 True by simp
  qed (use 2 in auto)
qed simp

lemma bursts_alternate:
  "distinct_adj (map direction acc) \<Longrightarrow> distinct_adj (map direction (bursts acc es))"
proof (induction acc es rule: bursts.induct)
  case (2 acc e es)
  show ?case
  proof (cases "acc \<noteq> [] \<and> direction (last acc) = direction e")
    case True
    then obtain xs x where "acc = xs @ [x]" by (metis rev_exhaust)
    then show ?thesis using 2 True by simp
  next
    case False
    then have "distinct_adj (map direction (acc @ [e]))"
      using "2.prems" by (auto simp: distinct_adj_append_iff last_map)
    then show ?thesis using "2.IH"(2) False by auto
  qed
qed simp

lemma capture_keep_hole:
  "length r = 16 * 2 ^ 20 - 1 \<Longrightarrow> capture_keep r [1, 2] = Some r \<and> capture_keep r [3] = Some (r @ [3])"
  by (simp add: capture_keep_def)

lemma captured_hello_run:
  assumes held: "held = available (arrives c)" and short: "short = (case ending (arrives c) of None \<Rightarrow> EOFError ''truncated ClientHello'' | Some e \<Rightarrow> e)"
  shows "fst (captured_hello sh c) =
     (let n = from_bytes_big (slice 3 5 held) in
      if length held < 5 then Inl short
      else if held ! 0 \<noteq> 22 \<or> 16384 < n then Inl (ValueError ''unexpected browser TLS record'')
      else if length held < 5 + n then Inl short
      else hello sh (slice 5 (5 + n) held))"
proof (cases "length held < 5")
  case True
  then obtain es where "read_exact 5 c = (Inl short, c\<lparr>arrives := es\<rparr>)"
    using collects_cut [OF read_exact_collects, of c 5] held short by auto
  then show ?thesis using True by (simp add: captured_hello_def bnd_def)
next
  case False
  define n where "n = from_bytes_big (slice 3 5 held)"
  obtain es where r5: "read_exact 5 c = (Inr (take 5 held), c\<lparr>arrives := es\<rparr>)" and es: "available es = drop 5 held" "ending es = ending (arrives c)"
    using collects_enough [OF read_exact_collects, of 5 c] held False by auto
  have n: "from_bytes_big (slice 3 5 (take 5 held)) = n" by (simp add: n_def slice_def drop_take)
  have first: "take 5 held ! 0 = held ! 0" by simp
  show ?thesis
  proof (cases "held ! 0 \<noteq> 22 \<or> 16384 < n")
    case True
    then show ?thesis using False r5 n first by (simp add: captured_hello_def bnd_def Let_def raise_def flip: n_def)
  next
    case good: False
    let ?c = "c\<lparr>arrives := es\<rparr>"
    show ?thesis
    proof (cases "length held < 5 + n")
      case True
      then have "length (available (arrives ?c)) < n" using False es by simp
      then obtain es' where "read_exact n ?c = (Inl short, ?c\<lparr>arrives := es'\<rparr>)"
        using collects_cut [OF read_exact_collects, of ?c n] es short by auto
      then show ?thesis using False r5 n first good True by (simp add: captured_hello_def bnd_def Let_def flip: n_def)
    next
      case enough: False
      then have "n \<le> length (available (arrives ?c))" using es by simp
      then obtain es' where "read_exact n ?c = (Inr (take n (drop 5 held)), ?c\<lparr>arrives := es'\<rparr>)"
        using collects_enough [OF read_exact_collects, of n ?c] es by auto
      moreover have "slice 5 (5 + n) held = take n (drop 5 held)" by (simp add: slice_def)
      ultimately show ?thesis using False r5 n first good enough
        by (simp add: captured_hello_def bnd_def Let_def lift_res_def flip: n_def)
    qed
  qed
qed

section \<open>Theorems\<close>

text \<open>
  C20. A \<open>Capture\<close> forwards what it receives, in order, whatever the interleaving of its threads; what it recorded of a direction stays
  within 16 MiB, and as long as no more has passed it is exactly the bytes that passed, which its events count.
\<close>

theorem capture_faithful:
  assumes "(pump capture_keep)\<^sup>*\<^sup>* (started streams) s"
  shows "length (wire s d) \<le> 16 * 2 ^ 20 \<and> prefix (forwarded s d) (available (streams d)) \<and>
    (if recorded_bytes s d \<le> 16 * 2 ^ 20
     then wire s d = take (recorded_bytes s d) (available (streams d)) \<and> prefix (forwarded s d) (wire s d) else True)"
proof -
  obtain got where "history (16 * 2 ^ 20) streams s d got" using capture.reachable_history [OF assms] by blast
  then show ?thesis by (auto simp: history_def prefix_def)
qed

text \<open>The first step of a relay whose client sends one byte.\<close>

definition one_byte :: "direction \<Rightarrow> incoming list" where
  "one_byte d = (case d of Up \<Rightarrow> [Chunk [7], End] | Down \<Rightarrow> [End])"

definition one_recorded :: relay where
  "one_recorded = record_chunk Up [7] 0 [7] (take_pending Up [End] (started one_byte))"

lemma one_recorded_reachable: "keep [] [7] = Some [7] \<Longrightarrow> (pump keep)\<^sup>*\<^sup>* (started one_byte) one_recorded"
  unfolding one_recorded_def
  by (rule r_into_rtranclp, rule pump.recorded) (simp_all add: started_def one_byte_def)

theorem capture_faithful_witness:
  "wire one_recorded Up = take 1 (available (one_byte Up)) \<and> forwarded one_recorded Up = []"
proof -
  have "(pump capture_keep)\<^sup>*\<^sup>* (started one_byte) one_recorded"
    by (rule one_recorded_reachable) (simp add: capture_keep_def)
  from capture_faithful [OF this, of Up] show ?thesis
    by (simp add: one_recorded_def record_chunk_def take_pending_def started_def recorded_bytes_def)
qed

text \<open>
  C21. A \<open>CaptureGroup\<close> records every chunk it forwards: its record of a direction is exactly the bytes its events count, a prefix of the
  stream of at most 4 MiB, and nothing is forwarded that was not recorded.
\<close>

theorem group_records_all:
  assumes "(pump group_keep)\<^sup>*\<^sup>* (started streams) s"
  shows "length (wire s d) \<le> 4 * 2 ^ 20 \<and> wire s d = take (recorded_bytes s d) (available (streams d)) \<and>
    prefix (forwarded s d) (wire s d)"
proof -
  obtain got where "history (4 * 2 ^ 20) streams s d got" using group.reachable_history [OF assms] by blast
  then show ?thesis using group_complete [OF assms, of d] by (auto simp: history_def prefix_def)
qed

theorem group_records_all_witness:
  "wire one_recorded Up = take 1 (available (one_byte Up)) \<and> length (wire one_recorded Up) \<le> 4 * 2 ^ 20"
proof -
  have "(pump group_keep)\<^sup>*\<^sup>* (started one_byte) one_recorded"
    by (rule one_recorded_reachable) (simp add: group_keep_def)
  from group_records_all [OF this, of Up] show ?thesis
    by (simp add: one_recorded_def record_chunk_def take_pending_def started_def recorded_bytes_def)
qed

text \<open>
  Beyond its limit a \<open>Capture\<close> leaves a hole: it skips a chunk that does not fit and still appends a later one that does.
\<close>

theorem capture_leaves_hole:
  "capture_keep (replicate (16 * 2 ^ 20 - 1) 0) [1, 2] = Some (replicate (16 * 2 ^ 20 - 1) 0) \<and>
   capture_keep (replicate (16 * 2 ^ 20 - 1) 0) [3] = Some (replicate (16 * 2 ^ 20 - 1) 0 @ [3])"
  by (rule capture_keep_hole) (rule length_replicate)

text \<open>
  The bursts of a summary account for every byte of the events, in each direction, and no two neighbours have the same direction.
\<close>

theorem bursts_account:
  "case shapes s of Inl e \<Rightarrow> True | Inr r \<Rightarrow>
     sum_list (map (\<lambda>(c, n, t). n) (filter (\<lambda>(c, n, t). c = d) (burst_list r))) = recorded_bytes s d \<and>
     distinct_adj (map fst (burst_list r))"
proof (cases "shapes s")
  case (Inr r)
  then have r: "burst_list r = map (\<lambda>b. (direction b, size_bytes b,
      at_time b - (case events s of [] \<Rightarrow> 0 | e # _ \<Rightarrow> at_time e))) (bursts [] (events s))"
    by (auto simp: shapes_def bind_res_Inr_iff Let_def)
  have "map fst (burst_list r) = map direction (bursts [] (events s))" by (simp add: r)
  then show ?thesis
    using bursts_sum [of d "[]" "events s"] bursts_alternate [of "[]" "events s"]
    by (simp add: Inr r filter_map comp_def recorded_bytes_def)
qed simp

text \<open>
  The capture of a browser's ClientHello: whatever the pieces, a handshake record of at most 16384 bytes is parsed from its
  contents alone, any other record is refused, and an incomplete one raises.
\<close>

theorem captured_hello_exact:
  "fst (captured_hello sh c) =
     (let held = available (arrives c); n = from_bytes_big (slice 3 5 held); short = (case ending (arrives c) of
          None \<Rightarrow> EOFError ''truncated ClientHello'' | Some e \<Rightarrow> e) in
      if length held < 5 then Inl short
      else if held ! 0 = 22 \<and> n \<le> 16384
      then (if length held < 5 + n then Inl short else hello sh (slice 5 (5 + n) held))
      else Inl (ValueError ''unexpected browser TLS record''))"
  using captured_hello_run [OF refl refl] by (simp add: Let_def)

end
