(* ===== verification/Reports.thy ===== *)
theory Reports
  imports Complex_Main Captures "HOL-Library.Multiset" "HOL-Library.List_Lexorder" "HOL-Library.Char_ord" "HOL-Library.Product_Lexorder"
begin

text \<open>
  What the measuring scripts make of their samples: \<open>summarize\<close> of \<^verbatim>\<open>benchmark.py\<close>, the schedule and the \<open>comparison\<close> of
  \<^verbatim>\<open>core_regression.py\<close>, \<open>summarize\<close> of \<^verbatim>\<open>browser_shapes.py\<close> and the summary of \<^verbatim>\<open>reality_fingerprint.py\<close>. Numbers are rational and
  arithmetic is exact: the rounding of floats is not modelled. A missing key and a division by zero are errors.
\<close>

section \<open>Medians\<close>

text \<open>\<open>statistics.median\<close>: the middle of the sorted data, or the mean of the two in the middle.\<close>

definition median :: "rat list \<Rightarrow> rat res" where
  "median xs =
     (let s = sort xs; n = length xs in
      if n = 0 then Inl (ValueError ''no median for empty data'')
      else if n mod 2 = 1 then Inr (s ! (n div 2))
      else Inr ((s ! (n div 2 - 1) + s ! (n div 2)) / 2))"

type_synonym value_map = "(string \<times> rat) list"

section \<open>\<^verbatim>\<open>benchmark.py\<close>\<close>

record bench_row =
  variant :: string
  bench_mode :: string
  connections :: int
  measured :: value_map

definition bench_keys :: "string list" where
  "bench_keys = [''gib_per_cpu_second'', ''gib_per_second'', ''server_cpu_utilization'', ''server_rss_bytes'',
     ''client_rss_bytes'', ''p50_us'', ''p99_us'']"

definition bench_key :: "bench_row \<Rightarrow> string \<times> string \<times> int" where
  "bench_key r = (variant r, bench_mode r, connections r)"

text \<open>\<open>groups.setdefault(key, []).append(r)\<close>\<close>

definition group_by :: "('a \<Rightarrow> 'k) \<Rightarrow> 'a list \<Rightarrow> ('k \<times> 'a list) list" where
  "group_by f xs = fold (\<lambda>x d. dict_set (f x) ((case map_of d (f x) of None \<Rightarrow> [] | Some ys \<Rightarrow> ys) @ [x]) d) xs []"

record bench_summary =
  summary_key :: "string \<times> string \<times> int"
  repetitions :: nat
  medians :: value_map

definition summarize_group :: "(string \<times> string \<times> int) \<times> bench_row list \<Rightarrow> bench_summary res" where
  "summarize_group krs =
     (let (k, rs) = krs in
      bind_res (map_res (\<lambda>key.
          bind_res (map_res (\<lambda>r. dict_get key (measured r)) rs) (\<lambda>vs.
          bind_res (median vs) (\<lambda>m. Inr (key, m))))
        (filter (\<lambda>key. map_of (measured (hd rs)) key \<noteq> None) bench_keys)) (\<lambda>ms.
      Inr \<lparr>summary_key = k, repetitions = length rs, medians = ms\<rparr>))"

definition bench_summarize :: "bench_row list \<Rightarrow> bench_summary list res" where
  "bench_summarize rows = map_res summarize_group (sort_key fst (group_by bench_key rows))"

section \<open>\<^verbatim>\<open>core_regression.py\<close>\<close>

record trial_row =
  trial_mode :: string
  group :: string
  pair :: int
  metrics :: value_map

definition metric_names :: "string list" where
  "metric_names = [''throughput'', ''work_per_cpu_ms'', ''p50_us'', ''p99_us'']"

definition set_pair ::
  "trial_row \<Rightarrow> (int \<times> (string \<times> trial_row) list) list \<Rightarrow> (int \<times> (string \<times> trial_row) list) list" where
  "set_pair r pairs =
     dict_set (pair r) (dict_set (group r) r (case map_of pairs (pair r) of None \<Rightarrow> [] | Some p \<Rightarrow> p)) pairs"

definition pairs_of :: "trial_row list \<Rightarrow> string \<Rightarrow> (int \<times> (string \<times> trial_row) list) list" where
  "pairs_of rows mode =
     fold set_pair (filter (\<lambda>r. trial_mode r = mode \<and> (group r = ''before'' \<or> group r = ''after'')) rows) []"

definition change :: "string \<Rightarrow> (string \<times> trial_row) list \<Rightarrow> rat res" where
  "change metric p =
     bind_res (dict_get ''after'' p) (\<lambda>after.
     bind_res (dict_get metric (metrics after)) (\<lambda>a.
     bind_res (dict_get ''before'' p) (\<lambda>before.
     bind_res (dict_get metric (metrics before)) (\<lambda>b.
     if b = 0 then Inl ZeroDivisionError else Inr (100 * (a / b - 1))))))"

definition complete :: "string \<Rightarrow> (string \<times> trial_row) list \<Rightarrow> bool" where
  "complete metric p \<longleftrightarrow> length p = 2 \<and>
     (case map_of p ''before'' of None \<Rightarrow> False | Some b \<Rightarrow> map_of (metrics b) metric \<noteq> None)"

record delta =
  paired_median :: rat
  pairs_percent :: "rat list"

definition mode_changes :: "trial_row list \<Rightarrow> string \<Rightarrow> (string \<times> delta) list res" where
  "mode_changes rows mode =
     bind_res (map_res (\<lambda>metric.
         bind_res (map_res (change metric) (filter (complete metric) (map snd (pairs_of rows mode)))) (\<lambda>deltas.
         if deltas = [] then Inr []
         else bind_res (median deltas) (\<lambda>m. Inr [(metric, \<lparr>paired_median = m, pairs_percent = deltas\<rparr>)])))
       metric_names) (\<lambda>rs. Inr (concat rs))"

definition comparison :: "trial_row list \<Rightarrow> string list \<Rightarrow> (string \<times> (string \<times> delta) list) list res" where
  "comparison rows modes =
     bind_res (map_res (\<lambda>mode. bind_res (mode_changes rows mode) (\<lambda>d. Inr (mode, d))) modes) (\<lambda>rs.
     Inr (dict_update [] rs))"

text \<open>
  The trials of the main program in their order: the two cross-version checks, then for each repetition and mode both versions in the
  order the generator shuffles them to; \<open>shuffle\<close> gets the number of shuffles done before.
\<close>

definition interop_trials :: "bool \<Rightarrow> (string \<times> string \<times> int) list" where
  "interop_trials skip =
     (if skip then [] else [(''old-client-new-server'', ''S'', -1), (''new-client-old-server'', ''S'', -1)])"

definition paired_trials :: "(nat \<Rightarrow> string list \<Rightarrow> string list) \<Rightarrow> nat \<Rightarrow> string list \<Rightarrow> (string \<times> string \<times> int) list" where
  "paired_trials shuffle reps modes =
     concat (map (\<lambda>p. concat (map (\<lambda>j. map (\<lambda>g. (g, modes ! j, int p)) (shuffle (p * length modes + j) [''before'', ''after'']))
       [0..<length modes])) [0..<reps])"

definition schedule :: "(nat \<Rightarrow> string list \<Rightarrow> string list) \<Rightarrow> bool \<Rightarrow> nat \<Rightarrow> string list \<Rightarrow> (string \<times> string \<times> int) list" where
  "schedule shuffle skip reps modes = interop_trials skip @ paired_trials shuffle reps modes"

text \<open>The guards of the options: four different CPUs that are available, known modes, positive counts.\<close>

record regression_options =
  cores :: "int list"
  modes_arg :: "string list"
  reps :: int
  rounds :: int
  payload_bytes :: int

definition regression_guards :: "int set \<Rightarrow> bool \<Rightarrow> regression_options \<Rightarrow> unit res" where
  "regression_guards affinity isolated a =
     bind_res (guard isolated (UsageError ''run inside a private network namespace with VEIL_ISOLATED_NETNS=1'')) (\<lambda>_.
     bind_res (guard (length (cores a) = 4 \<and> distinct (cores a) \<and> set (cores a) \<subseteq> affinity)
       (UsageError ''provide four distinct available CPU IDs'')) (\<lambda>_.
     guard (set (modes_arg a) \<subseteq> {''U'', ''D'', ''E'', ''S''} \<and> 1 \<le> reps a \<and> 1 \<le> rounds a \<and> 1 \<le> payload_bytes a)
       (UsageError ''invalid workload'')))"

section \<open>\<^verbatim>\<open>browser_shapes.py\<close>\<close>

record browser_row =
  protocol :: string
  parallel :: bool
  browser_group :: string
  captured :: "shape_report list"

definition record_lists :: "shape_report \<Rightarrow> (nat \<times> nat) list list" where
  "record_lists c = [shape_records c Up, shape_records c Down]"

definition is_ramp :: "(nat \<times> nat) \<times> (nat \<times> nat) \<Rightarrow> bool" where
  "is_ramp ab \<longleftrightarrow> (let (a, b) = ab in fst a = 23 \<and> fst b = 23 \<and> 4096 < snd a \<and> snd a < snd b \<and> snd b \<le> 16401 \<and> snd b - snd a = 1186)"

definition ramp_pairs :: "shape_report list \<Rightarrow> nat" where
  "ramp_pairs cs = sum_list (map (\<lambda>rs. length (filter is_ramp (zip rs (tl rs)))) (concat (map record_lists cs)))"

record feature =
  f_connections :: nat
  f_bursts :: nat
  f_records :: nat
  f_wire_bytes :: nat
  f_ramp_pairs :: nat

definition feature_of :: "browser_row \<Rightarrow> feature" where
  "feature_of row =
     (let cs = captured row in
      \<lparr>f_connections = length cs,
       f_bursts = sum_list (map (\<lambda>c. length (burst_list c)) cs),
       f_records = sum_list (map length (concat (map record_lists cs))),
       f_wire_bytes = sum_list (map (\<lambda>c. wire_bytes c Up + wire_bytes c Down) cs),
       f_ramp_pairs = ramp_pairs cs\<rparr>)"

definition feature_fields :: "(feature \<Rightarrow> nat) list" where
  "feature_fields = [f_connections, f_bursts, f_records, f_wire_bytes, f_ramp_pairs]"

definition browser_key :: "browser_row \<Rightarrow> string \<times> bool \<times> string" where
  "browser_key r = (protocol r, parallel r, browser_group r)"

record browser_summary =
  b_key :: "string \<times> bool \<times> string"
  b_samples :: nat
  b_with_ramp :: nat
  b_medians :: "rat list"

definition summary_of :: "browser_row list \<Rightarrow> string \<times> bool \<times> string \<Rightarrow> browser_summary res" where
  "summary_of rows k =
     (let samples = filter (\<lambda>r. browser_key r = k) rows; features = map feature_of samples in
      bind_res (map_res (\<lambda>f. median (map (rat_of_nat \<circ> f) features)) feature_fields) (\<lambda>ms.
      Inr \<lparr>b_key = k, b_samples = length samples, b_with_ramp = length (filter (\<lambda>f. 0 < f_ramp_pairs f) features), b_medians = ms\<rparr>))"

definition browser_summarize :: "browser_row list \<Rightarrow> browser_summary list res" where
  "browser_summarize rows = map_res (summary_of rows) (sorted_list_of_set (browser_key ` set rows))"

section \<open>Laws\<close>

lemma sort_mset: "mset xs = mset ys \<Longrightarrow> sort xs = sort (ys :: 'a :: linorder list)"
  by (metis properties_for_sort sorted_sort mset_sort)

lemma median_mset: "mset xs = mset ys \<Longrightarrow> median xs = median ys"
  by (simp add: median_def sort_mset [of xs ys] mset_eq_length [of xs ys] Let_def)

lemma median_between:
  assumes "median xs = Inr m" and "\<And>x. x \<in> set xs \<Longrightarrow> lo \<le> x \<and> x \<le> hi"
  shows "lo \<le> m \<and> m \<le> hi"
proof -
  have *: "i < length xs \<Longrightarrow> lo \<le> sort xs ! i \<and> sort xs ! i \<le> hi" for i
    using assms(2) nth_mem [of i "sort xs"] by simp
  from assms(1) have n: "0 < length xs" by (auto simp: median_def split: if_splits)
  then have "length xs div 2 < length xs" "length xs div 2 - 1 < length xs" by linarith+
  from * [OF this(1)] * [OF this(2)] show ?thesis
    using assms(1) n by (auto simp: median_def Let_def split: if_splits)
qed

lemma median_defined: "xs \<noteq> [] \<Longrightarrow> \<exists>m. median xs = Inr m"
  by (cases "median xs") (auto simp: median_def Let_def split: if_splits)

lemma map_res_defined: "(\<And>x. x \<in> set xs \<Longrightarrow> \<exists>y. f x = Inr y) \<Longrightarrow> \<exists>ys. map_res f xs = Inr ys"
  by (induction xs) (simp, fastforce)

lemma map_res_all2: "map_res f xs = Inr ys \<longleftrightarrow> list_all2 (\<lambda>x y. f x = Inr y) xs ys"
  by (induction xs arbitrary: ys) (auto simp: bind_res_Inr_iff list_all2_Cons1)

lemma sum_counts:
  "finite K \<Longrightarrow> f ` set xs \<subseteq> K \<Longrightarrow> (\<Sum>k\<in>K. length (filter (\<lambda>x. f x = k) xs)) = length xs"
proof (induction xs)
  case (Cons x xs)
  have "(\<Sum>k\<in>K. length (filter (\<lambda>y. f y = k) (x # xs))) = (\<Sum>k\<in>K. (if f x = k then 1 else 0) + length (filter (\<lambda>y. f y = k) xs))"
    by (intro sum.cong) auto
  also have "\<dots> = (\<Sum>k\<in>K. if f x = k then 1 else 0) + length xs"
    using Cons by (simp add: sum.distrib)
  also have "(\<Sum>k\<in>K. if f x = k then 1 else 0 :: nat) = 1" using Cons.prems by (simp add: sum.delta)
  finally show ?case by simp
qed simp

lemma summary_of_mset:
  assumes "mset rows = mset rows'"
  shows "summary_of rows k = summary_of rows' k"
proof -
  let ?f = "filter (\<lambda>r. browser_key r = k)"
  have "mset (?f rows) = mset (?f rows')" using assms by simp
  then have feats: "mset (map feature_of (?f rows)) = mset (map feature_of (?f rows'))" by simp
  have med: "median (map (rat_of_nat \<circ> f) (map feature_of (?f rows))) = median (map (rat_of_nat \<circ> f) (map feature_of (?f rows')))" for f
    by (rule median_mset) (use feats in \<open>simp only: mset_map\<close>)
  have len: "length (?f rows) = length (?f rows')" using assms by (intro mset_eq_length) simp
  have "mset (filter (\<lambda>f. 0 < f_ramp_pairs f) (map feature_of (?f rows))) =
      mset (filter (\<lambda>f. 0 < f_ramp_pairs f) (map feature_of (?f rows')))"
    using feats by (simp only: mset_filter)
  then have ramps: "length (filter (\<lambda>f. 0 < f_ramp_pairs f) (map feature_of (?f rows))) =
      length (filter (\<lambda>f. 0 < f_ramp_pairs f) (map feature_of (?f rows')))" by (rule mset_eq_length)
  show ?thesis unfolding summary_of_def Let_def med len ramps ..
qed

lemma summary_of_defined:
  assumes "k \<in> browser_key ` set rows"
  shows "\<exists>s. summary_of rows k = Inr s \<and> b_key s = k \<and> b_samples s = length (filter (\<lambda>r. browser_key r = k) rows) \<and>
    b_with_ramp s \<le> b_samples s \<and> 0 < b_samples s"
proof -
  let ?fs = "map feature_of (filter (\<lambda>r. browser_key r = k) rows)"
  have ne: "filter (\<lambda>r. browser_key r = k) rows \<noteq> []" using assms by (auto simp: filter_empty_conv)
  then have "\<exists>ms. map_res (\<lambda>f. median (map (rat_of_nat \<circ> f) ?fs)) feature_fields = Inr ms"
    by (intro map_res_defined) (simp add: median_defined)
  moreover have "length (filter (\<lambda>f. 0 < f_ramp_pairs f) ?fs) \<le> length (filter (\<lambda>r. browser_key r = k) rows)"
    using length_filter_le [of _ ?fs] by simp
  ultimately show ?thesis using ne by (auto simp: summary_of_def Let_def)
qed

section \<open>Pairs\<close>

abbreviation add_row :: "trial_row \<Rightarrow> (string \<times> trial_row) list \<Rightarrow> (string \<times> trial_row) list" where
  "add_row r \<equiv> dict_set (group r) r"

lemma pairs_fold:
  "map_of (fold set_pair rs d) p =
     (if p \<in> pair ` set rs \<or> map_of d p \<noteq> None
      then Some (fold add_row (filter (\<lambda>r. pair r = p) rs) (case map_of d p of None \<Rightarrow> [] | Some q \<Rightarrow> q)) else None)"
proof (induction rs arbitrary: d)
  case (Cons r rs)
  show ?case by (simp add: Cons.IH) (auto simp: set_pair_def split: option.splits)
qed (auto split: option.splits)

lemma pairs_keys:
  "fst ` set (fold set_pair rs d) = fst ` set d \<union> pair ` set rs"
  "distinct (map fst d) \<Longrightarrow> distinct (map fst (fold set_pair rs d))"
  by (induction rs arbitrary: d) (auto simp: set_pair_def)

lemma add_rows_keys:
  "fst ` set (fold add_row rs q) = fst ` set q \<union> group ` set rs"
  "distinct (map fst q) \<Longrightarrow> distinct (map fst (fold add_row rs q))"
  by (induction rs arbitrary: q) auto

lemma add_rows_in: "(g, r) \<in> set (fold add_row rs q) \<Longrightarrow> (g, r) \<in> set q \<or> r \<in> set rs \<and> group r = g"
proof (induction rs arbitrary: q)
  case (Cons x rs)
  have "(g, r) \<in> set (add_row x q) \<Longrightarrow> (g, r) \<in> set q \<or> r = x \<and> group r = g"
    by (induction "group x" x q rule: dict_set.induct) (auto split: if_splits)
  then show ?case using Cons.IH [of "add_row x q"] Cons.prems by auto
qed simp

text \<open>The rows of a complete run, given what each trial measured.\<close>

definition trial_rows :: "(string \<Rightarrow> string \<Rightarrow> int \<Rightarrow> value_map) \<Rightarrow> (string \<times> string \<times> int) list \<Rightarrow> trial_row list" where
  "trial_rows results ts = map (\<lambda>(g, m, p). \<lparr>trial_mode = m, group = g, pair = p, metrics = results g m p\<rparr>) ts"

lemma trial_rows_iff:
  "r \<in> set (trial_rows results ts) \<longleftrightarrow>
     (\<exists>g m q. (g, m, q) \<in> set ts \<and> r = \<lparr>trial_mode = m, group = g, pair = q, metrics = results g m q\<rparr>)"
  by (induction ts) (auto simp: trial_rows_def)

lemma schedule_rows:
  assumes shuffles: "\<And>n xs. mset (shuffle n xs) = mset xs" and mode: "mode \<in> set modes"
  shows "r \<in> set (filter (\<lambda>r. trial_mode r = mode \<and> (group r = ''before'' \<or> group r = ''after''))
      (trial_rows results (schedule shuffle skip turns modes))) \<longleftrightarrow>
    (\<exists>g p. (g = ''before'' \<or> g = ''after'') \<and> p < turns \<and> r = \<lparr>trial_mode = mode, group = g, pair = int p, metrics = results g mode (int p)\<rparr>)"
proof -
  have s: "set (shuffle n xs) = set xs" for n xs using shuffles by (rule mset_eq_setD)
  have paired: "(g, m, q) \<in> set (paired_trials shuffle turns modes) \<longleftrightarrow>
      (g = ''before'' \<or> g = ''after'') \<and> m \<in> set modes \<and> (\<exists>p<turns. q = int p)" for g m q
  proof -
    have "(g, m, q) \<in> set (paired_trials shuffle turns modes) \<longleftrightarrow>
        (\<exists>p<turns. \<exists>j<length modes. (g = ''before'' \<or> g = ''after'') \<and> m = modes ! j \<and> q = int p)"
      by (force simp: paired_trials_def s)
    also have "\<dots> \<longleftrightarrow> (g = ''before'' \<or> g = ''after'') \<and> (\<exists>j<length modes. m = modes ! j) \<and> (\<exists>p<turns. q = int p)"
      by blast
    finally show ?thesis by (simp only: in_set_conv_nth eq_commute [of m])
  qed
  have timed: "(g, m, q) \<in> set (schedule shuffle skip turns modes) \<and> (g = ''before'' \<or> g = ''after'') \<longleftrightarrow>
      (g = ''before'' \<or> g = ''after'') \<and> m \<in> set modes \<and> (\<exists>p<turns. q = int p)" for g m q
    by (auto simp: schedule_def interop_trials_def paired)
  have "r \<in> set (filter (\<lambda>r. trial_mode r = mode \<and> (group r = ''before'' \<or> group r = ''after''))
      (trial_rows results (schedule shuffle skip turns modes))) \<longleftrightarrow>
    (\<exists>g q. ((g, mode, q) \<in> set (schedule shuffle skip turns modes) \<and> (g = ''before'' \<or> g = ''after'')) \<and>
      r = \<lparr>trial_mode = mode, group = g, pair = q, metrics = results g mode q\<rparr>)"
    unfolding set_filter mem_Collect_eq trial_rows_iff by (intro iffI; elim exE conjE; simp) 
  also have "\<dots> \<longleftrightarrow> (\<exists>g p. (g = ''before'' \<or> g = ''after'') \<and> p < turns \<and>
      r = \<lparr>trial_mode = mode, group = g, pair = int p, metrics = results g mode (int p)\<rparr>)"
    unfolding timed using mode by blast
  finally show ?thesis .
qed

text \<open>A pair made of all rows of a repetition is complete.\<close>

lemma complete_pair:
  assumes rows: "\<And>r. r \<in> set rs \<longleftrightarrow> (\<exists>g p. (g = ''before'' \<or> g = ''after'') \<and> p < turns \<and>
      r = \<lparr>trial_mode = mode, group = g, pair = int p, metrics = results g mode (int p)\<rparr>)"
    and p: "p < turns" and measured: "map_of (results ''before'' mode (int p)) metric \<noteq> None"
  shows "complete metric (fold add_row (filter (\<lambda>r. pair r = int p) rs) [])" (is "complete metric ?q")
proof -
  have "group ` set (filter (\<lambda>r. pair r = int p) rs) \<subseteq> {''before'', ''after''}" by (auto simp: rows)
  moreover have "g \<in> group ` set (filter (\<lambda>r. pair r = int p) rs)" if "g = ''before'' \<or> g = ''after''" for g
  proof -
    have "\<lparr>trial_mode = mode, group = g, pair = int p, metrics = results g mode (int p)\<rparr> \<in> set rs" using p that by (simp add: rows)
    then show ?thesis by (auto intro!: image_eqI)
  qed
  ultimately have "group ` set (filter (\<lambda>r. pair r = int p) rs) = {''before'', ''after''}"
    by (simp only: set_eq_subset insert_subset empty_subsetI) blast
  then have groups: "fst ` set ?q = {''before'', ''after''}" by (simp add: add_rows_keys)
  have "distinct (map fst ?q)" by (simp add: add_rows_keys)
  from distinct_card [OF this] have "length ?q = card (fst ` set ?q)" by (simp only: list.set_map length_map)
  then have "length ?q = 2" by (simp add: groups)
  moreover have "''before'' \<in> fst ` set ?q" unfolding groups by (rule insertI1)
  then obtain b where b: "map_of ?q ''before'' = Some b"
    using map_of_eq_None_iff [of ?q "''before''"] by (cases "map_of ?q ''before''") blast+
  moreover have "b \<in> set rs" "pair b = int p" "group b = ''before''" using add_rows_in [OF map_of_SomeD [OF b]] by auto
  then have "map_of (metrics b) metric \<noteq> None" using measured by (auto simp: rows)
  ultimately show ?thesis by (simp add: complete_def)
qed

section \<open>Theorems\<close>

text \<open>
  The browser summary counts every sample once, under the key of its group, one group for each key that occurs; at most all samples of a
  group have a ramp; and it never fails, since no group is empty.
\<close>

theorem browser_summary_counts:
  "\<exists>ss. browser_summarize rows = Inr ss \<and> sum_list (map b_samples ss) = length rows \<and>
     map b_key ss = sorted_list_of_set (browser_key ` set rows) \<and> list_all (\<lambda>s. b_with_ramp s \<le> b_samples s \<and> 0 < b_samples s) ss"
proof -
  let ?K = "browser_key ` set rows"
  have "\<exists>s. summary_of rows k = Inr s" if "k \<in> set (sorted_list_of_set ?K)" for k
    using summary_of_defined [of k rows] that by auto
  then obtain ss where ss: "browser_summarize rows = Inr ss"
    unfolding browser_summarize_def using map_res_defined by blast
  then have all: "list_all2 (\<lambda>k s. summary_of rows k = Inr s) (sorted_list_of_set ?K) ss"
    by (simp add: browser_summarize_def map_res_all2)
  then have each: "list_all2 (\<lambda>k s. b_key s = k \<and> b_samples s = length (filter (\<lambda>r. browser_key r = k) rows) \<and>
      b_with_ramp s \<le> b_samples s \<and> 0 < b_samples s) (sorted_list_of_set ?K) ss"
  proof (rule list.rel_mono_strong)
    fix k s
    assume "k \<in> set (sorted_list_of_set ?K)" and s: "summary_of rows k = Inr s"
    then have "k \<in> ?K" by simp
    from summary_of_defined [OF this] s show "b_key s = k \<and> b_samples s = length (filter (\<lambda>r. browser_key r = k) rows) \<and>
      b_with_ramp s \<le> b_samples s \<and> 0 < b_samples s" by auto
  qed
  then have keys: "map b_key ss = sorted_list_of_set ?K"
    and "map b_samples ss = map (\<lambda>k. length (filter (\<lambda>r. browser_key r = k) rows)) (sorted_list_of_set ?K)"
    and "list_all (\<lambda>s. b_with_ramp s \<le> b_samples s \<and> 0 < b_samples s) ss"
    by (induction rule: list_all2_induct) auto
  moreover have "sum_list (map (\<lambda>k. length (filter (\<lambda>r. browser_key r = k) rows)) (sorted_list_of_set ?K)) = length rows"
    using sum_counts [of ?K browser_key rows] by (simp add: sum_list_distinct_conv_sum_set)
  ultimately show ?thesis using ss by simp
qed

text \<open>
  The browser summary does not depend on the order in which the samples were taken.
\<close>

theorem browser_summary_order:
  assumes "mset rows = mset rows'"
  shows "browser_summarize rows = browser_summarize rows'"
proof -
  have "set rows = set rows'" using assms by (rule mset_eq_setD)
  then show ?thesis using summary_of_mset [OF assms] by (simp add: browser_summarize_def cong: map_res_cong)
qed

theorem browser_summary_order_witness:
  "browser_summarize
     [\<lparr>protocol = ''h2'', parallel = False, browser_group = ''https'', captured = []\<rparr>,
      \<lparr>protocol = ''h2'', parallel = True, browser_group = ''before'', captured = []\<rparr>] =
   browser_summarize
     [\<lparr>protocol = ''h2'', parallel = True, browser_group = ''before'', captured = []\<rparr>,
      \<lparr>protocol = ''h2'', parallel = False, browser_group = ''https'', captured = []\<rparr>]"
  by (rule browser_summary_order) simp

text \<open>
  Every repetition is compared: after a complete run, whatever the order in which the versions took turns, the comparison of a mode has
  one pair for each repetition, made of one trial of either version in this mode and repetition, and uses it for every metric
  that was measured.
\<close>

theorem comparison_uses_every_pair:
  assumes shuffles: "\<And>n xs. mset (shuffle n xs) = mset xs"
    and mode: "mode \<in> set modes"
    and measured: "\<And>p. p < turns \<Longrightarrow> map_of (results ''before'' mode (int p)) metric \<noteq> None"
  shows "length (filter (complete metric) (map snd (pairs_of (trial_rows results (schedule shuffle skip turns modes)) mode))) = turns"
proof -
  define rs where "rs = filter (\<lambda>r. trial_mode r = mode \<and> (group r = ''before'' \<or> group r = ''after''))
      (trial_rows results (schedule shuffle skip turns modes))"
  have rows: "r \<in> set rs \<longleftrightarrow> (\<exists>g p. (g = ''before'' \<or> g = ''after'') \<and> p < turns \<and>
      r = \<lparr>trial_mode = mode, group = g, pair = int p, metrics = results g mode (int p)\<rparr>)" for r
    unfolding rs_def by (rule schedule_rows [OF shuffles mode])
  define ps where "ps = fold set_pair rs []"
  have dist: "distinct (map fst ps)" by (simp add: ps_def pairs_keys)
  have "pair ` set rs = int ` {..<turns}" by (force simp: rows image_iff)
  then have keys: "fst ` set ps = int ` {..<turns}" by (simp add: ps_def pairs_keys)
  have "length ps = card (fst ` set ps)" using dist by (metis distinct_card length_map set_map)
  also have "\<dots> = turns" by (simp add: keys card_image)
  finally have len: "length ps = turns" .
  have "complete metric q" if "(k, q) \<in> set ps" for k q
  proof -
    from that keys obtain p where p: "p < turns" "k = int p" by force
    have "k \<in> pair ` set rs" using that pairs_keys(1) [of rs "[]"] by (force simp: ps_def)
    then have "q = fold add_row (filter (\<lambda>r. pair r = k) rs) []"
      using map_of_is_SomeI [OF dist that] pairs_fold [of rs "[]" k] by (simp add: ps_def)
    then show ?thesis using complete_pair [of rs turns mode results p metric, OF rows p(1) measured [OF p(1)]] p(2) by simp
  qed
  then have "filter (complete metric) (map snd ps) = map snd ps" by (auto simp: filter_id_conv)
  then show ?thesis using len by (simp add: pairs_of_def ps_def rs_def)
qed

theorem comparison_uses_every_pair_witness:
  "length (filter (complete ''throughput'') (map snd (pairs_of (trial_rows (\<lambda>g m p. [(''throughput'', 1)])
     (schedule (\<lambda>n xs. rev xs) False 2 [''U'', ''S''])) ''S''))) = 2"
  by (rule comparison_uses_every_pair) simp_all

end
