(* ===== verification/Lab.thy ===== *)
theory Lab
  imports Complex_Main Fixtures Packages Captures
begin

text \<open>
  The bench on which the measuring scripts of \<^verbatim>\<open>veil-core/scripts\<close> run the proxies: processes and their logs, performance counters
  (\<open>Perf\<close> of \<^verbatim>\<open>benchmark.py\<close>), the lines a load generator prints, what \<^verbatim>\<open>/proc\<close> says of a process, and the completion counters
  in the log of a proxy. Everything outside the scripts (ports, processes, \<open>perf\<close>, the recording relay) answers through \<open>outside\<close>, a
  record of functions of what has happened so far, so that the same question may be answered differently later.
\<close>

section \<open>The bench\<close>

datatype act =
    Port
  | Started "string list"
  | Polled nat
  | Attempts int nat
  | Asked nat
  | Told nat string
  | Waited nat
  | Examined string nat
  | Counting nat string
  | Attached "string list"
  | Interrupted nat
  | Connected int
  | Fetched nat
  | Tapped string
  | Called "string list"

record outside =
  lab_site :: site
  repr_args :: "string list \<Rightarrow> string"
  free_port :: "act list \<Rightarrow> int"
  starts :: "string list \<Rightarrow> env \<Rightarrow> act list \<Rightarrow> bool res"
  ended :: "nat \<Rightarrow> act list \<Rightarrow> bool"
  connects :: "int \<Rightarrow> act list \<Rightarrow> bool"
  line_of :: "nat \<Rightarrow> act list \<Rightarrow> string option"
  hears :: "nat \<Rightarrow> act list \<Rightarrow> unit res"
  exit_status :: "nat \<Rightarrow> act list \<Rightarrow> int option"
  proc_text :: "string \<Rightarrow> nat \<Rightarrow> act list \<Rightarrow> string res"
  log_text :: "nat \<Rightarrow> act list \<Rightarrow> string"
  pid_of :: "nat \<Rightarrow> nat"
  perf_pid :: "nat \<Rightarrow> nat"
  perf_starts :: "string list \<Rightarrow> act list \<Rightarrow> unit res"
  perf_ended :: "nat \<Rightarrow> act list \<Rightarrow> bool"
  perf_ack :: "nat \<Rightarrow> act list \<Rightarrow> string option"
  perf_stops :: "nat \<Rightarrow> act list \<Rightarrow> bool"
  perf_csv :: "nat \<Rightarrow> act list \<Rightarrow> string res"
  tls_connects :: "int \<Rightarrow> act list \<Rightarrow> unit res"
  fetches :: "nat \<Rightarrow> act list \<Rightarrow> (int \<times> bytes) res"
  tap_port :: "act list \<Rightarrow> int res"
  tap_relay :: "act list \<Rightarrow> relay"
  tap_done :: "act list \<Rightarrow> bool"
  clock_ticks :: int
  page_size :: int

text \<open>A counter holds two pipes and a log open until it is closed; \<open>perf_runs\<close> says whether \<open>perf\<close> itself still runs.\<close>

record perf =
  perf_folder :: path
  cf_open :: bool
  af_open :: bool
  perf_log :: bool
  perf_runs :: bool

text \<open>
  What a trial has: the host, its processes in the order they were started, for each log whether it is open, all counters made, the
  indices of those the trial still has to close, whether a relay is open, the callbacks of an \<open>ExitStack\<close>, and the past.
\<close>

datatype callback = Close_log nat | Stop nat | Close_tap

record lab =
  machine :: host
  table :: "(string list \<times> process) list"
  logs :: "bool list"
  perfs :: "perf list"
  counters :: "nat list"
  tap :: bool
  stack :: "callback list"
  past :: "act list"

definition new_lab :: "host \<Rightarrow> lab" where
  "new_lab h = \<lparr>machine = h, table = [], logs = [], perfs = [], counters = [], tap = False, stack = [], past = []\<rparr>"

definition on_machine :: "(host, 'a) io \<Rightarrow> (lab, 'a) io" where
  "on_machine m l = (case m (machine l) of (r, h) \<Rightarrow> (r, l\<lparr>machine := h\<rparr>))"

definition noted :: "act \<Rightarrow> (lab, unit) io" where
  "noted a = modify (\<lambda>l. l\<lparr>past := past l @ [a]\<rparr>)"

text \<open>Asking the outside: the answer depends on the past, which then contains the question.\<close>

definition ask :: "act \<Rightarrow> (act list \<Rightarrow> 'a) \<Rightarrow> (lab, 'a) io" where
  "ask a f = bnd (gets (\<lambda>l. f (past l))) (\<lambda>x. seq (noted a) (ret x))"

definition port :: "outside \<Rightarrow> (lab, int) io" where
  "port W = ask Port (free_port W)"

section \<open>Processes\<close>

text \<open>\<open>Popen\<close> raises, or starts a process that heeds \<open>SIGTERM\<close> or not; it is known by its place in the table.\<close>

definition lab_popen :: "outside \<Rightarrow> string list \<Rightarrow> env \<Rightarrow> (lab, nat) io" where
  "lab_popen W full env =
     bnd (gets past) (\<lambda>before.
     bnd (lift_res (starts W full env before)) (\<lambda>heeds.
     bnd (gets (\<lambda>l. length (table l))) (\<lambda>n.
     seq (noted (Started full))
     (seq (modify (\<lambda>l. l\<lparr>table := table l @ [(full, \<lparr>alive = True, heeds_term = heeds, signals = []\<rparr>)]\<rparr>))
     (ret n)))))"

definition lab_spawn :: "outside \<Rightarrow> string list \<Rightarrow> string \<Rightarrow> nat \<Rightarrow> (lab, nat) io" where
  "lab_spawn W cmd cores gomax = lab_popen W (spawn_command cmd cores) (spawn_env (lab_site W) gomax)"

definition log_name :: "nat \<Rightarrow> string" where
  "log_name n = ''process-'' @ dec n @ ''.log''"

text \<open>\<open>launch\<close>: a new log, named by the number of processes, then the process.\<close>

definition launch :: "outside \<Rightarrow> path \<Rightarrow> string list \<Rightarrow> string \<Rightarrow> nat \<Rightarrow> (lab, nat) io" where
  "launch W folder cmd cores gomax =
     bnd (gets (\<lambda>l. length (table l))) (\<lambda>n.
     seq (on_machine (on_files (write_text (folder @ [log_name n]) [])))
     (seq (modify (\<lambda>l. l\<lparr>logs := logs l @ [True]\<rparr>))
     (lab_spawn W cmd cores gomax)))"

definition process_of :: "lab \<Rightarrow> nat \<Rightarrow> process" where
  "process_of l n = snd (table l ! n)"

definition set_process :: "nat \<Rightarrow> (process \<Rightarrow> process) \<Rightarrow> (lab, unit) io" where
  "set_process n f = modify (\<lambda>l. l\<lparr>table := (table l)[n := map_prod id f (table l ! n)]\<rparr>)"

text \<open>\<open>poll\<close>: a process may have ended by itself.\<close>

definition lab_poll :: "outside \<Rightarrow> nat \<Rightarrow> (lab, unit) io" where
  "lab_poll W n =
     bnd (ask (Polled n) (ended W n)) (\<lambda>gone.
     when_io gone (set_process n (\<lambda>p. p\<lparr>alive := False\<rparr>)))"

definition lab_stop :: "outside \<Rightarrow> nat \<Rightarrow> (lab, unit) io" where
  "lab_stop W n = seq (lab_poll W n) (set_process n stop)"

text \<open>
  Waiting for a port on this bench: the attempts are answered by the outside, one after the other; \<open>wait\<close> says what comes of the answers.
\<close>

definition lab_wait :: "outside \<Rightarrow> ((nat \<Rightarrow> bool) \<Rightarrow> (nat \<Rightarrow> bool) \<Rightarrow> nat res) \<Rightarrow> int \<Rightarrow> nat \<Rightarrow> (lab, unit) io" where
  "lab_wait W wait p n =
     bnd (gets (\<lambda>l. wait (\<lambda>i. ended W n (past l @ replicate i (Attempts p n))) (\<lambda>i. connects W p (past l @ replicate i (Attempts p n))))) (\<lambda>r.
     seq (noted (Attempts p n))
     (case r of
        Inl (RuntimeError m) \<Rightarrow> seq (set_process n (\<lambda>p. p\<lparr>alive := False\<rparr>)) (raise (RuntimeError m))
      | Inl e \<Rightarrow> raise e
      | Inr i \<Rightarrow> ret ()))"

definition lab_wait_port :: "outside \<Rightarrow> int \<Rightarrow> nat \<Rightarrow> (lab, unit) io" where
  "lab_wait_port W p n = bnd (gets (\<lambda>l. fst (table l ! n))) (\<lambda>cmd. lab_wait W (wait_port (repr_args W cmd)) p n)"

section \<open>Lines, \<^verbatim>\<open>/proc\<close> and numbers\<close>

definition line :: "outside \<Rightarrow> nat \<Rightarrow> (lab, json) io" where
  "line W n =
     bnd (ask (Asked n) (line_of W n)) (\<lambda>ready.
     case ready of
       None \<Rightarrow> raise (TimeoutError ''benchmark output timeout'')
     | Some raw \<Rightarrow> if raw = [] then raise (RuntimeError ''benchmark exited early'') else lift_res (loads raw))"

text \<open>\<open>stdin.write(text)\<close> and \<open>flush()\<close>, and \<open>wait(timeout=5)\<close>.\<close>

definition tell :: "outside \<Rightarrow> nat \<Rightarrow> string \<Rightarrow> (lab, unit) io" where
  "tell W n text = bnd (ask (Told n text) (hears W n)) lift_res"

definition wait_exit :: "outside \<Rightarrow> nat \<Rightarrow> (lab, int) io" where
  "wait_exit W n =
     bnd (ask (Waited n) (exit_status W n)) (\<lambda>status.
     case status of
       None \<Rightarrow> bnd (gets (\<lambda>l. fst (table l ! n))) (\<lambda>cmd. raise (TimeoutExpired cmd))
     | Some rc \<Rightarrow> seq (set_process n (\<lambda>p. p\<lparr>alive := False\<rparr>)) (ret rc))"

lemma dropWhile_shorter: "t = dropWhile P s \<Longrightarrow> t \<noteq> [] \<Longrightarrow> length (dropWhile (\<lambda>c. \<not> P c) t) < length s"
proof -
  assume t: "t = dropWhile P s" "t \<noteq> []"
  then have "\<not> P (hd t)" using hd_dropWhile by blast
  then have "dropWhile (\<lambda>c. \<not> P c) t = dropWhile (\<lambda>c. \<not> P c) (tl t)" using t(2) by (cases t) simp_all
  moreover have "length (dropWhile (\<lambda>c. \<not> P c) (tl t)) < length t"
    using length_dropWhile_le [of _ "tl t"] t(2) by (metis length_tl diff_less le_less_trans length_greater_0_conv zero_less_one)
  ultimately show ?thesis using t(1) length_dropWhile_le [of P s] by simp
qed

text \<open>\<open>text.split()\<close>\<close>

function words_of :: "string \<Rightarrow> string list" where
  "words_of s =
     (let t = dropWhile is_space s in
      if t = [] then [] else takeWhile (\<lambda>c. \<not> is_space c) t # words_of (dropWhile (\<lambda>c. \<not> is_space c) t))"
  by pat_completeness auto

termination
  by (relation "measure length") (auto intro: dropWhile_shorter)

declare words_of.simps [simp del]

definition cpu :: "outside \<Rightarrow> nat \<Rightarrow> (lab, rat) io" where
  "cpu W n =
     bnd (ask (Examined ''stat'' n) (proc_text W ''stat'' n)) (\<lambda>r.
     bnd (lift_res r) (\<lambda>text.
     case find_sub '') '' text of
       None \<Rightarrow> raise IndexError
     | Some i \<Rightarrow>
         (let fields = words_of (drop (i + 2) text) in
          bnd (lift_res (bind_res (Prelude.at fields 11) py_int)) (\<lambda>user.
          bnd (lift_res (bind_res (Prelude.at fields 12) py_int)) (\<lambda>system.
          if clock_ticks W = 0 then raise ZeroDivisionError else ret (of_int (user + system) / of_int (clock_ticks W)))))))"

definition rss :: "outside \<Rightarrow> nat \<Rightarrow> (lab, int) io" where
  "rss W n =
     bnd (ask (Examined ''statm'' n) (proc_text W ''statm'' n)) (\<lambda>r.
     bnd (lift_res r) (\<lambda>text.
     bnd (lift_res (bind_res (Prelude.at (words_of text) 1) py_int)) (\<lambda>pages. ret (pages * page_size W))))"

text \<open>
  \<open>float(text)\<close> of a decimal number: sign, digits, fraction, exponent. Infinities, not-a-number and underscores, which neither \<open>perf\<close> nor the
  load generators print, count as no number.
\<close>

definition digits_of :: "string \<Rightarrow> string \<times> string" where
  "digits_of s = (takeWhile is_digit s, dropWhile is_digit s)"

definition signed :: "string \<Rightarrow> bool \<times> string" where
  "signed s = (startswith s ''-'', if startswith s ''-'' \<or> startswith s ''+'' then drop 1 s else s)"

definition scaled :: "string \<Rightarrow> string \<Rightarrow> string \<Rightarrow> rat option" where
  "scaled whole tail rest =
     (let m = rat_of_nat (undec (whole @ tail)) / 10 ^ length tail in
      if whole @ tail = [] then None
      else if rest = [] then Some m
      else if startswith rest ''e'' \<or> startswith rest ''E''
      then let (neg, t) = signed (drop 1 rest); (e, u) = digits_of t in
        if e = [] \<or> u \<noteq> [] then None else Some (if neg then m / 10 ^ undec e else m * 10 ^ undec e)
      else None)"

definition float_of :: "string \<Rightarrow> rat option" where
  "float_of s =
     (let (neg, t) = signed (strip s); (whole, r) = digits_of t;
          (tail, rest) = (if startswith r ''.'' then digits_of (drop 1 r) else ([], r)) in
      map_option (\<lambda>m. if neg then - m else m) (scaled whole tail rest))"

definition number :: "json \<Rightarrow> rat res" where
  "number v =
     (case v of
        JInt i \<Rightarrow> Inr (of_int i)
      | JBool b \<Rightarrow> Inr (of_bool b)
      | JFloat s \<Rightarrow> (case float_of s of None \<Rightarrow> Inl type_error | Some r \<Rightarrow> Inr r)
      | _ \<Rightarrow> Inl type_error)"

definition py_div :: "rat \<Rightarrow> rat \<Rightarrow> rat res" where
  "py_div a b = (if b = 0 then Inl ZeroDivisionError else Inr (a / b))"

text \<open>\<open>value.get("ready")\<close> as a condition.\<close>

definition truthy :: "json \<Rightarrow> bool" where
  "truthy v =
     (case v of JNull \<Rightarrow> False | JBool b \<Rightarrow> b | JInt i \<Rightarrow> i \<noteq> 0 | JFloat s \<Rightarrow> float_of s \<noteq> Some 0
      | JStr s \<Rightarrow> s \<noteq> [] | JArr vs \<Rightarrow> vs \<noteq> [] | JObj ms \<Rightarrow> ms \<noteq> [])"

definition is_ready :: "json \<Rightarrow> bool res" where
  "is_ready v =
     (case v of
        JObj ms \<Rightarrow> Inr (case map_of ms ''ready'' of None \<Rightarrow> False | Some x \<Rightarrow> truthy x)
      | _ \<Rightarrow> Inl type_error)"

definition expect_ready :: "outside \<Rightarrow> nat \<Rightarrow> (lab, unit) io" where
  "expect_ready W n =
     bnd (line W n) (\<lambda>v.
     bnd (lift_res (is_ready v)) (\<lambda>ok. if ok then ret () else raise (RuntimeError ''load not ready'')))"

section \<open>Performance counters\<close>

text \<open>A named pipe is an empty file of this file system; only its name matters here.\<close>

definition mkfifo :: "path \<Rightarrow> (fs, unit) io" where
  "mkfifo p = bnd (gets (\<lambda>fs. lookup fs p)) (\<lambda>n. if n \<noteq> None then raise eexist else write_text p [])"

definition ctl :: "perf \<Rightarrow> path" where
  "ctl c = perf_folder c @ [''perf.ctl'']"

definition ack :: "perf \<Rightarrow> path" where
  "ack c = perf_folder c @ [''perf.ack'']"

definition perf_command_line :: "nat \<Rightarrow> perf \<Rightarrow> string list" where
  "perf_command_line pid c =
     [''sudo'', ''-n'', ''perf'', ''stat'', ''-p'', dec pid, ''--delay=-1'',
      ''--control=fifo:'' @ str (ctl c) @ '','' @ str (ack c), ''-x,'', ''-e'', ''task-clock,cycles,instructions'',
      ''-o'', str (perf_folder c @ [''perf.csv''])]"

text \<open>\<open>Perf(pid, folder)\<close> for the process \<open>n\<close> of the table; the counter is known by its number.\<close>

definition perf_new :: "outside \<Rightarrow> nat \<Rightarrow> path \<Rightarrow> (lab, nat) io" where
  "perf_new W n folder =
     (let c = \<lparr>perf_folder = folder, cf_open = True, af_open = True, perf_log = True, perf_runs = True\<rparr> in
      seq (on_machine (on_files (mkfifo (ctl c))))
      (seq (on_machine (on_files (mkfifo (ack c))))
      (seq (on_machine (on_files (write_text (folder @ [''perf.log'']) [])))
      (bnd (ask (Attached (perf_command_line (pid_of W n) c)) (perf_starts W (perf_command_line (pid_of W n) c))) (\<lambda>r.
      bnd (lift_res r) (\<lambda>_.
      bnd (gets (\<lambda>l. length (perfs l))) (\<lambda>k.
      seq (modify (\<lambda>l. l\<lparr>perfs := perfs l @ [c]\<rparr>)) (ret k))))))))"

definition set_perf :: "nat \<Rightarrow> (perf \<Rightarrow> perf) \<Rightarrow> (lab, unit) io" where
  "set_perf k f = modify (\<lambda>l. l\<lparr>perfs := (perfs l)[k := f (perfs l ! k)]\<rparr>)"

abbreviation ebadf :: exn where "ebadf \<equiv> OSError ''Bad file descriptor''"

definition perf_command :: "outside \<Rightarrow> nat \<Rightarrow> string \<Rightarrow> (lab, unit) io" where
  "perf_command W k s =
     bnd (gets (\<lambda>l. cf_open (perfs l ! k))) (\<lambda>open.
     if \<not> open then raise ebadf
     else bnd (ask (Counting k s) (perf_ack W k)) (\<lambda>answer.
     case answer of
       None \<Rightarrow> raise (RuntimeError ''perf control timeout'')
     | Some data \<Rightarrow> if contains ''ack'' data then ret () else raise (RuntimeError ''perf did not acknowledge'')))"

text \<open>\<open>os.close\<close> of one of the pipes: closing twice is an error.\<close>

definition close_pipe :: "nat \<Rightarrow> (perf \<Rightarrow> bool) \<Rightarrow> (perf \<Rightarrow> perf) \<Rightarrow> (lab, unit) io" where
  "close_pipe k is_open shut =
     bnd (gets (\<lambda>l. is_open (perfs l ! k))) (\<lambda>open. if open then set_perf k shut else raise ebadf)"

definition interrupt_perf :: "outside \<Rightarrow> nat \<Rightarrow> (lab, unit) io" where
  "interrupt_perf W k =
     bnd (ask (Interrupted k) (perf_ended W k)) (\<lambda>gone.
     bnd (gets (\<lambda>l. perf_runs (perfs l ! k))) (\<lambda>runs.
     if gone \<or> \<not> runs then set_perf k (\<lambda>c. c\<lparr>perf_runs := False\<rparr>)
     else seq (on_machine (bnd (run (tool (lab_site W)) (cwd (lab_site W)) (environ (lab_site W))
                 [''sudo'', ''-n'', ''kill'', ''-INT'', dec (perf_pid W k)]) (\<lambda>_. ret ())))
          (bnd (ask (Waited k) (perf_stops W k)) (\<lambda>stopped.
          if stopped then set_perf k (\<lambda>c. c\<lparr>perf_runs := False\<rparr>) else raise (TimeoutExpired [''sudo'', ''-n'', ''perf'', ''stat''])))))"

definition perf_close :: "outside \<Rightarrow> nat \<Rightarrow> (lab, unit) io" where
  "perf_close W k =
     seq (interrupt_perf W k)
     (seq (close_pipe k cf_open (\<lambda>c. c\<lparr>cf_open := False\<rparr>))
     (seq (close_pipe k af_open (\<lambda>c. c\<lparr>af_open := False\<rparr>))
     (seq (bnd (gets (\<lambda>l. perfs l ! k)) (\<lambda>c. on_machine (on_files (unlink False (ctl c)))))
     (seq (bnd (gets (\<lambda>l. perfs l ! k)) (\<lambda>c. on_machine (on_files (unlink False (ack c)))))
     (set_perf k (\<lambda>c. c\<lparr>perf_log := False\<rparr>))))))"

text \<open>\<open>text.splitlines()\<close> for lines that end in a newline.\<close>

definition lines_of :: "string \<Rightarrow> string list" where
  "lines_of s = (let ls = split_char nl s in if last ls = [] then butlast ls else ls)"

definition perf_row :: "string \<Rightarrow> (string \<times> rat) list \<Rightarrow> (string \<times> rat) list" where
  "perf_row row result =
     (let f = split_char CHR '','' row in
      if 2 < length f
      then (case float_of (f ! 0) of None \<Rightarrow> result | Some x \<Rightarrow> dict_set (f ! 2) x result)
      else result)"

definition perf_table :: "string \<Rightarrow> (string \<times> rat) list" where
  "perf_table csv = fold perf_row (lines_of csv) []"

definition perf_values :: "outside \<Rightarrow> nat \<Rightarrow> (lab, (string \<times> rat) list) io" where
  "perf_values W k =
     bnd (ask (Counting k ''values'') (perf_csv W k)) (\<lambda>r.
     bnd (lift_res r) (\<lambda>csv.
     let result = perf_table csv in
     if (case map_of result ''task-clock'' of None \<Rightarrow> 0 | Some x \<Rightarrow> x) \<le> 0
     then raise (RuntimeError (''no task-clock measurement: '' @ csv))
     else ret result))"

section \<open>Completion counters\<close>

text \<open>
  \<open>re.search\<close> of \<open>stopped accepted=(\d+) rejected=(\d+) completed=(\d+) failed=(\d+)\<close>: at each position in turn the labels, each
  followed by as many digits as there are. No label starts with a digit, so that a shorter run of digits never helps.
\<close>

definition counter_labels :: "string list" where
  "counter_labels = [''stopped accepted='', '' rejected='', '' completed='', '' failed='']"

fun match_labels :: "string list \<Rightarrow> string \<Rightarrow> nat list option" where
  "match_labels [] s = Some []"
| "match_labels (w # ws) s =
     (if startswith s w
      then let (ds, rest) = digits_of (drop (length w) s) in
        if ds = [] then None else map_option ((#) (undec ds)) (match_labels ws rest)
      else None)"

fun search_counters :: "string \<Rightarrow> nat list option" where
  "search_counters [] = match_labels counter_labels []"
| "search_counters (c # s) =
     (case match_labels counter_labels (c # s) of Some ns \<Rightarrow> Some ns | None \<Rightarrow> search_counters s)"

type_synonym stats = "(string \<times> nat) list"

definition stat_names :: "string list" where
  "stat_names = [''accepted'', ''rejected'', ''completed'', ''failed'']"

definition stats_of :: "string \<Rightarrow> string \<Rightarrow> stats res" where
  "stats_of missing text =
     (case search_counters text of None \<Rightarrow> Inl (RuntimeError missing) | Some ns \<Rightarrow> Inr (zip stat_names ns))"

text \<open>The log of a process is what the process wrote.\<close>

definition read_log :: "outside \<Rightarrow> nat \<Rightarrow> (lab, string) io" where
  "read_log W n = ask (Examined ''log'' n) (log_text W n)"

text \<open>The counters of a proxy that served the expected streams: nothing rejected, one failure (the probe of its port).\<close>

definition served :: "int \<Rightarrow> stats \<Rightarrow> bool" where
  "served streams st \<longleftrightarrow>
     (case (map_of st ''completed'', map_of st ''rejected'', map_of st ''failed'') of
        (Some c, Some r, Some f) \<Rightarrow> int c = streams \<and> r = 0 \<and> f = 1
      | _ \<Rightarrow> False)"

section \<open>Rows and configurations\<close>

text \<open>A cell of a row: what the load generator printed, or what the script computed.\<close>

datatype cell =
    Plain json
  | Num rat
  | Counters "(string \<times> rat) list"
  | Stats stats
  | Text string
  | Wires "(string \<times> string) list"

type_synonym row = "(string \<times> cell) list"

definition row_of :: "json \<Rightarrow> row res" where
  "row_of v = (case v of JObj ms \<Rightarrow> Inr (map (map_prod id Plain) ms) | _ \<Rightarrow> Inl type_error)"

definition row_number :: "string \<Rightarrow> row \<Rightarrow> rat res" where
  "row_number k r =
     bind_res (dict_get k r) (\<lambda>c. case c of Plain v \<Rightarrow> number v | Num x \<Rightarrow> Inr x | _ \<Rightarrow> Inl type_error)"

text \<open>Changing the \<open>tls\<close> part of a saved configuration: \<open>cfg["tls"].update(changes)\<close>, written back in one line.\<close>

definition tls_update :: "(string \<times> json) list \<Rightarrow> json \<Rightarrow> json res" where
  "tls_update changes cfg =
     bind_res (jget ''tls'' cfg) (\<lambda>tls.
     case (tls, cfg) of
       (JObj ts, JObj cs) \<Rightarrow> Inr (JObj (dict_set ''tls'' (JObj (dict_update ts changes)) cs))
     | _ \<Rightarrow> Inl type_error)"

definition set_key :: "string \<Rightarrow> json \<Rightarrow> json \<Rightarrow> json res" where
  "set_key k v cfg = (case cfg of JObj cs \<Rightarrow> Inr (JObj (dict_set k v cs)) | _ \<Rightarrow> Inl type_error)"

definition edit_config :: "keys_of \<Rightarrow> string \<Rightarrow> (json \<Rightarrow> json res) \<Rightarrow> (lab, unit) io" where
  "edit_config f name edit =
     (let p = fixture_folder f @ [name @ ''.json''] in
      on_machine (
        bnd (read_file p) (\<lambda>text.
        bnd (lift_res (bind_res (loads text) edit)) (\<lambda>cfg. write_file p (dumps None cfg)))))"

definition s_server :: "keys_of \<Rightarrow> int \<Rightarrow> string \<Rightarrow> string list" where
  "s_server f p suite =
     [''openssl'', ''s_server'', ''-accept'', local_port p, ''-cert'', cert_file f, ''-key'', key_file f, ''-tls1_3'',
      ''-ciphersuites'', suite, ''-groups'', ''X25519'', ''-www'', ''-alpn'', ''http/1.1'']"

definition backend_command :: "string \<Rightarrow> int \<Rightarrow> string list" where
  "backend_command peer p = [peer, ''-role'', ''backend'', ''-listen'', local_port p]"

definition benchpeer :: "outside \<Rightarrow> string" where
  "benchpeer W = str (core_root (lab_site W) @ [''.build'', ''benchpeer''])"

text \<open>The folder of a trial, \<open>folder.mkdir()\<close>: its parent must be there, it must not.\<close>

definition new_folder :: "path \<Rightarrow> (lab, unit) io" where
  "new_folder p =
     on_machine (on_files (\<lambda>fs.
       if exists fs p then (Inl eexist, fs)
       else if is_dir fs (butlast p) then (Inr (), put p Dir fs) else (Inl enoent, fs)))"

text \<open>
  The recording relay of \<^verbatim>\<open>probe.py\<close> in front of a port: its own port, or the error of its constructor. Its threads are modelled in
  \<open>Captures\<close>; here it is opened, read and closed.
\<close>

definition tap_open :: "outside \<Rightarrow> (lab, int) io" where
  "tap_open W =
     bnd (ask (Tapped ''open'') (tap_port W)) (\<lambda>r.
     bnd (lift_res r) (\<lambda>p. seq (modify (\<lambda>l. l\<lparr>tap := True\<rparr>)) (ret p)))"

definition tap_close :: "(lab, unit) io" where
  "tap_close = modify (\<lambda>l. l\<lparr>tap := False\<rparr>)"

section \<open>Ending a trial\<close>

text \<open>
  The \<open>finally\<close> block of the trials: close the counters that are left, stop the processes, the last one first, close the relay and the
  logs. An error of a counter ends the block.
\<close>

definition stop_all :: "outside \<Rightarrow> (lab, unit) io" where
  "stop_all W = bnd (gets (\<lambda>l. length (table l))) (\<lambda>n. for_io (rev [0..<n]) (lab_stop W))"

definition close_logs :: "(lab, unit) io" where
  "close_logs = modify (\<lambda>l. l\<lparr>logs := map (\<lambda>_. False) (logs l)\<rparr>)"

definition close_counters :: "outside \<Rightarrow> (lab, unit) io" where
  "close_counters W = bnd (gets counters) (\<lambda>ks. for_io ks (perf_close W))"

definition end_trial :: "outside \<Rightarrow> (lab, unit) io" where
  "end_trial W = seq (close_counters W) (seq (stop_all W) close_logs)"

definition end_tapped :: "outside \<Rightarrow> (lab, unit) io" where
  "end_tapped W = seq (close_counters W) (seq (stop_all W) (seq tap_close close_logs))"

text \<open>Leaving an \<open>ExitStack\<close>: the callbacks in reverse order.\<close>

definition run_callback :: "outside \<Rightarrow> callback \<Rightarrow> (lab, unit) io" where
  "run_callback W c =
     (case c of
        Close_log n \<Rightarrow> modify (\<lambda>l. l\<lparr>logs := (logs l)[n := False]\<rparr>)
      | Stop n \<Rightarrow> lab_stop W n
      | Close_tap \<Rightarrow> tap_close)"

definition push :: "callback \<Rightarrow> (lab, unit) io" where
  "push c = modify (\<lambda>l. l\<lparr>stack := stack l @ [c]\<rparr>)"

definition unwind :: "outside \<Rightarrow> (lab, unit) io" where
  "unwind W = bnd (gets stack) (\<lambda>cs. for_io (rev cs) (run_callback W))"

section \<open>What the operations keep\<close>

lemma keeps_modify: "(\<And>l. I l \<Longrightarrow> I (f l)) \<Longrightarrow> keeps I (modify f)"
  by (simp add: keeps_def modify_def)

lemma keeps_case_list [keeps_intros]:
  "keeps I m \<Longrightarrow> (\<And>x xs. keeps I (f x xs)) \<Longrightarrow> keeps I (case ys of [] \<Rightarrow> m | x # xs \<Rightarrow> f x xs)"
  by (cases ys) simp_all

text \<open>
  A predicate that does not depend on files, counters and questions, and that the end of a process does not break: every operation
  that starts no process keeps it.
\<close>

locale stable =
  fixes I :: "lab \<Rightarrow> bool"
  assumes machine: "I l \<Longrightarrow> I (l\<lparr>machine := h\<rparr>)"
    and past: "I l \<Longrightarrow> (\<And>c. a \<noteq> Started c) \<Longrightarrow> I (l\<lparr>past := past l @ [a]\<rparr>)"
    and perfs: "I l \<Longrightarrow> I (l\<lparr>perfs := ps\<rparr>)"
    and counters: "I l \<Longrightarrow> I (l\<lparr>counters := ks\<rparr>)"
    and closed: "I l \<Longrightarrow> I (l\<lparr>tap := False\<rparr>)"
    and ends: "I l \<Longrightarrow> (\<And>p. alive (g p) \<Longrightarrow> alive p) \<Longrightarrow> I (l\<lparr>table := (table l)[n := map_prod id g (table l ! n)]\<rparr>)"
begin

lemma keeps_machine [keeps_intros]: "keeps I (on_machine m)"
  by (auto simp: keeps_def on_machine_def machine split: prod.splits)

lemma keeps_noted [keeps_intros]: "(\<And>c. a \<noteq> Started c) \<Longrightarrow> keeps I (noted a)"
  unfolding noted_def by (rule keeps_modify) (rule past)

lemma keeps_ask [keeps_intros]: "(\<And>c. a \<noteq> Started c) \<Longrightarrow> keeps I (ask a f)"
  unfolding ask_def by (intro keeps_intros)

lemma keeps_set_process [keeps_intros]: "(\<And>p. alive (g p) \<Longrightarrow> alive p) \<Longrightarrow> keeps I (set_process n g)"
  unfolding set_process_def by (rule keeps_modify) (rule ends)

lemma keeps_tap_close [keeps_intros]: "keeps I tap_close"
  unfolding tap_close_def by (rule keeps_modify) (rule closed)

lemma keeps_set_perf [keeps_intros]: "keeps I (set_perf k g)"
  unfolding set_perf_def by (rule keeps_modify) (rule perfs)

lemma keeps_add_perf [keeps_intros]: "keeps I (modify (\<lambda>l. l\<lparr>perfs := F l\<rparr>))"
  by (rule keeps_modify) (rule perfs)

lemma keeps_counters [keeps_intros]: "keeps I (modify (\<lambda>l. l\<lparr>counters := F l\<rparr>))"
  by (rule keeps_modify) (rule counters)

lemma keeps_processes [keeps_intros]:
  "keeps I (port W)" "keeps I (lab_poll W n)" "keeps I (lab_stop W n)" "keeps I (line W n)" "keeps I (tell W n t)" "keeps I (wait_exit W n)"
  unfolding port_def lab_poll_def lab_stop_def line_def tell_def wait_exit_def
  by (intro keeps_intros; simp add: stop_def Let_def split: if_splits)+

lemma keeps_wait [keeps_intros]: "keeps I (lab_wait W wait p n)"
  unfolding lab_wait_def
  by (intro keeps_intros; simp split: sum.split exn.split; intro allI impI conjI keeps_intros; simp)

lemma keeps_wait_port [keeps_intros]: "keeps I (lab_wait_port W p n)"
  unfolding lab_wait_port_def by (intro keeps_intros)

lemma keeps_readings [keeps_intros]:
  "keeps I (cpu W n)" "keeps I (rss W n)" "keeps I (expect_ready W n)" "keeps I (read_log W n)"
  unfolding cpu_def rss_def expect_ready_def read_log_def Let_def by (intro keeps_intros; simp)+

lemma keeps_perf [keeps_intros]:
  "keeps I (perf_new W n p)" "keeps I (perf_command W k t)" "keeps I (close_pipe k op sh)" "keeps I (interrupt_perf W k)"
  "keeps I (perf_values W k)"
  unfolding perf_new_def perf_command_def close_pipe_def interrupt_perf_def perf_values_def Let_def
  by (intro keeps_intros; simp)+

lemma keeps_closing [keeps_intros]: "keeps I (perf_close W k)" "keeps I (close_counters W)" "keeps I (stop_all W)"
  unfolding perf_close_def close_counters_def stop_all_def by (intro keeps_intros)+

lemma keeps_files [keeps_intros]: "keeps I (edit_config f name e)" "keeps I (new_folder p)"
  unfolding edit_config_def new_folder_def Let_def by (intro keeps_intros)+

end

text \<open>Every process that was started is in the table.\<close>

definition started_commands :: "act list \<Rightarrow> string list list" where
  "started_commands acts = concat (map (\<lambda>a. case a of Started c \<Rightarrow> [c] | _ \<Rightarrow> []) acts)"

definition accounted :: "lab \<Rightarrow> bool" where
  "accounted l \<longleftrightarrow> map fst (table l) = started_commands (past l)"

lemma started_commands_other: "(\<And>c. a \<noteq> Started c) \<Longrightarrow> started_commands (acts @ [a]) = started_commands acts"
  by (cases a) (auto simp: started_commands_def)

interpretation accounted: stable accounted
proof
  fix l :: lab and g :: "process \<Rightarrow> process" and n
  assume "accounted l"
  moreover have "map fst ((table l)[n := map_prod id g (table l ! n)]) = map fst (table l)"
    by (simp add: map_update) (metis list_update_beyond list_update_id length_map not_le nth_map)
  ultimately show "accounted (l\<lparr>table := (table l)[n := map_prod id g (table l ! n)]\<rparr>)"
    by (simp add: accounted_def)
qed (simp_all add: accounted_def started_commands_other)

lemma spawn_accounted [keeps_intros]: "keeps accounted (lab_popen W full env)" "keeps accounted (lab_spawn W cmd cores gomax)"
  by (auto simp: keeps_def lab_spawn_def lab_popen_def noted_def accounted_def started_commands_def Let_def io_simps split: sum.splits prod.splits)

lemma launch_accounted [keeps_intros]: "keeps accounted (launch W folder cmd cores gomax)"
  unfolding launch_def
  by (intro keeps_intros keeps_modify) (simp add: accounted_def)

lemma accounted_simple [keeps_intros]:
  "keeps accounted (modify (\<lambda>l. l\<lparr>logs := F l\<rparr>))" "keeps accounted (modify (\<lambda>l. l\<lparr>tap := b\<rparr>))" "keeps accounted (push c)"
  "keeps accounted close_logs"
  unfolding push_def close_logs_def by (rule keeps_modify, simp add: accounted_def)+

section \<open>What the ends of a trial leave\<close>

definition clean :: "lab \<Rightarrow> bool" where
  "clean l \<longleftrightarrow> list_all (\<lambda>cp. \<not> alive (snd cp)) (table l) \<and> list_all Not (logs l) \<and> \<not> tap l"

text \<open>\<open>calmer l l'\<close>: the same processes and logs, none of which came back.\<close>

definition calmer :: "lab \<Rightarrow> lab \<Rightarrow> bool" where
  "calmer l l' \<longleftrightarrow>
     length (table l') = length (table l) \<and> (\<forall>n<length (table l). alive (process_of l' n) \<longrightarrow> alive (process_of l n)) \<and>
     length (logs l') = length (logs l) \<and> (\<forall>k<length (logs l). logs l' ! k \<longrightarrow> logs l ! k) \<and> (tap l' \<longrightarrow> tap l)"

lemma calmer_refl [simp]: "calmer l l"
  by (simp add: calmer_def)

lemma calmer_trans: "calmer l l' \<Longrightarrow> calmer l' l'' \<Longrightarrow> calmer l l''"
  by (simp add: calmer_def)

lemma clean_nth:
  "clean l \<longleftrightarrow> (\<forall>n<length (table l). \<not> alive (process_of l n)) \<and> (\<forall>k<length (logs l). \<not> logs l ! k) \<and> \<not> tap l"
  by (auto simp: clean_def list_all_length process_of_def)

text \<open>Stopping never raises, ends the process and nothing comes back.\<close>

lemma set_process_calmer:
  assumes "\<And>p. alive (g p) \<Longrightarrow> alive p"
  shows "calmer l (snd (set_process n g l))"
proof -
  have "alive (snd ((table l)[n := map_prod id g (table l ! n)] ! i)) \<Longrightarrow> alive (snd (table l ! i))" if "i < length (table l)" for i
    using assms that by (cases "i = n") auto
  then show ?thesis by (simp add: calmer_def set_process_def modify_def process_of_def)
qed

lemma update_calmer: "(\<And>p. alive (g p) \<Longrightarrow> alive p) \<Longrightarrow> calmer l (l\<lparr>table := (table l)[n := map_prod id g (table l ! n)]\<rparr>)"
  using set_process_calmer [of g l n] by (simp add: set_process_def modify_def)

lemma lab_poll_run:
  obtains l' where "lab_poll W n l = (Inr (), l')" "calmer l l'" "stack l' = stack l"
proof -
  let ?l = "l\<lparr>past := past l @ [Polled n]\<rparr>"
  have "calmer l (snd (set_process n (\<lambda>p. p\<lparr>alive := False\<rparr>) ?l))"
    by (rule calmer_trans [of l ?l], simp add: calmer_def process_of_def) (rule set_process_calmer, simp)
  moreover have "calmer l ?l" by (simp add: calmer_def process_of_def)
  ultimately show ?thesis
    using that by (cases "ended W n (past l)") (simp_all add: lab_poll_def set_process_def ask_def noted_def io_simps)
qed

lemma lab_stop_run:
  obtains l' where "lab_stop W n l = (Inr (), l')" "calmer l l'" "stack l' = stack l" "n < length (table l) \<Longrightarrow> \<not> alive (process_of l' n)"
proof -
  obtain l1 where l1: "lab_poll W n l = (Inr (), l1)" "calmer l l1" "stack l1 = stack l" by (rule lab_poll_run)
  let ?l = "snd (set_process n stop l1)"
  have "calmer l1 ?l" by (rule set_process_calmer) (simp add: stop_def Let_def split: if_splits)
  with l1(2) have "calmer l ?l" by (rule calmer_trans)
  moreover have "lab_stop W n l = (Inr (), ?l)" "stack ?l = stack l"
    using l1 by (simp_all add: lab_stop_def seq_def bnd_def set_process_def modify_def)
  moreover have "\<not> alive (process_of ?l n)" if "n < length (table l)"
    using that l1(2) by (simp add: set_process_def modify_def process_of_def calmer_def stop_def Let_def)
  ultimately show ?thesis using that by blast
qed

text \<open>The callbacks, and with them every end of a trial, are a loop of such steps.\<close>

definition settles :: "callback \<Rightarrow> lab \<Rightarrow> bool" where
  "settles c l =
     (case c of
        Close_log k \<Rightarrow> k < length (logs l) \<longrightarrow> \<not> logs l ! k
      | Stop n \<Rightarrow> n < length (table l) \<longrightarrow> \<not> alive (process_of l n)
      | Close_tap \<Rightarrow> \<not> tap l)"

lemma settles_calmer: "calmer l l' \<Longrightarrow> settles c l \<Longrightarrow> settles c l'"
  by (cases c) (auto simp: settles_def calmer_def)

lemma closed_nth: "i < length bs \<Longrightarrow> bs[k := False] ! i \<Longrightarrow> bs ! i"
  by (cases "i = k") simp_all

lemma run_callback_run:
  obtains l' where "run_callback W c l = (Inr (), l')" "calmer l l'" "settles c l'"
proof (cases c)
  case (Close_log k)
  show ?thesis
    by (rule that [of "l\<lparr>logs := (logs l)[k := False]\<rparr>"])
      (auto simp: Close_log run_callback_def modify_def calmer_def process_of_def settles_def dest: closed_nth)
next
  case (Stop n)
  obtain l' where "lab_stop W n l = (Inr (), l')" "calmer l l'" "n < length (table l) \<Longrightarrow> \<not> alive (process_of l' n)"
    by (rule lab_stop_run [of W n l]) blast
  then show ?thesis using that [of l'] by (simp add: Stop run_callback_def settles_def calmer_def)
next
  case Close_tap
  show ?thesis
    by (rule that [of "l\<lparr>tap := False\<rparr>"]) (simp_all add: Close_tap run_callback_def tap_close_def modify_def calmer_def process_of_def settles_def)
qed

lemma callbacks_run:
  obtains l' where "for_io cs (run_callback W) l = (Inr (), l')" "calmer l l'" "\<And>c. c \<in> set cs \<Longrightarrow> settles c l'"
proof (induction cs arbitrary: l thesis)
  case Nil
  then show ?case by (simp add: ret_def)
next
  case (Cons c cs)
  obtain l1 where l1: "run_callback W c l = (Inr (), l1)" "calmer l l1" "settles c l1" by (rule run_callback_run)
  obtain l2 where l2: "for_io cs (run_callback W) l1 = (Inr (), l2)" "calmer l1 l2" "\<And>c. c \<in> set cs \<Longrightarrow> settles c l2"
    using Cons.IH by blast
  have "for_io (c # cs) (run_callback W) l = (Inr (), l2)" using l1(1) l2(1) by (simp add: seq_def bnd_def)
  moreover have "calmer l l2" using l1(2) l2(2) by (rule calmer_trans)
  moreover have "\<And>d. d \<in> set (c # cs) \<Longrightarrow> settles d l2" using l2 l1(3) settles_calmer by auto
  ultimately show ?case by (rule Cons.prems)
qed

lemma clean_calmer: "clean l \<Longrightarrow> calmer l l' \<Longrightarrow> clean l'"
  by (simp add: clean_nth calmer_def)

lemma stop_all_run:
  obtains l' where "stop_all W l = (Inr (), l')" "calmer l l'" "\<And>n. n < length (table l') \<Longrightarrow> \<not> alive (process_of l' n)"
proof -
  have "for_io (map f xs) g = for_io xs (g \<circ> f)" for f :: "nat \<Rightarrow> callback" and xs and g :: "callback \<Rightarrow> (lab, unit) io"
    by (induction xs) simp_all
  then have eq: "stop_all W l = for_io (map Stop (rev [0..<length (table l)])) (run_callback W) l"
    by (simp add: stop_all_def gets_def bnd_def comp_def run_callback_def)
  obtain l' where l': "for_io (map Stop (rev [0..<length (table l)])) (run_callback W) l = (Inr (), l')" "calmer l l'"
    "\<And>c. c \<in> set (map Stop (rev [0..<length (table l)])) \<Longrightarrow> settles c l'"
    by (rule callbacks_run [of "map Stop (rev [0..<length (table l)])" W l]) blast
  have "settles (Stop n) l'" if "n < length (table l')" for n
    using l'(2) l'(3) [of "Stop n"] that by (simp add: calmer_def)
  then show ?thesis using that [of l'] l'(1,2) eq by (simp add: settles_def)
qed

text \<open>The errors of closing a counter.\<close>

definition close_fails :: "outside \<Rightarrow> exn \<Rightarrow> bool" where
  "close_fails W e \<longleftrightarrow> (\<exists>k l l'. perf_close W k l = (Inl e, l'))"

lemma for_io_error: "for_io xs f w = (Inl e, w') \<Longrightarrow> \<exists>x u v. f x u = (Inl e, v)"
  by (induction xs arbitrary: w) (auto simp: ret_def seq_def bnd_def split: prod.splits sum.splits)

lemma close_counters_error: "close_counters W l = (Inl e, l') \<Longrightarrow> close_fails W e"
  unfolding close_counters_def close_fails_def by (auto simp: bnd_def gets_def dest: for_io_error)

text \<open>
  The interface of a final block: from a state the body may leave, either everything has ended, or the block raised an error of
  a certain kind, and no process is forgotten.
\<close>

locale trial_block =
  fixes fin :: "(lab, unit) io" and I :: "lab \<Rightarrow> bool" and fails :: "exn \<Rightarrow> bool"
  assumes outcome: "I l \<Longrightarrow> fin l = (r, l') \<Longrightarrow> clean l' \<or> (\<exists>e. r = Inl e \<and> fails e)"
    and accounts: "keeps accounted fin"
begin

lemma ends_clean:
  assumes "keeps I body" "keeps accounted body" "I l" "accounted l"
  shows "case try_finally body fin l of (r, l') \<Rightarrow> accounted l' \<and> (clean l' \<or> (\<exists>e. r = Inl e \<and> fails e))"
proof -
  obtain r1 l1 where b: "body l = (r1, l1)" by fastforce
  obtain r2 l2 where e: "fin l1 = (r2, l2)" by fastforce
  have l1: "I l1" "accounted l1" by (rule keepsD [OF assms(1) b assms(3)], rule keepsD [OF assms(2) b assms(4)])
  have "accounted l2" by (rule keepsD [OF accounts e l1(2)])
  then show ?thesis
    using b e outcome [OF l1(1) e] by (cases r2) (auto simp: try_finally_def)
qed

end

text \<open>Most final blocks promise more: they raise only those errors.\<close>

locale trial_end =
  fixes fin :: "(lab, unit) io" and I :: "lab \<Rightarrow> bool" and fails :: "exn \<Rightarrow> bool"
  assumes finishes: "I l \<Longrightarrow> fin l = (Inr u, l') \<Longrightarrow> clean l'"
    and error: "I l \<Longrightarrow> fin l = (Inl e, l') \<Longrightarrow> fails e"
    and known: "keeps accounted fin"

sublocale trial_end \<subseteq> trial_block fin I fails
proof
  show "clean l' \<or> (\<exists>e. r = Inl e \<and> fails e)" if "I l" "fin l = (r, l')" for l l' r
    using that finishes error by (cases r) auto
qed (rule known)

interpretation untapped: stable "\<lambda>l. \<not> tap l"
  by unfold_locales simp_all

interpretation anything: stable "\<lambda>l. True"
  by unfold_locales simp_all

lemma launch_untapped [keeps_intros]:
  "keeps (\<lambda>l. \<not> tap l) (lab_popen W full env)" "keeps (\<lambda>l. \<not> tap l) (lab_spawn W cmd cores gomax)" "keeps (\<lambda>l. \<not> tap l) (launch W p cmd cores gomax)"
proof -
  show p: "keeps (\<lambda>l. \<not> tap l) (lab_popen W full env)" for full env
    by (auto simp: keeps_def lab_popen_def noted_def io_simps split: sum.splits prod.splits)
  show s: "keeps (\<lambda>l. \<not> tap l) (lab_spawn W cmd cores gomax)" for cmd cores gomax
    unfolding lab_spawn_def by (rule p)
  show "keeps (\<lambda>l. \<not> tap l) (launch W p cmd cores gomax)"
    unfolding launch_def by (intro keeps_intros s keeps_modify) simp
qed

lemma keeps_True: "keeps (\<lambda>l. True) m"
  by (simp add: keeps_def)

lemma close_logs_run: "close_logs l = (Inr (), l\<lparr>logs := map (\<lambda>_. False) (logs l)\<rparr>)"
  by (simp add: close_logs_def modify_def)

interpretation measured: trial_end "end_trial W" "\<lambda>l. \<not> tap l" "close_fails W" for W
proof
  fix l l' :: lab and u e
  assume untapped: "\<not> tap l"
  have kept: "close_counters W l = (r, l1) \<Longrightarrow> \<not> tap l1" for r l1 using untapped keepsD [OF untapped.keeps_closing(2)] by blast
  obtain r l1 where c: "close_counters W l = (r, l1)" by fastforce
  obtain l2 where s: "stop_all W l1 = (Inr (), l2)" "calmer l1 l2" "\<And>n. n < length (table l2) \<Longrightarrow> \<not> alive (process_of l2 n)"
    by (rule stop_all_run [of W l1]) blast
  have run: "end_trial W l = (case r of Inl e \<Rightarrow> (Inl e, l1) | Inr _ \<Rightarrow> (Inr (), l2\<lparr>logs := map (\<lambda>_. False) (logs l2)\<rparr>))"
    using c s(1) by (simp add: end_trial_def seq_def bnd_def close_logs_run split: sum.split)
  show "end_trial W l = (Inr u, l') \<Longrightarrow> clean l'"
    using run s kept [OF c] by (auto simp: clean_nth process_of_def calmer_def split: sum.splits)
  show "end_trial W l = (Inl e, l') \<Longrightarrow> close_fails W e"
    using run c by (auto split: sum.splits dest: close_counters_error)
next
  show "keeps accounted (end_trial W)" unfolding end_trial_def by (intro keeps_intros)
qed

interpretation tapped: trial_end "end_tapped W" "\<lambda>l. True" "close_fails W" for W
proof
  fix l l' :: lab and u e
  obtain r l1 where c: "close_counters W l = (r, l1)" by fastforce
  obtain l2 where s: "stop_all W l1 = (Inr (), l2)" "\<And>n. n < length (table l2) \<Longrightarrow> \<not> alive (process_of l2 n)"
    by (rule stop_all_run [of W l1]) blast
  have run: "end_tapped W l = (case r of Inl e \<Rightarrow> (Inl e, l1) | Inr _ \<Rightarrow> (Inr (), l2\<lparr>tap := False, logs := map (\<lambda>_. False) (logs l2)\<rparr>))"
    using c s(1) by (simp add: end_tapped_def seq_def bnd_def close_logs_run tap_close_def modify_def split: sum.split)
  show "end_tapped W l = (Inr u, l') \<Longrightarrow> clean l'"
    using run s by (auto simp: clean_nth process_of_def split: sum.splits)
  show "end_tapped W l = (Inl e, l') \<Longrightarrow> close_fails W e"
    using run c by (auto split: sum.splits dest: close_counters_error)
next
  show "keeps accounted (end_tapped W)" unfolding end_tapped_def by (intro keeps_intros)
qed

text \<open>With an \<open>ExitStack\<close>, what runs or is open has its callback.\<close>

definition stacked :: "lab \<Rightarrow> bool" where
  "stacked l \<longleftrightarrow>
     (\<forall>n<length (table l). alive (process_of l n) \<longrightarrow> Stop n \<in> set (stack l)) \<and>
     (\<forall>k<length (logs l). logs l ! k \<longrightarrow> Close_log k \<in> set (stack l)) \<and> (tap l \<longrightarrow> Close_tap \<in> set (stack l))"

lemma stacked_calmer: "stacked l \<Longrightarrow> calmer l l' \<Longrightarrow> stack l' = stack l \<Longrightarrow> stacked l'"
  by (auto simp: stacked_def calmer_def)

interpretation stacked: stable stacked
proof
  fix l :: lab and g :: "process \<Rightarrow> process" and n
  assume st: "stacked l" and g: "\<And>p. alive (g p) \<Longrightarrow> alive p"
  show "stacked (l\<lparr>table := (table l)[n := map_prod id g (table l ! n)]\<rparr>)"
    by (rule stacked_calmer [OF st update_calmer [OF g]]) simp_all
qed (auto simp: stacked_def process_of_def)

lemma settled_clean:
  assumes "stacked l" and "calmer l l'" and "\<And>c. c \<in> set (stack l) \<Longrightarrow> settles c l'"
  shows "clean l'"
proof -
  have "settles (Stop n) l'" if "alive (process_of l' n)" "n < length (table l')" for n
    using assms that by (auto simp: stacked_def calmer_def)
  moreover have "settles (Close_log k) l'" if "logs l' ! k" "k < length (logs l')" for k
    using assms that by (auto simp: stacked_def calmer_def)
  moreover have "settles Close_tap l'" if "tap l'" using assms that by (auto simp: stacked_def calmer_def)
  ultimately show ?thesis by (auto simp: clean_nth settles_def)
qed

interpretation unwinding: trial_end "unwind W" stacked "\<lambda>_. False" for W
proof
  fix l l' :: lab and u e
  assume st: "stacked l"
  obtain l2 where r: "for_io (rev (stack l)) (run_callback W) l = (Inr (), l2)" "calmer l l2" "\<And>c. c \<in> set (rev (stack l)) \<Longrightarrow> settles c l2"
    by (rule callbacks_run [of "rev (stack l)" W l]) blast
  have run: "unwind W l = (Inr (), l2)" using r(1) by (simp add: unwind_def bnd_def gets_def)
  have "clean l2" by (rule settled_clean [OF st r(2)]) (simp add: r(3))
  then show "unwind W l = (Inr u, l') \<Longrightarrow> clean l'" using run by simp
  show "unwind W l = (Inl e, l') \<Longrightarrow> False" using run by simp
next
  have "keeps accounted (run_callback W c)" for c
    unfolding run_callback_def by (cases c) (simp_all add: keeps_intros)
  then show "keeps accounted (unwind W)" unfolding unwind_def by (intro keeps_intros)
qed

end
