(* ===== verification/Trials.thy ===== *)
theory Trials
  imports Lab
begin

text \<open>
  The trials of the measuring scripts, each a function of the outside on the bench of theory \<open>Lab\<close>: \<open>trial\<close> of
  \<^verbatim>\<open>benchmark.py\<close>, \<^verbatim>\<open>core_regression.py\<close>, \<^verbatim>\<open>reality_benchmark.py\<close> and \<^verbatim>\<open>traffic_shapes.py\<close>, with its website.
\<close>

section \<open>\<^verbatim>\<open>benchmark.py\<close>\<close>

text \<open>\<open>{index:03d}\<close>\<close>

definition pad3 :: "nat \<Rightarrow> string" where
  "pad3 n = replicate (3 - length (dec n)) (CHR ''0'') @ dec n"

definition bench_folder :: "keys_of \<Rightarrow> string \<Rightarrow> string \<Rightarrow> nat \<Rightarrow> nat \<Rightarrow> path" where
  "bench_folder f var mode conns index = fixture_folder f @ [pad3 index @ ''-'' @ var @ ''-'' @ mode @ dec conns]"

definition load_command :: "string \<Rightarrow> int \<Rightarrow> int \<Rightarrow> string \<Rightarrow> string list \<Rightarrow> string list" where
  "load_command peer cp target mode rest = [peer, ''-socks'', local_port cp, ''-target'', local_port target, ''-mode'', mode] @ rest"

text \<open>
  The function \<open>configurations\<close> is a global of the script, which \<^verbatim>\<open>delayed_benchmark.py\<close> replaces: it is an argument.
\<close>

type_synonym configurer = "keys_of \<Rightarrow> string \<Rightarrow> int \<Rightarrow> int \<Rightarrow> int \<Rightarrow> (host, string list \<times> string list) io"

definition bench_setup ::
  "outside \<Rightarrow> configurer \<Rightarrow> keys_of \<Rightarrow> string \<Rightarrow> string \<Rightarrow> nat \<Rightarrow> int \<Rightarrow> int \<Rightarrow> path \<Rightarrow> int \<Rightarrow> int \<Rightarrow> int \<Rightarrow> int \<Rightarrow> (lab, nat \<times> nat \<times> nat) io" where
  "bench_setup W conf f var mode conns amount rounds folder coverp backendp sp cp =
     bnd (launch W folder (s_server f coverp ''TLS_AES_128_GCM_SHA256'') ''16,17'' 2) (\<lambda>cover.
     seq (lab_wait_port W coverp cover)
     (bnd (launch W folder (backend_command (benchpeer W) backendp) ''16,17'' 2) (\<lambda>backend.
     seq (lab_wait_port W backendp backend)
     (bnd (on_machine (conf f var sp cp coverp)) (\<lambda>(sc, cc).
     bnd (launch W folder sc ''14'' 1) (\<lambda>server.
     seq (lab_wait_port W sp server)
     (bnd (launch W folder cc ''22,23,24,25'' 4) (\<lambda>client.
     seq (lab_wait_port W cp client)
     (seq (on_machine (on_files (write_text (folder @ [''load.log'']) [])))
     (seq (modify (\<lambda>l. l\<lparr>logs := logs l @ [True]\<rparr>))
     (bnd (lab_spawn W (load_command (benchpeer W) cp backendp mode
         [''-connections'', dec conns, ''-bytes'', dec_int amount, ''-rounds'', dec_int rounds]) ''18,19,20,21'' 4) (\<lambda>load.
     ret (server, client, load)))))))))))))"

text \<open>What was measured: the row of the load generator, the CPU times around it, and the counters.\<close>

record measurement =
  printed :: row
  before_cpu :: "rat \<times> rat"
  after_cpu :: "rat \<times> rat"
  perf_read :: "(string \<times> rat) list"

definition bench_measure :: "outside \<Rightarrow> path \<Rightarrow> nat \<Rightarrow> nat \<Rightarrow> nat \<Rightarrow> (lab, measurement) io" where
  "bench_measure W folder server client load =
     seq (expect_ready W load)
     (bnd (perf_new W server folder) (\<lambda>k.
     seq (modify (\<lambda>l. l\<lparr>counters := [k]\<rparr>))
     (seq (perf_command W k ''enable'')
     (bnd (cpu W server) (\<lambda>s0. bnd (cpu W client) (\<lambda>c0.
     seq (tell W load (''go'' @ [nl]))
     (bnd (line W load) (\<lambda>v.
     seq (perf_command W k ''disable'')
     (bnd (cpu W server) (\<lambda>s1. bnd (cpu W client) (\<lambda>c1.
     bnd (lift_res (row_of v)) (\<lambda>row.
     bnd (rss W server) (\<lambda>srss. bnd (rss W client) (\<lambda>crss.
     seq (perf_close W k)
     (bnd (perf_values W k) (\<lambda>values_read.
     seq (modify (\<lambda>l. l\<lparr>counters := []\<rparr>))
     (bnd (wait_exit W load) (\<lambda>_.
     ret \<lparr>printed = dict_update row [(''server_rss_bytes'', Num (of_int srss)), (''client_rss_bytes'', Num (of_int crss))],
          before_cpu = (s0, c0), after_cpu = (s1, c1), perf_read = values_read\<rparr>))))))))))))))))))"

definition optional :: "string \<Rightarrow> (string \<times> rat) list \<Rightarrow> cell" where
  "optional k vs = (case map_of vs k of None \<Rightarrow> Plain JNull | Some x \<Rightarrow> Num x)"

definition bench_result :: "string \<Rightarrow> nat \<Rightarrow> measurement \<Rightarrow> row res" where
  "bench_result var index m =
     bind_res (dict_get ''task-clock'' (perf_read m)) (\<lambda>clock.
     let seconds = clock / 1000 in
     bind_res (row_number ''bytes'' (printed m)) (\<lambda>b.
     bind_res (py_div (b / 2 ^ 30) seconds) (\<lambda>per_cpu.
     bind_res (row_number ''seconds'' (printed m)) (\<lambda>wall.
     bind_res (py_div (b / 2 ^ 30) wall) (\<lambda>per_second.
     bind_res (py_div seconds wall) (\<lambda>used.
     Inr (dict_update (printed m)
       [(''variant'', Text var), (''index'', Num (of_nat index)), (''server_cpu_seconds'', Num seconds),
        (''server_process_cpu_seconds'', Num (fst (after_cpu m) - fst (before_cpu m))),
        (''client_process_cpu_seconds'', Num (snd (after_cpu m) - snd (before_cpu m))),
        (''cycles'', optional ''cycles'' (perf_read m)), (''instructions'', optional ''instructions'' (perf_read m)),
        (''gib_per_cpu_second'', Num per_cpu), (''gib_per_second'', Num per_second),
        (''server_cpu_utilization'', Num used)])))))))"

definition bench_trial :: "outside \<Rightarrow> configurer \<Rightarrow> keys_of \<Rightarrow> string \<Rightarrow> string \<Rightarrow> nat \<Rightarrow> int \<Rightarrow> int \<Rightarrow> nat \<Rightarrow> (lab, row) io" where
  "bench_trial W conf f var mode conns amount rounds index =
     (let folder = bench_folder f var mode conns index in
      seq (new_folder folder)
      (bnd (port W) (\<lambda>coverp. bnd (port W) (\<lambda>backendp. bnd (port W) (\<lambda>sp. bnd (port W) (\<lambda>cp.
      try_finally
        (bnd (bench_setup W conf f var mode conns amount rounds folder coverp backendp sp cp) (\<lambda>(server, client, load).
         bnd (bench_measure W folder server client load) (\<lambda>m. lift_res (bench_result var index m))))
        (end_trial W)))))))"

section \<open>\<^verbatim>\<open>core_regression.py\<close>\<close>

text \<open>Replacing the program of a command line, \<open>sc[0], cc[0] = binaries\<close>.\<close>

definition with_program :: "string \<Rightarrow> string list \<Rightarrow> string list" where
  "with_program p cmd = p # tl cmd"

definition regression_setup ::
  "outside \<Rightarrow> keys_of \<Rightarrow> string \<times> string \<Rightarrow> string \<Rightarrow> string \<Rightarrow> int \<Rightarrow> int \<Rightarrow> path \<Rightarrow> (nat \<Rightarrow> string) \<Rightarrow> bool \<Rightarrow> (lab, nat \<times> nat \<times> nat) io" where
  "regression_setup W f bins peer mode amount rounds folder core padding =
     bnd (port W) (\<lambda>coverp. bnd (port W) (\<lambda>bp. bnd (port W) (\<lambda>sp. bnd (port W) (\<lambda>cp.
     bnd (launch W folder (s_server f coverp ''TLS_AES_128_GCM_SHA256'') (core 2) 1) (\<lambda>cover.
     seq (lab_wait_port W coverp cover)
     (bnd (launch W folder (backend_command peer bp) (core 2) 1) (\<lambda>backend.
     seq (lab_wait_port W bp backend)
     (bnd (on_machine (configurations (lab_site W) f ''veil-opt-reality'' sp cp coverp)) (\<lambda>(sc, cc).
     seq (edit_config f ''client'' (tls_update [(''record_padding'', JBool padding), (''fingerprint'', JStr ''chrome149'')]))
     (seq (edit_config f ''server'' (tls_update [(''record_padding'', JBool padding)]))
     (bnd (launch W folder (with_program (fst bins) sc) (core 0) 1) (\<lambda>server.
     seq (lab_wait_port W sp server)
     (bnd (launch W folder (with_program (snd bins) cc) (core 1) 1) (\<lambda>client.
     seq (lab_wait_port W cp client)
     (bnd (launch W folder (load_command peer cp bp mode
         [''-connections'', ''1'', ''-bytes'', dec_int amount, ''-rounds'', dec_int rounds]) (core 3) 1) (\<lambda>load.
     seq (expect_ready W load)
     (ret (server, client, load))))))))))))))))))"

text \<open>A counter for a process, in a folder of its own, remembered for closing.\<close>

definition add_counter :: "outside \<Rightarrow> path \<Rightarrow> nat \<Rightarrow> (lab, nat) io" where
  "add_counter W dest n =
     seq (new_folder dest)
     (bnd (perf_new W n dest) (\<lambda>k.
     seq (modify (\<lambda>l. l\<lparr>counters := counters l @ [k]\<rparr>)) (ret k)))"

text \<open>\<open>counter = counters.pop(0)\<close>, then its closing and its values.\<close>

definition pop_counter :: "outside \<Rightarrow> (lab, (string \<times> rat) list) io" where
  "pop_counter W =
     bnd (gets counters) (\<lambda>ks.
     case ks of
       [] \<Rightarrow> raise IndexError
     | k # rest \<Rightarrow> seq (modify (\<lambda>l. l\<lparr>counters := rest\<rparr>)) (seq (perf_close W k) (perf_values W k)))"

definition all_counters :: "outside \<Rightarrow> string \<Rightarrow> (lab, unit) io" where
  "all_counters W s = bnd (gets counters) (\<lambda>ks. for_io ks (\<lambda>k. perf_command W k s))"

definition regression_measure :: "outside \<Rightarrow> path \<Rightarrow> nat \<Rightarrow> nat \<Rightarrow> nat \<Rightarrow> (lab, row) io" where
  "regression_measure W folder server client load =
     seq (for_io [(''server'', server), (''client'', client)] (\<lambda>(name, n).
        bnd (add_counter W (folder @ [name]) n) (\<lambda>k. perf_command W k ''enable'')))
     (seq (tell W load (''go'' @ [nl]))
     (bnd (line W load) (\<lambda>v.
     seq (all_counters W ''disable'')
     (bnd (rss W server) (\<lambda>srss. bnd (rss W client) (\<lambda>crss.
     bnd (lift_res (row_of v)) (\<lambda>row.
     bnd (pop_counter W) (\<lambda>sv. bnd (pop_counter W) (\<lambda>cv.
     bnd (wait_exit W load) (\<lambda>rc.
     if rc \<noteq> 0 then raise (RuntimeError ''load failed'')
     else seq (lab_stop W client)
     (seq (lab_stop W server)
     (bnd (read_log W 2) (\<lambda>slog. bnd (lift_res (stats_of ''missing completion counters'' slog)) (\<lambda>ss.
     bnd (read_log W 3) (\<lambda>clog. bnd (lift_res (stats_of ''missing completion counters'' clog)) (\<lambda>cs.
     ret (dict_update row
       [(''server_rss_bytes'', Num (of_int srss)), (''client_rss_bytes'', Num (of_int crss)),
        (''server_perf'', Counters sv), (''client_perf'', Counters cv),
        (''server_stats'', Stats ss), (''client_stats'', Stats cs)])))))))))))))))))"

text \<open>\<open>row.get("requests", row["bytes"])\<close>: the bytes must be there in any case.\<close>

definition work_of :: "row \<Rightarrow> rat res" where
  "work_of row =
     bind_res (dict_get ''bytes'' row) (\<lambda>_.
     row_number (if map_of row ''requests'' = None then ''bytes'' else ''requests'') row)"

definition row_stats :: "string \<Rightarrow> row \<Rightarrow> stats res" where
  "row_stats k row = bind_res (dict_get k row) (\<lambda>c. case c of Stats st \<Rightarrow> Inr st | _ \<Rightarrow> Inl type_error)"

definition row_clock :: "string \<Rightarrow> row \<Rightarrow> rat res" where
  "row_clock k row = bind_res (dict_get k row) (\<lambda>c. case c of Counters vs \<Rightarrow> dict_get ''task-clock'' vs | _ \<Rightarrow> Inl type_error)"

definition check_short :: "(row \<Rightarrow> string) \<Rightarrow> int \<Rightarrow> row \<Rightarrow> string \<Rightarrow> unit res" where
  "check_short show rounds row name =
     bind_res (row_stats (name @ ''_stats'') row) (\<lambda>st.
     guard (served (rounds + 16) st) (RuntimeError (''short-stream behavior changed: '' @ show row)))"

definition regression_result :: "(row \<Rightarrow> string) \<Rightarrow> string \<Rightarrow> int \<Rightarrow> row \<Rightarrow> row res" where
  "regression_result show mode rounds row =
     bind_res (if mode = ''S'' then fold_res (\<lambda>name _. check_short show rounds row name) [''server'', ''client''] () else Inr ()) (\<lambda>_.
     bind_res (work_of row) (\<lambda>work.
     bind_res (row_number ''seconds'' row) (\<lambda>wall.
     bind_res (py_div work wall) (\<lambda>throughput.
     bind_res (row_clock ''client_perf'' row) (\<lambda>cc. bind_res (row_clock ''server_perf'' row) (\<lambda>sc.
     bind_res (py_div work (cc + sc)) (\<lambda>per_cpu.
     Inr (dict_update row [(''throughput'', Num throughput), (''cpu_ms'', Num (cc + sc)), (''work_per_cpu_ms'', Num per_cpu)]))))))))"

definition regression_trial ::
  "outside \<Rightarrow> (row \<Rightarrow> string) \<Rightarrow> keys_of \<Rightarrow> string \<times> string \<Rightarrow> string \<Rightarrow> string \<Rightarrow> int \<Rightarrow> int \<Rightarrow> path \<Rightarrow> (nat \<Rightarrow> string) \<Rightarrow> bool \<Rightarrow> (lab, row) io" where
  "regression_trial W show f bins peer mode amount rounds folder core padding =
     seq (new_folder folder)
     (try_finally
        (bnd (regression_setup W f bins peer mode amount rounds folder core padding) (\<lambda>(server, client, load).
         bnd (regression_measure W folder server client load) (\<lambda>row. lift_res (regression_result show mode rounds row))))
        (end_trial W))"

section \<open>\<^verbatim>\<open>reality_benchmark.py\<close>\<close>

text \<open>An absent or empty set of overrides leaves the file alone.\<close>

definition override_tls :: "keys_of \<Rightarrow> string \<times> (string \<times> json) list \<Rightarrow> (lab, unit) io" where
  "override_tls f nc = (let (name, changes) = nc in when_io (changes \<noteq> []) (edit_config f name (tls_update changes)))"

definition point_client_at :: "keys_of \<Rightarrow> int \<Rightarrow> (lab, unit) io" where
  "point_client_at f p = edit_config f ''client'' (set_key ''server'' (JStr (local_port p)))"

definition handshake_command :: "keys_of \<Rightarrow> path \<Rightarrow> bool \<Rightarrow> int \<Rightarrow> int \<Rightarrow> bool \<Rightarrow> string list" where
  "handshake_command f bins optimized bp rounds tapped =
     [str (bins @ [if optimized then ''handshakebench-batch'' else ''handshakebench-native'']),
      ''-config'', str (fixture_folder f @ [''client.json'']), ''-target'', local_port bp, ''-rounds'', dec_int rounds,
      ''-warmup'', if tapped then ''0'' else ''16'']"

definition reality_variant :: "bool \<Rightarrow> string" where
  "reality_variant optimized = (if optimized then ''veil-opt-reality'' else ''veil-native-reality'')"

definition reality_setup ::
  "outside \<Rightarrow> keys_of \<Rightarrow> path \<Rightarrow> string \<Rightarrow> int \<Rightarrow> path \<Rightarrow> bool \<Rightarrow> bool \<Rightarrow> (string \<times> json) list \<Rightarrow> (string \<times> json) list \<Rightarrow>
   (lab, nat \<times> nat \<times> nat) io" where
  "reality_setup W f bins mode rounds folder optimized capture client_tls server_tls =
     bnd (port W) (\<lambda>coverp. bnd (port W) (\<lambda>bp. bnd (port W) (\<lambda>sp. bnd (port W) (\<lambda>cp.
     bnd (launch W folder (s_server f coverp ''TLS_AES_128_GCM_SHA256'') ''16'' 1) (\<lambda>cover.
     seq (lab_wait_port W coverp cover)
     (bnd (launch W folder (backend_command (benchpeer W) bp) ''17'' 1) (\<lambda>backend.
     seq (lab_wait_port W bp backend)
     (bnd (on_machine (configurations (lab_site W) f (reality_variant optimized) sp cp coverp)) (\<lambda>(sc, cc).
     seq (for_io [(''client'', client_tls), (''server'', server_tls)] (override_tls f))
     (bnd (launch W folder (with_program (str (bins @ [binary (reality_variant optimized) True])) sc) ''14'' 1) (\<lambda>server.
     seq (lab_wait_port W sp server)
     (seq (when_io capture (bnd (tap_open W) (point_client_at f)))
     (if mode = ''H''
      then bnd (launch W folder (handshake_command f bins optimized bp rounds capture) ''22'' 1) (\<lambda>load. ret (server, load, load))
      else bnd (launch W folder (with_program (str (bins @ [binary (reality_variant optimized) False])) cc) ''22'' 1) (\<lambda>client.
           seq (lab_wait_port W cp client)
           (bnd (launch W folder (load_command (benchpeer W) cp bp mode [''-connections'', ''1'', ''-rounds'', dec_int rounds]) ''18'' 1)
             (\<lambda>load. ret (server, client, load)))))))))))))))))"

text \<open>The values of the next counter and the CPU time of a request.\<close>

definition count_requests :: "outside \<Rightarrow> row res \<Rightarrow> string \<Rightarrow> (lab, row) io" where
  "count_requests W measured name =
     bnd (pop_counter W) (\<lambda>vs.
     bnd (lift_res measured) (\<lambda>row.
     bnd (lift_res (bind_res (dict_get ''task-clock'' vs) (\<lambda>clock.
            bind_res (row_number ''requests'' row) (py_div (clock * 1000))))) (\<lambda>us.
     ret (dict_update row [(name @ ''_perf'', Counters vs), (name @ ''_cpu_us_per_request'', Num us)]))))"

definition reality_measure :: "outside \<Rightarrow> path \<Rightarrow> bool \<Rightarrow> nat \<Rightarrow> nat \<Rightarrow> nat \<Rightarrow> (lab, row) io" where
  "reality_measure W folder tapped server client load =
     seq (expect_ready W load)
     (seq (when_io (\<not> tapped)
        (seq (for_io [(''server'', server), (''client'', client)] (\<lambda>(name, n).
                bnd (add_counter W (folder @ [name]) n) (\<lambda>_. ret ())))
             (all_counters W ''enable'')))
     (seq (tell W load (''go'' @ [nl]))
     (bnd (line W load) (\<lambda>v.
     seq (all_counters W ''disable'')
     (bnd (if tapped then ret (row_of v)
           else bnd (count_requests W (row_of v) ''server'') (\<lambda>r. bnd (count_requests W (Inr r) ''client'') (\<lambda>r. ret (Inr r)))) (\<lambda>measured.
     bnd (wait_exit W load) (\<lambda>rc.
     if rc \<noteq> 0 then raise (RuntimeError ''load failed'')
     else bnd (if tapped
               then seq (noted (Tapped ''done'')) (seq tap_close (bnd (gets (\<lambda>l. tap_relay W (past l))) (\<lambda>relay.
                    bnd (lift_res measured) (\<lambda>row. ret (dict_set ''capture'' (Wires [(''up'', hex (wire relay Up)), (''down'', hex (wire relay Down))]) row)))))
               else lift_res measured) (\<lambda>row.
     seq (lab_stop W client) (seq (lab_stop W server) (ret row))))))))))"

definition reality_result :: "(stats \<Rightarrow> string) \<Rightarrow> int \<Rightarrow> bool \<Rightarrow> string \<Rightarrow> row \<Rightarrow> row res" where
  "reality_result show rounds tapped text row =
     bind_res (stats_of ''missing server completion counters'' text) (\<lambda>st.
     bind_res (guard (served (rounds + (if tapped then 0 else 16)) st)
       (RuntimeError (''unexpected server counters: '' @ show st))) (\<lambda>_.
     let row = dict_set ''server_stats'' (Stats st) row in
     bind_res (row_number ''requests'' row) (\<lambda>n.
     bind_res (row_number ''seconds'' row) (\<lambda>wall.
     bind_res (py_div n wall) (\<lambda>rate. Inr (dict_set ''requests_per_second'' (Num rate) row))))))"

definition reality_trial ::
  "outside \<Rightarrow> (stats \<Rightarrow> string) \<Rightarrow> keys_of \<Rightarrow> path \<Rightarrow> string \<Rightarrow> int \<Rightarrow> path \<Rightarrow> bool \<Rightarrow> bool \<Rightarrow> (string \<times> json) list \<Rightarrow> (string \<times> json) list \<Rightarrow>
   (lab, row) io" where
  "reality_trial W show f bins mode rounds folder optimized capture client_tls server_tls =
     seq (on_machine (on_files (mkdir_new folder)))
     (try_finally
        (bnd (reality_setup W f bins mode rounds folder optimized capture client_tls server_tls) (\<lambda>(server, client, load).
         bnd (reality_measure W folder capture server client load) (\<lambda>row.
         bnd (read_log W 2) (\<lambda>text. lift_res (reality_result show rounds capture text row)))))
        (end_tapped W))"

section \<open>\<^verbatim>\<open>traffic_shapes.py\<close>\<close>

text \<open>The website answers \<^verbatim>\<open>/size\<close> with a status and a body; a path that is no number raises in the handler.\<close>

definition website :: "string \<Rightarrow> (int \<times> bytes) res" where
  "website path_text =
     bind_res (py_int (drop 1 path_text)) (\<lambda>n.
     if 0 \<le> n \<and> n \<le> 2 ^ 20 then Inr (200, replicate (nat n) 120) else Inr (400, []))"

definition fetch_path :: "nat \<Rightarrow> string" where
  "fetch_path n = CHR ''/'' # dec n"

definition check_body :: "nat \<Rightarrow> int \<times> bytes \<Rightarrow> unit res" where
  "check_body n answer =
     (let (status, data) = answer in guard (status = 200 \<and> data = replicate n 120) (ValueError ''HTTPS body mismatch''))"

definition fetch :: "outside \<Rightarrow> nat \<Rightarrow> (lab, unit) io" where
  "fetch W n = bnd (ask (Fetched n) (fetches W n)) (\<lambda>r. lift_res (bind_res r (check_body n)))"

definition tls_connect :: "outside \<Rightarrow> int \<Rightarrow> (lab, unit) io" where
  "tls_connect W p = bnd (ask (Connected p) (tls_connects W p)) lift_res"

definition stacked_launch :: "outside \<Rightarrow> path \<Rightarrow> string list \<Rightarrow> (lab, nat) io" where
  "stacked_launch W folder cmd =
     bnd (gets (\<lambda>l. length (table l))) (\<lambda>n.
     seq (on_machine (on_files (write_text (folder @ [log_name n]) [])))
     (bnd (gets (\<lambda>l. length (logs l))) (\<lambda>k.
     seq (modify (\<lambda>l. l\<lparr>logs := logs l @ [True]\<rparr>))
     (seq (push (Close_log k))
     (bnd (lab_spawn W cmd [] 1) (\<lambda>n. seq (push (Stop n)) (ret n)))))))"

definition stacked_tap :: "outside \<Rightarrow> (lab, int) io" where
  "stacked_tap W = bnd (tap_open W) (\<lambda>p. seq (push Close_tap) (ret p))"

definition shape_edit :: "string \<Rightarrow> json \<Rightarrow> json res" where
  "shape_edit role cfg =
     bind_res (tls_update [(''record_padding'', JBool True)] cfg) (\<lambda>cfg.
     bind_res (set_key ''max_idle'' (JInt 1) cfg) (\<lambda>cfg.
     if role = ''client'' then tls_update [(''fingerprint'', JStr ''chrome149'')] cfg else Inr cfg))"

definition https_shape :: "outside \<Rightarrow> nat list \<Rightarrow> (lab, unit) io" where
  "https_shape W sizes =
     bnd (stacked_tap W) (\<lambda>p.
     seq (tls_connect W p)
     (for_io sizes (fetch W)))"

definition veil_shape :: "outside \<Rightarrow> keys_of \<Rightarrow> path \<Rightarrow> int \<Rightarrow> nat list \<Rightarrow> path \<Rightarrow> (lab, unit) io" where
  "veil_shape W f bins cover sizes folder =
     bnd (port W) (\<lambda>sp. bnd (port W) (\<lambda>cp.
     bnd (on_machine (configurations (lab_site W) f ''veil-opt-reality'' sp cp cover)) (\<lambda>(sc, cc).
     seq (for_io [''client'', ''server''] (\<lambda>role. edit_config f role (shape_edit role)))
     (bnd (stacked_launch W folder (with_program (str (bins @ [''veil-openssl''])) sc)) (\<lambda>server.
     seq (lab_wait_port W sp server)
     (bnd (stacked_tap W) (\<lambda>p.
     seq (point_client_at f p)
     (bnd (stacked_launch W folder (with_program (str (bins @ [''veil-batch''])) cc)) (\<lambda>client.
     seq (lab_wait_port W cp client)
     (seq (for_io sizes (\<lambda>n. seq (tls_connect W cp) (fetch W n)))
     (seq (lab_stop W client)
     (seq (lab_stop W server)
     (bnd (read_log W 0) (\<lambda>text.
     if contains (''completed='' @ dec (length sizes)) text \<and> contains ''accepted=2 '' text then ret ()
     else raise (ValueError (''expected one physical tunnel and complete stream reuse: '' @ text))))))))))))))))"

definition shape_trial :: "outside \<Rightarrow> keys_of \<Rightarrow> string \<Rightarrow> path \<Rightarrow> int \<Rightarrow> nat list \<Rightarrow> path \<Rightarrow> (lab, shape_report) io" where
  "shape_trial W f kind bins cover sizes folder =
     seq (new_folder folder)
     (try_finally
        (seq (if kind = ''https'' then https_shape W sizes else veil_shape W f bins cover sizes folder)
        (bnd (ask (Tapped ''done'') (tap_done W)) (\<lambda>finished.
         if \<not> finished then raise (TimeoutError ''capture did not close'')
         else bnd (gets (\<lambda>l. shapes (tap_relay W (past l)))) lift_res)))
        (unwind W))"

section \<open>What the parts of a trial keep\<close>

context stable
begin

lemma keeps_counting [keeps_intros]:
  "keeps I (pop_counter W)" "keeps I (all_counters W t)" "keeps I (add_counter W p n)"
  unfolding pop_counter_def all_counters_def add_counter_def by (intro keeps_intros)+

lemma keeps_steps [keeps_intros]:
  "keeps I (count_requests W r name)" "keeps I (override_tls f nc)" "keeps I (point_client_at f p)" "keeps I (fetch W n)"
  "keeps I (tls_connect W p)"
  unfolding count_requests_def override_tls_def point_client_at_def fetch_def tls_connect_def Let_def
  by (intro keeps_intros; simp)+

lemma keeps_measuring [keeps_intros]:
  "keeps I (bench_measure W folder server client load)"
  "keeps I (regression_measure W folder server client load)"
  "keeps I (reality_measure W folder tapped server client load)"
  unfolding bench_measure_def regression_measure_def reality_measure_def by (intro keeps_intros; simp)+

end

lemma setups_accounted [keeps_intros]:
  "keeps accounted (bench_setup W conf f var mode conns amount rounds folder coverp backendp sp cp)"
  "keeps accounted (regression_setup W f bins peer mode amount rounds folder core padding)"
  unfolding bench_setup_def regression_setup_def by (intro keeps_intros)+

lemma setups_untapped [keeps_intros]:
  "keeps (\<lambda>l. \<not> tap l) (bench_setup W conf f var mode conns amount rounds folder coverp backendp sp cp)"
  "keeps (\<lambda>l. \<not> tap l) (regression_setup W f bins peer mode amount rounds folder core padding)"
  unfolding bench_setup_def regression_setup_def by (intro keeps_intros keeps_modify; simp)+

lemma tap_open_accounted [keeps_intros]: "keeps accounted (tap_open W)"
  unfolding tap_open_def by (intro keeps_intros; simp)

lemma reality_setup_accounted [keeps_intros]:
  "keeps accounted (reality_setup W f bins mode rounds folder optimized capture client_tls server_tls)"
  unfolding reality_setup_def by (intro keeps_intros)

lemma stacked_accounted [keeps_intros]: "keeps accounted (stacked_launch W folder cmd)" "keeps accounted (stacked_tap W)"
  unfolding stacked_launch_def stacked_tap_def by (intro keeps_intros)+

lemma stacked_tap_stacked [keeps_intros]: "keeps stacked (stacked_tap W)"
  by (auto simp: keeps_def stacked_tap_def tap_open_def ask_def noted_def push_def stacked_def process_of_def io_simps split: sum.splits)

lemma stacked_launch_stacked [keeps_intros]: "keeps stacked (stacked_launch W folder cmd)"
proof -
  define go where "go n = bnd (gets (\<lambda>l. length (logs l))) (\<lambda>k.
     seq (modify (\<lambda>l. l\<lparr>logs := logs l @ [True]\<rparr>))
     (seq (push (Close_log k))
     (bnd (lab_spawn W cmd [] 1) (\<lambda>n. seq (push (Stop n)) (ret n)))))" for n :: nat
  have "keeps stacked (go n)" for n
    by (auto simp: keeps_def go_def lab_spawn_def lab_popen_def noted_def push_def stacked_def process_of_def nth_append Let_def io_simps split: sum.splits)
  moreover have "stacked_launch W folder cmd = bnd (gets (\<lambda>l. length (table l))) (\<lambda>n.
      seq (on_machine (on_files (write_text (folder @ [log_name n]) []))) (go n))"
    by (simp add: stacked_launch_def go_def)
  ultimately show ?thesis by (simp only:) (intro keeps_intros)
qed

lemma shapes_kept [keeps_intros]:
  "keeps accounted (https_shape W sizes)" "keeps accounted (veil_shape W f bins cover sizes folder)"
  "keeps stacked (https_shape W sizes)" "keeps stacked (veil_shape W f bins cover sizes folder)"
  unfolding https_shape_def veil_shape_def by (intro keeps_intros)+

lemma new_lab_kept [simp]: "accounted (new_lab h)" "\<not> tap (new_lab h)" "stacked (new_lab h)" "clean (new_lab h)"
  by (simp_all add: accounted_def new_lab_def started_commands_def stacked_def clean_def)

text \<open>
  From a clean bench: a preparation that starts nothing, then a body with its final block.
\<close>

interpretation clean: stable clean
proof
  fix l :: lab and g :: "process \<Rightarrow> process" and n
  assume c: "clean l" and g: "\<And>p. alive (g p) \<Longrightarrow> alive p"
  show "clean (l\<lparr>table := (table l)[n := map_prod id g (table l ! n)]\<rparr>)"
    by (rule clean_calmer [OF c update_calmer [OF g]])
qed (simp_all add: clean_def)

definition leaves :: "(lab \<Rightarrow> bool) \<Rightarrow> (exn \<Rightarrow> bool) \<Rightarrow> (lab, 'a) io \<Rightarrow> bool" where
  "leaves I fails m \<longleftrightarrow> (\<forall>l. I l \<and> accounted l \<and> clean l \<longrightarrow>
     (case m l of (r, l') \<Rightarrow> accounted l' \<and> (clean l' \<or> (\<exists>e. r = Inl e \<and> fails e))))"

named_theorems leaves_intros \<open>programs that leave the bench clean\<close>

lemma leaves_bnd [leaves_intros]:
  assumes "keeps I m" "keeps accounted m" "keeps clean m" "\<And>x. leaves I fails (f x)"
  shows "leaves I fails (bnd m f)"
  unfolding leaves_def
proof (intro allI impI, elim conjE)
  fix l
  assume "I l" "accounted l" "clean l"
  moreover obtain r l1 where m: "m l = (r, l1)" by fastforce
  ultimately have "I l1" "accounted l1" "clean l1" using assms(1-3) by (auto dest: keepsD)
  then show "case bnd m f l of (r, l') \<Rightarrow> accounted l' \<and> (clean l' \<or> (\<exists>e. r = Inl e \<and> fails e))"
    using assms(4) m by (cases r) (auto simp: bnd_def leaves_def)
qed

lemma leaves_seq [leaves_intros]:
  "keeps I m \<Longrightarrow> keeps accounted m \<Longrightarrow> keeps clean m \<Longrightarrow> leaves I fails k \<Longrightarrow> leaves I fails (seq m k)"
  unfolding seq_def by (rule leaves_bnd)

context trial_block
begin

lemma leaves_finally [leaves_intros]:
  assumes "keeps I body" "keeps accounted body"
  shows "leaves I fails (try_finally body fin)"
  unfolding leaves_def by (intro allI impI) (rule ends_clean [OF assms], simp_all)

end

text \<open>A final block that may raise but has ended everything by then.\<close>

lemma leaves_cleaning:
  assumes "\<And>l. I l \<Longrightarrow> clean (snd (fin l))" and "keeps accounted fin" and "keeps I body" and "keeps accounted body"
  shows "leaves I fails (try_finally body fin)"
  unfolding leaves_def
proof (intro allI impI, elim conjE)
  fix l
  assume l: "I l" "accounted l"
  obtain r1 l1 where b: "body l = (r1, l1)" by fastforce
  obtain r2 l2 where e: "fin l1 = (r2, l2)" by fastforce
  have "I l1" "accounted l1" using keepsD [OF assms(3) b] keepsD [OF assms(4) b] l by blast+
  then have "clean l2" "accounted l2" using assms(1) [of l1] keepsD [OF assms(2) e] e by simp_all
  then show "case try_finally body fin l of (r, l') \<Rightarrow> accounted l' \<and> (clean l' \<or> (\<exists>e. r = Inl e \<and> fails e))"
    using b e by (cases r2) (simp_all add: try_finally_def)
qed

lemma leaves_new: "leaves I fails m \<Longrightarrow> I (new_lab h) \<Longrightarrow>
  (case m (new_lab h) of (r, l) \<Rightarrow> accounted l \<and> (clean l \<or> (\<exists>e. r = Inl e \<and> fails e)))"
  by (simp add: leaves_def)

section \<open>Reading counters\<close>

text \<open>The line a proxy prints when it stops, and a bench with a failing \<open>perf\<close>.\<close>

definition no_digit :: "string \<Rightarrow> bool" where
  "no_digit s \<longleftrightarrow> s = [] \<or> \<not> is_digit (hd s)"

definition counter_line :: "nat \<Rightarrow> nat \<Rightarrow> nat \<Rightarrow> nat \<Rightarrow> string" where
  "counter_line a r c f = ''stopped accepted='' @ dec a @ '' rejected='' @ dec r @ '' completed='' @ dec c @ '' failed='' @ dec f"

definition sample_outside :: outside where
  "sample_outside =
     \<lparr>lab_site = sample_site\<lparr>tool := \<lambda>_ _ _ fs. (1, [], fs)\<rparr>, repr_args = concat, free_port = (\<lambda>p. 40000 + int (length p)),
      starts = (\<lambda>_ _ _. Inr True), ended = (\<lambda>_ _. False), connects = (\<lambda>_ _. True), line_of = (\<lambda>_ _. None), hears = (\<lambda>_ _. Inr ()),
      exit_status = (\<lambda>_ _. None), proc_text = (\<lambda>_ _ _. Inl enoent), log_text = (\<lambda>_ _. []), pid_of = (\<lambda>n. n), perf_pid = (\<lambda>n. n),
      perf_starts = (\<lambda>_ _. Inr ()), perf_ended = (\<lambda>_ _. False), perf_ack = (\<lambda>_ _. None), perf_stops = (\<lambda>_ _. True),
      perf_csv = (\<lambda>_ _. Inl enoent), tls_connects = (\<lambda>_ _. Inr ()), fetches = (\<lambda>_ _. Inl enoent), tap_port = (\<lambda>_. Inl enoent),
      tap_relay = (\<lambda>_. started (\<lambda>_. [])), tap_done = (\<lambda>_. True), clock_ticks = 100, page_size = 4096\<rparr>"

definition counting_lab :: lab where
  "counting_lab = (new_lab \<lparr>files = [], ran = []\<rparr>)
     \<lparr>table := [([''veil-openssl''], \<lparr>alive = True, heeds_term = True, signals = []\<rparr>)],
      perfs := [\<lparr>perf_folder = [''t''], cf_open = True, af_open = True, perf_log = True, perf_runs = True\<rparr>], counters := [0]\<rparr>"

lemma digits_of_dec: "no_digit rest \<Longrightarrow> digits_of (dec n @ rest) = (dec n, rest)"
proof -
  assume r: "no_digit rest"
  have ds: "list_all is_digit (dec n)" using dec_digits by (auto simp: list_all_iff)
  then have "takeWhile is_digit (dec n @ rest) = dec n" using takeWhile_digits r by (auto simp: no_digit_def)
  moreover from this have "dropWhile is_digit (dec n @ rest) = rest"
    by (metis append_same_eq same_append_eq takeWhile_dropWhile_id)
  ultimately show ?thesis by (simp add: digits_of_def)
qed

lemma match_label: "no_digit rest \<Longrightarrow> match_labels (w # ws) (w @ dec n @ rest) = map_option ((#) n) (match_labels ws rest)"
  by (simp add: startswith_append digits_of_dec)

lemma match_counter_line:
  assumes "no_digit rest"
  shows "match_labels counter_labels (counter_line a r c f @ rest) = Some [a, r, c, f]"
proof -
  have "no_digit ('' rejected='' @ s)" "no_digit ('' completed='' @ s)" "no_digit ('' failed='' @ s)" for s
    by (simp_all add: no_digit_def is_digit_def)
  then show ?thesis
    unfolding counter_labels_def counter_line_def append_assoc using assms by (simp only: match_label match_labels.simps(1) option.map)
qed

lemma search_counters_at:
  assumes "find_sub ''stopped accepted='' t = Some i" and "match_labels counter_labels (drop i t) = Some ns"
  shows "search_counters t = Some ns"
  using assms
proof (induction t arbitrary: i)
  case (Cons x t)
  show ?case
  proof (cases "startswith (x # t) ''stopped accepted=''")
    case False
    then have "match_labels counter_labels (x # t) = None" by (simp add: counter_labels_def)
    then show ?thesis using Cons False by auto
  qed (use Cons.prems in auto)
qed (simp split: if_splits)

lemma finally_Inr: "try_finally m fin w = (Inr x, w'') \<Longrightarrow> \<exists>w'. m w = (Inr x, w')"
  by (auto simp: try_finally_def split: prod.splits sum.splits)

lemma yields_finally: "yields P m \<Longrightarrow> yields P (try_finally m k)"
  by (auto simp: yields_def dest!: finally_Inr)

lemma perf_values_positive: "perf_values W k l = (Inr vs, l') \<Longrightarrow> \<exists>x>0. map_of vs ''task-clock'' = Some x"
  by (auto simp: perf_values_def ask_def noted_def Let_def io_simps split: sum.splits if_splits option.splits)

lemma py_div_Inr: "py_div a b = Inr c \<longleftrightarrow> b \<noteq> 0 \<and> c = a / b"
  by (auto simp: py_div_def)

lemma bench_measure_clock:
  "bench_measure W folder server client load l = (Inr m, l') \<Longrightarrow> \<exists>x>0. map_of (perf_read m) ''task-clock'' = Some x"
  by (auto simp: bench_measure_def bnd_Inr_iff seq_Inr_iff ret_iff dest: perf_values_positive)

lemma bench_result_rates:
  assumes "bench_result var index m = Inr row" and "map_of (perf_read m) ''task-clock'' = Some x" "0 < x"
  shows "\<exists>b wall. row_number ''bytes'' (printed m) = Inr b \<and> row_number ''seconds'' (printed m) = Inr wall \<and>
    map_of row ''gib_per_cpu_second'' = Some (Num (b / 2 ^ 30 / (x / 1000))) \<and>
    map_of row ''gib_per_second'' = Some (Num (b / 2 ^ 30 / wall)) \<and>
    map_of row ''server_cpu_utilization'' = Some (Num (x / 1000 / wall)) \<and> wall \<noteq> 0"
  using assms by (auto simp: bench_result_def bind_res_Inr_iff Let_def dict_get_def py_div_Inr dict_update_def)


lemma check_short_Inr:
  "check_short show rounds row name = Inr u \<longleftrightarrow> (\<exists>st. row_stats (name @ ''_stats'') row = Inr st \<and> served (rounds + 16) st)"
  by (auto simp: check_short_def bind_res_Inr_iff guard_iff)

lemma regression_result_Inr:
  assumes "regression_result show mode rounds row = Inr row'"
  shows "mode = ''S'' \<Longrightarrow> name \<in> {''server'', ''client''} \<Longrightarrow> \<exists>st. row_stats (name @ ''_stats'') row' = Inr st \<and> served (rounds + 16) st"
    and "\<exists>work wall. work_of row = Inr work \<and> row_number ''seconds'' row = Inr wall \<and> wall \<noteq> 0 \<and>
      map_of row' ''throughput'' = Some (Num (work / wall))"
proof -
  from assms obtain u work wall cc sc where r: "work_of row = Inr work" "row_number ''seconds'' row = Inr wall" "wall \<noteq> 0"
    "row' = dict_update row [(''throughput'', Num (work / wall)), (''cpu_ms'', Num (cc + sc)), (''work_per_cpu_ms'', Num (work / (cc + sc)))]"
    and s: "(if mode = ''S'' then fold_res (\<lambda>name _. check_short show rounds row name) [''server'', ''client''] () else Inr ()) = Inr u"
    unfolding regression_result_def bind_res_Inr_iff py_div_Inr sum.inject by blast
  have "row_stats (n @ ''_stats'') row' = row_stats (n @ ''_stats'') row" if "n \<in> {''server'', ''client''}" for n
    using that r(4) by (auto simp: row_stats_def dict_get_def dict_update_def)
  moreover have "mode = ''S'' \<Longrightarrow> n \<in> {''server'', ''client''} \<Longrightarrow> \<exists>st. row_stats (n @ ''_stats'') row = Inr st \<and> served (rounds + 16) st" for n
    using s by (auto simp: bind_res_Inr_iff check_short_Inr)
  ultimately show "mode = ''S'' \<Longrightarrow> name \<in> {''server'', ''client''} \<Longrightarrow> \<exists>st. row_stats (name @ ''_stats'') row' = Inr st \<and> served (rounds + 16) st"
    by metis
  show "\<exists>work wall. work_of row = Inr work \<and> row_number ''seconds'' row = Inr wall \<and> wall \<noteq> 0 \<and>
      map_of row' ''throughput'' = Some (Num (work / wall))"
    using r by (auto simp: dict_update_def)
qed


lemma strip_dec: "strip (dec n) = dec n"
proof -
  have no: "c \<in> set (dec n) \<Longrightarrow> \<not> is_space c" for c using dec_digits [of c n] by (auto simp: is_space_def is_digit_def)
  have "dropWhile is_space xs = xs" if "set xs \<subseteq> set (dec n)" for xs using no that by (cases xs) auto
  then show ?thesis by (simp add: strip_def)
qed

lemma split_char_none: "d \<notin> set s \<Longrightarrow> split_char d s = [s]"
  by (induction s) auto

lemma py_int_dec: "py_int (dec n) = Inr (int n)"
proof -
  have d: "c \<in> set (dec n) \<Longrightarrow> is_digit c" for c by (rule dec_digits)
  have h: "is_digit (hd (dec n))" by (rule d) simp
  have "CHR ''_'' \<notin> set (dec n)" using d [of "CHR ''_''"] by (auto simp: is_digit_def)
  moreover have "\<not> startswith (dec n) ''-''" "\<not> startswith (dec n) ''+''"
    using h by (cases "dec n"; auto simp: startswith_code is_digit_def)+
  moreover have "list_all is_digit (dec n)" using d by (simp add: list_all_iff)
  ultimately show ?thesis by (simp add: py_int_def Let_def strip_dec split_char_none)
qed

lemma keeps_table:
  "keeps (\<lambda>l. table l = t) (on_machine m)" "keeps (\<lambda>l. table l = t) (ask a g)" "keeps (\<lambda>l. table l = t) (set_perf k h)"
  by (auto simp: keeps_def on_machine_def ask_def noted_def set_perf_def io_simps split: prod.splits)

lemma perf_close_table: "keeps (\<lambda>l. table l = t) (perf_close W k)"
  unfolding perf_close_def interrupt_perf_def close_pipe_def by (intro keeps_intros keeps_table)

section \<open>Theorems\<close>


text \<open>
  The same holds of a trial of the regression test.
\<close>

theorem regression_trial_ends:
  "case regression_trial W show f bins peer mode amount rounds folder core padding (new_lab h) of (r, l) \<Rightarrow>
     accounted l \<and> (clean l \<or> (\<exists>e. r = Inl e \<and> close_fails W e))"
proof (rule leaves_new)
  show "leaves (\<lambda>l. \<not> tap l) (close_fails W) (regression_trial W show f bins peer mode amount rounds folder core padding)"
    unfolding regression_trial_def by (intro leaves_intros keeps_intros)
qed simp

text \<open>
  The same holds of a trial of the REALITY benchmark, whose recording relay is closed as well.
\<close>

theorem reality_trial_ends:
  "case reality_trial W show f bins mode rounds folder optimized capture client_tls server_tls (new_lab h) of (r, l) \<Rightarrow>
     accounted l \<and> (clean l \<or> (\<exists>e. r = Inl e \<and> close_fails W e))"
proof (rule leaves_new)
  show "leaves (\<lambda>l. True) (close_fails W) (reality_trial W show f bins mode rounds folder optimized capture client_tls server_tls)"
    unfolding reality_trial_def by (intro leaves_intros keeps_intros keeps_True)
qed simp

text \<open>
  A trial of the traffic shapes, which unwinds a stack of callbacks, always leaves nothing behind: every process it
  started has ended, every log and the relay are closed.
\<close>

theorem shape_trial_ends:
  "case shape_trial W f kind bins cover sizes folder (new_lab h) of (r, l) \<Rightarrow> accounted l \<and> clean l"
proof -
  have "leaves stacked (\<lambda>_. False) (shape_trial W f kind bins cover sizes folder)"
    unfolding shape_trial_def by (intro leaves_intros keeps_intros; simp)
  from leaves_new [OF this, of h] show ?thesis by simp
qed

text \<open>
  The completion counters are read from a log whatever surrounds the line: a log in which the first \<open>stopped accepted=\<close> begins such a line, followed by
  no further digit, gives the four numbers that were printed.
\<close>

theorem stats_roundtrip:
  assumes "find_sub ''stopped accepted='' (before @ counter_line a r c f @ rest) = Some (length before)"
    and "no_digit rest"
  shows "stats_of missing (before @ counter_line a r c f @ rest) =
    Inr [(''accepted'', a), (''rejected'', r), (''completed'', c), (''failed'', f)]"
  using search_counters_at [OF assms(1)] match_counter_line [OF assms(2), of a r c f]
  by (simp add: stats_of_def stat_names_def)

theorem stats_roundtrip_witness:
  "stats_of ''missing'' (''10:00 '' @ counter_line 3 0 17 1 @ [nl]) =
    Inr [(''accepted'', 3), (''rejected'', 0), (''completed'', 17), (''failed'', 1)]"
  by (rule stats_roundtrip) (code_simp, simp add: no_digit_def is_digit_def)

text \<open>
  The rates of a benchmark row agree: a trial that returns used CPU time, and its rate by the clock is its rate by CPU time times the
  utilization; nothing was divided by zero.
\<close>

theorem bench_rates_consistent:
  "case bench_trial W conf f var mode conns amount rounds index l of
     (Inl e, l') \<Rightarrow> True
   | (Inr row, l') \<Rightarrow> \<exists>per_cpu per_second used.
       map_of row ''gib_per_cpu_second'' = Some (Num per_cpu) \<and> map_of row ''gib_per_second'' = Some (Num per_second) \<and>
       map_of row ''server_cpu_utilization'' = Some (Num used) \<and> used \<noteq> 0 \<and> per_second = per_cpu * used"
proof (cases "bench_trial W conf f var mode conns amount rounds index l")
  case (Pair r l')
  show ?thesis
  proof (cases r)
    case (Inr row)
    with Pair obtain m folder server client load l1 l2 where
      m: "bench_measure W folder server client load l1 = (Inr m, l2)" "bench_result var index m = Inr row"
      by (auto simp: bench_trial_def Let_def seq_Inr_iff bnd_Inr_iff lift_res_def dest!: finally_Inr)
    from bench_measure_clock [OF m(1)] obtain x where x: "0 < x" "map_of (perf_read m) ''task-clock'' = Some x" by blast
    from bench_result_rates [OF m(2) x(2,1)] show ?thesis using x(1) by (auto simp: Pair Inr)
  qed (simp add: Pair)
qed

text \<open>
  A trial of the regression test that returns has a throughput, and one of short streams shows the expected counters on both sides: the rounds and the
  sixteen streams of the warmup completed, none was rejected, one connection failed.
\<close>

theorem regression_trial_counts:
  "case regression_trial W show f bins peer mode amount rounds folder core padding l of
     (Inl e, l') \<Rightarrow> True
   | (Inr row, l') \<Rightarrow>
       (\<exists>x. map_of row ''throughput'' = Some (Num x)) \<and>
       (if mode = ''S''
        then list_all (\<lambda>name. \<exists>st. row_stats (name @ ''_stats'') row = Inr st \<and> served (rounds + 16) st) [''server'', ''client'']
        else True)"
proof (cases "regression_trial W show f bins peer mode amount rounds folder core padding l")
  case (Pair r l')
  show ?thesis
  proof (cases r)
    case (Inr row)
    with Pair obtain row0 where m: "regression_result show mode rounds row0 = Inr row"
      by (auto simp: regression_trial_def seq_Inr_iff bnd_Inr_iff lift_res_def dest!: finally_Inr)
    show ?thesis
      using regression_result_Inr(1) [OF m, of "''server''"] regression_result_Inr(1) [OF m, of "''client''"]
        regression_result_Inr(2) [OF m] by (auto simp: Pair Inr)
  qed (simp add: Pair)
qed

text \<open>
  A trial of the REALITY benchmark that returns shows the expected counters of the server: exactly the requested streams, and those of the warmup unless the
  traffic was recorded, none rejected, one failed.
\<close>

theorem reality_trial_counts:
  "case reality_trial W show f bins mode rounds folder optimized capture client_tls server_tls l of
     (Inl e, l') \<Rightarrow> True
   | (Inr row, l') \<Rightarrow> \<exists>st rate. row_stats ''server_stats'' row = Inr st \<and> served (rounds + (if capture then 0 else 16)) st \<and>
       map_of row ''requests_per_second'' = Some (Num rate)"
proof (cases "reality_trial W show f bins mode rounds folder optimized capture client_tls server_tls l")
  case (Pair r l')
  show ?thesis
  proof (cases r)
    case (Inr row)
    with Pair obtain t row0 where m: "reality_result show rounds capture t row0 = Inr row"
      by (auto simp: reality_trial_def seq_Inr_iff bnd_Inr_iff lift_res_def dest!: finally_Inr)
    then show ?thesis
      unfolding reality_result_def bind_res_Inr_iff guard_iff Let_def sum.inject
      by (elim exE conjE) (auto simp: Pair Inr row_stats_def dict_get_def)
  qed (simp add: Pair)
qed

text \<open>
  What the website answers to the path of a fetch passes the check of the fetch, for every size up to one MiB, and only then.
\<close>

theorem website_serves:
  "bind_res (website (fetch_path n)) (check_body n) =
     (if n \<le> 2 ^ 20 then Inr () else Inl (ValueError ''HTTPS body mismatch''))"
proof -
  have "py_int (dec n) = Inr (int n)" by (rule py_int_dec)
  then show ?thesis by (auto simp: website_def fetch_path_def check_body_def guard_def)
qed

text \<open>
  The final block gives up at the first counter that cannot be closed: the error is reported, and every process is left as it was, running.
\<close>

theorem failed_counter_leaves_processes:
  assumes "counters l = k # ks" and "perf_close W k l = (Inl e, l')"
  shows "end_trial W l = (Inl e, l') \<and> table l' = table l"
proof -
  have "table l' = table l" using keepsD [OF perf_close_table assms(2)] by blast
  then show ?thesis
    using assms by (simp add: end_trial_def close_counters_def seq_def bnd_def gets_def)
qed

theorem failed_counter_leaves_processes_witness:
  "\<exists>l'. end_trial sample_outside counting_lab = (Inl (CalledProcessError [''sudo'', ''-n'', ''kill'', ''-INT'', ''0'']), l') \<and>
     alive (process_of l' 0)"
proof -
  have zero: "dec 0 = ''0''" by code_simp
  have "fst (perf_close sample_outside 0 counting_lab) = Inl (CalledProcessError [''sudo'', ''-n'', ''kill'', ''-INT'', ''0''])"
    by (simp add: perf_close_def interrupt_perf_def sample_outside_def counting_lab_def new_lab_def ask_def noted_def on_machine_def
        run_def call_def zero io_simps)
  then obtain l' where "perf_close sample_outside 0 counting_lab = (Inl (CalledProcessError [''sudo'', ''-n'', ''kill'', ''-INT'', ''0'']), l')"
    by (metis prod.collapse)
  from failed_counter_leaves_processes [OF _ this, of "[]"] show ?thesis
    by (simp add: counting_lab_def new_lab_def process_of_def)
qed

end
