(* ===== verification/Probes.thy ===== *)
theory Probes
  imports Trials
begin

text \<open>
  The differential probes of \<^verbatim>\<open>veil-core/scripts/probe.py\<close>: \<open>tls_fetch\<close>, \<open>run_profile\<close> and the main program, on the bench of theory
  \<open>Lab\<close>. The TLS sessions, the peers that are probed and the load generator answer through \<open>prober\<close>; a probed peer is a connection of theory
  \<open>Sockets\<close>, so that what is observed of it is the result of \<open>sample\<close>.
\<close>

section \<open>Fetching a page\<close>

text \<open>An established TLS session: what was negotiated, and the decrypted stream.\<close>

record session =
  peer_certificate :: bytes
  negotiated_version :: string
  negotiated_cipher :: string
  negotiated_alpn :: string
  stream :: conn

record page =
  certificate_sha256 :: string
  page_version :: string
  page_cipher :: string
  page_alpn :: string
  page_status :: string

text \<open>The loop of \<open>tls_fetch\<close>: parts of at most 4096 bytes until the stream ends or 65536 bytes are there.\<close>

function page_loop :: "bytes \<Rightarrow> conn \<Rightarrow> bytes res \<times> conn" where
  "page_loop data c =
     (if length data < 65536 then
        (case recv 4096 c of
           (Inl e, c') \<Rightarrow> (Inl e, c')
         | (Inr part, c') \<Rightarrow> if part = [] then (Inr data, c') else page_loop (data @ part) c')
      else (Inr data, c))"
  by pat_completeness auto
termination
  by (relation "measure (\<lambda>(data, c). 65536 - length data)") (auto intro: diff_less_mono2)

declare page_loop.simps [simp del]

definition page_request :: bytes where
  "page_request = map of_char (''GET / HTTP/1.1'' @ [CHR 0x0D, nl] @ ''Host: cover.test'' @ [CHR 0x0D, nl] @ ''Connection: close'' @
     [CHR 0x0D, nl, CHR 0x0D, nl])"

text \<open>\<open>data.split(b"\r\n")[0]\<close>; \<open>dec8\<close> below is \<open>decode(errors="replace")\<close>.\<close>

definition first_line :: "bytes \<Rightarrow> bytes" where
  "first_line data = (case find_sub [13, 10] data of None \<Rightarrow> data | Some i \<Rightarrow> take i data)"

definition tls_fetch :: "(bytes \<Rightarrow> string) \<Rightarrow> (bytes \<Rightarrow> string) \<Rightarrow> session \<Rightarrow> page res" where
  "tls_fetch sh dec8 s =
     bind_res (fst (seq (sendall page_request) (page_loop []) (stream s))) (\<lambda>data.
     Inr \<lparr>certificate_sha256 = sh (peer_certificate s), page_version = negotiated_version s, page_cipher = negotiated_cipher s,
        page_alpn = negotiated_alpn s, page_status = dec8 (first_line data)\<rparr>)"

section \<open>The bench of the probes\<close>

record prober =
  bench_of :: outside
  digest :: "bytes \<Rightarrow> string"
  decoded :: "bytes \<Rightarrow> string"
  tls_session :: "int \<Rightarrow> bool \<Rightarrow> act list \<Rightarrow> session res"
  peer :: "int \<Rightarrow> act list \<Rightarrow> conn res"
  load_run :: "string list \<Rightarrow> act list \<Rightarrow> (int \<times> string \<times> string) option"

definition fetch_page :: "prober \<Rightarrow> bool \<Rightarrow> int \<Rightarrow> (lab, page) io" where
  "fetch_page Q pause p =
     bnd (ask (Connected p) (tls_session Q p pause)) (\<lambda>r. lift_res (bind_res r (tls_fetch (digest Q) (decoded Q))))"

definition probe_port :: "prober \<Rightarrow> bytes \<Rightarrow> int \<Rightarrow> (lab, sampled) io" where
  "probe_port Q data p =
     bnd (ask (Connected p) (peer Q p)) (\<lambda>r. lift_res (bind_res r (\<lambda>c. fst (sample data c))))"

section \<open>Inputs\<close>

text \<open>
  What is replayed: the first record of the captured stream, which must be a ClientHello, the same with one bit of its session id
  flipped, and three malformed inputs. A capture that is too short gives a short slice.
\<close>

definition captured_record :: "bytes \<Rightarrow> bytes" where
  "captured_record captured = take (5 + from_bytes_big (slice 3 5 captured)) captured"

definition probe_inputs :: "bytes \<Rightarrow> (string \<times> bytes) list res" where
  "probe_inputs captured =
     (let hello = captured_record captured in
      if length hello < 71 \<or> hello ! 0 \<noteq> 22 then Inl (RuntimeError ''no captured ClientHello'')
      else Inr [(''empty'', []), (''truncated_record'', [0x16, 3, 1, 0]), (''invalid_header'', map of_char ''not a TLS ClientHello''),
        (''captured_reality_hello'', hello), (''modified_reality_auth'', hello[44 := xor (hello ! 44) 1])])"

section \<open>\<open>run_profile\<close>\<close>

definition probepeer :: "outside \<Rightarrow> string" where
  "probepeer W = str (core_root (lab_site W) @ [''.build'', ''probepeer''])"

definition cover_of :: "outside \<Rightarrow> keys_of \<Rightarrow> string \<Rightarrow> int \<Rightarrow> string list" where
  "cover_of W f prof coverp =
     (if prof = ''go-tls''
      then [probepeer W, ''-role'', ''cover'', ''-listen'', local_port coverp, ''-cert'', cert_file f, ''-key'', key_file f, ''-timeout'', ''2s'']
      else s_server f coverp (if prof = ''openssl-rsa'' then ''TLS_AES_256_GCM_SHA384'' else ''TLS_AES_128_GCM_SHA256''))"

definition upstream_command :: "outside \<Rightarrow> path \<Rightarrow> int \<Rightarrow> string list" where
  "upstream_command W folder p =
     [probepeer W, ''-role'', ''upstream-reality'', ''-listen'', local_port p, ''-config'', str (folder @ [''server.json''])]"

text \<open>The changes of the saved configurations; a file is written back also when nothing changed.\<close>

definition probe_edit :: "string \<Rightarrow> bool \<Rightarrow> string \<Rightarrow> json \<Rightarrow> json res" where
  "probe_edit fingerprint padding name cfg =
     bind_res (if fingerprint \<noteq> [] \<and> name = ''client'' then tls_update [(''fingerprint'', JStr fingerprint)] cfg else Inr cfg) (\<lambda>cfg.
     if padding then tls_update [(''record_padding'', JBool True)] cfg else Inr cfg)"

text \<open>A launch on any CPU, and the same followed by waiting for its port.\<close>

definition launch_at :: "outside \<Rightarrow> path \<Rightarrow> string list \<Rightarrow> int \<Rightarrow> (lab, nat) io" where
  "launch_at W folder cmd p = bnd (launch W folder cmd [] 1) (\<lambda>n. seq (lab_wait_port W p n) (ret n))"

record scene =
  cover_cmd :: "string list"
  upstream_cmd :: "string list"
  cover_port :: int
  upstream_port :: int
  veil_port :: int
  trial_folder :: path

text \<open>\<open>reset_reference\<close>: the pair of the running cover and upstream is replaced by a new one.\<close>

definition reset_reference :: "outside \<Rightarrow> scene \<Rightarrow> nat \<times> nat \<Rightarrow> (lab, nat \<times> nat) io" where
  "reset_reference W s cu =
     seq (lab_stop W (snd cu))
     (seq (lab_stop W (fst cu))
     (bnd (launch_at W (trial_folder s) (cover_cmd s) (cover_port s)) (\<lambda>c.
     bnd (launch_at W (trial_folder s) (upstream_cmd s) (upstream_port s)) (\<lambda>u. ret (c, u)))))"

definition endpoints :: "scene \<Rightarrow> (string \<times> int) list" where
  "endpoints s = [(''direct'', cover_port s), (''upstream_reality'', upstream_port s), (''via_veil'', veil_port s)]"

definition is_os_error :: "exn \<Rightarrow> bool" where
  "is_os_error e \<longleftrightarrow> (case e of OSError m \<Rightarrow> True | TimeoutError m \<Rightarrow> True | _ \<Rightarrow> False)"

definition delayed_page :: "prober \<Rightarrow> string \<times> int \<Rightarrow> (lab, string \<times> page res) io" where
  "delayed_page Q ep =
     (let (name, p) = ep in
      try_except (bnd (fetch_page Q True p) (\<lambda>pg. ret (name, Inr pg))) is_os_error (\<lambda>e. ret (name, Inl e)))"

text \<open>The probes of one input at one endpoint, \<open>repeats\<close> times; the reference is recycled after each.\<close>

primrec observe :: "prober \<Rightarrow> scene \<Rightarrow> bytes \<Rightarrow> string \<times> int \<Rightarrow> nat \<Rightarrow> nat \<times> nat \<Rightarrow> (lab, sampled list \<times> nat \<times> nat) io" where
  "observe Q s data ep 0 cu = ret ([], cu)"
| "observe Q s data ep (Suc n) cu =
     bnd (probe_port Q data (snd ep)) (\<lambda>o1.
     bnd (if fst ep = ''upstream_reality'' then reset_reference (bench_of Q) s cu else ret cu) (\<lambda>cu.
     bnd (observe Q s data ep n cu) (\<lambda>(os, cu). ret (o1 # os, cu))))"

primrec observe_endpoints ::
  "prober \<Rightarrow> scene \<Rightarrow> nat \<Rightarrow> bytes \<Rightarrow> (string \<times> int) list \<Rightarrow> nat \<times> nat \<Rightarrow> (lab, (string \<times> sampled list) list \<times> nat \<times> nat) io" where
  "observe_endpoints Q s reps data [] cu = ret ([], cu)"
| "observe_endpoints Q s reps data (ep # eps) cu =
     bnd (observe Q s data ep reps cu) (\<lambda>(os, cu).
     bnd (observe_endpoints Q s reps data eps cu) (\<lambda>(rest, cu). ret ((fst ep, os) # rest, cu)))"

primrec differential ::
  "prober \<Rightarrow> scene \<Rightarrow> nat \<Rightarrow> (string \<times> bytes) list \<Rightarrow> nat \<times> nat \<Rightarrow> (lab, (string \<times> (string \<times> sampled list) list) list \<times> nat \<times> nat) io" where
  "differential Q s reps [] cu = ret ([], cu)"
| "differential Q s reps (i # is) cu =
     bnd (observe_endpoints Q s reps (snd i) (endpoints s) cu) (\<lambda>(row, cu).
     bnd (differential Q s reps is cu) (\<lambda>(rest, cu). ret ((fst i, row) # rest, cu)))"

text \<open>The result of a profile; its JSON text, which is only written, is an argument below.\<close>

record profile_result =
  normal_tls :: "(string \<times> page) list"
  normal_equal :: bool
  delayed_http :: "(string \<times> page res) list"
  valid_session :: "int \<times> string \<times> string"
  shapes_up :: record_shapes
  shapes_down :: record_shapes
  read_chunks :: "event list"
  differences :: "(string \<times> (string \<times> sampled list) list) list"
  cover_unavailable :: "(string \<times> sampled) list"

definition probe_setup :: "prober \<Rightarrow> keys_of \<Rightarrow> path \<Rightarrow> string \<Rightarrow> string \<Rightarrow> bool \<Rightarrow> (lab, scene \<times> string list \<times> int \<times> int \<times> nat \<times> nat) io" where
  "probe_setup Q f folder prof fingerprint padding =
     (let W = bench_of Q in
      bnd (port W) (\<lambda>coverp. bnd (port W) (\<lambda>sp. bnd (port W) (\<lambda>cp. bnd (port W) (\<lambda>bp. bnd (port W) (\<lambda>up.
      let s = \<lparr>cover_cmd = cover_of W f prof coverp, upstream_cmd = upstream_command W folder up, cover_port = coverp,
        upstream_port = up, veil_port = sp, trial_folder = folder\<rparr> in
      bnd (launch_at W folder (cover_cmd s) coverp) (\<lambda>cover.
      bnd (on_machine (configurations (lab_site W) f ''veil-opt-reality'' sp cp coverp)) (\<lambda>(sc, cc).
      seq (for_io [''client'', ''server''] (\<lambda>name. edit_config f name (probe_edit fingerprint padding name)))
      (seq (edit_config f ''server'' (set_key ''handshake_seconds'' (JInt 1)))
      (bnd (launch_at W folder sc sp) (\<lambda>server.
      bnd (launch_at W folder (upstream_cmd s) up) (\<lambda>upstream.
      ret (s, cc, cp, bp, cover, upstream)))))))))))))"

text \<open>One valid session through the recording relay; what the relay recorded is read after it was closed.\<close>

definition valid_run :: "prober \<Rightarrow> keys_of \<Rightarrow> path \<Rightarrow> string list \<Rightarrow> int \<Rightarrow> int \<Rightarrow> (lab, (int \<times> string \<times> string) \<times> relay) io" where
  "valid_run Q f folder cc cp bp =
     (let W = bench_of Q; cmd = load_command (benchpeer W) cp bp ''E'' [''-rounds'', ''32'', ''-connections'', ''1''] in
      bnd (tap_open W) (\<lambda>tp.
      seq (point_client_at f tp)
      (bnd (launch_at W folder cc cp) (\<lambda>client.
      bnd (launch_at W folder (backend_command (benchpeer W) bp) bp) (\<lambda>backend.
      bnd (ask (Attached cmd) (load_run Q cmd)) (\<lambda>r.
      case r of
        None \<Rightarrow> raise (TimeoutExpired cmd)
      | Some outcome \<Rightarrow>
          seq (lab_stop W client)
          (seq (noted (Tapped ''done''))
          (seq tap_close
          (bnd (gets (\<lambda>l. tap_relay W (past l))) (\<lambda>relay. ret (outcome, relay)))))))))))"

definition profile_body ::
  "(profile_result \<Rightarrow> string) \<Rightarrow> prober \<Rightarrow> keys_of \<Rightarrow> path \<Rightarrow> string \<Rightarrow> nat \<Rightarrow> string \<Rightarrow> bool \<Rightarrow> (lab, profile_result) io" where
  "profile_body show Q f folder prof repeats fingerprint padding =
     bnd (probe_setup Q f folder prof fingerprint padding) (\<lambda>(s, cc, cp, bp, cover, upstream).
     bnd (map_io (\<lambda>(name, p). bnd (fetch_page Q False p) (\<lambda>pg. ret (name, pg))) (endpoints s)) (\<lambda>normal.
     bnd (map_io (delayed_page Q) (endpoints s)) (\<lambda>delayed.
     bnd (valid_run Q f folder cc cp bp) (\<lambda>(outcome, relay).
     bnd (lift_res (probe_inputs (wire relay Up))) (\<lambda>inputs.
     bnd (differential Q s repeats inputs (cover, upstream)) (\<lambda>(diffs, cover, upstream).
     seq (lab_stop (bench_of Q) cover)
     (bnd (map_io (\<lambda>(name, p). bnd (probe_port Q (captured_record (wire relay Up)) p) (\<lambda>o1. ret (name, o1)))
        (filter (\<lambda>(name, p). name \<noteq> ''direct'') (endpoints s))) (\<lambda>down.
     let result = \<lparr>normal_tls = normal, normal_equal = (length (remdups (map snd normal)) = 1), delayed_http = delayed,
       valid_session = outcome, shapes_up = histogram (wire relay Up), shapes_down = histogram (wire relay Down),
       read_chunks = events relay, differences = diffs, cover_unavailable = down\<rparr> in
     seq (on_machine (write_file (folder @ [''result.json'']) (show result @ [nl]))) (ret result)))))))))"

definition end_probe :: "outside \<Rightarrow> (lab, unit) io" where
  "end_probe W = seq tap_close (seq (stop_all W) close_logs)"

definition run_profile ::
  "(profile_result \<Rightarrow> string) \<Rightarrow> prober \<Rightarrow> path \<Rightarrow> string \<Rightarrow> nat \<Rightarrow> string \<Rightarrow> bool \<Rightarrow> (lab, profile_result) io" where
  "run_profile show Q folder prof repeats fingerprint padding =
     bnd (on_machine (fixture (lab_site (bench_of Q)) folder (prof = ''openssl-rsa''))) (\<lambda>f.
     try_finally (profile_body show Q f folder prof repeats fingerprint padding) (end_probe (bench_of Q)))"

section \<open>The main program\<close>

text \<open>A profile has its own lists of processes and logs.\<close>

definition fresh_lists :: "(lab, unit) io" where
  "fresh_lists = modify (\<lambda>l. l\<lparr>table := [], logs := [], perfs := [], counters := [], tap := False, stack := []\<rparr>)"

definition known_profiles :: "string list" where
  "known_profiles = [''openssl-ecdsa'', ''openssl-rsa'', ''go-tls'']"

definition probe_main ::
  "(profile_result \<Rightarrow> string) \<Rightarrow> ((string \<times> profile_result) list \<Rightarrow> string) \<Rightarrow> prober \<Rightarrow> path \<Rightarrow> string list \<Rightarrow> nat \<Rightarrow> string \<Rightarrow> bool \<Rightarrow> (lab, unit) io" where
  "probe_main show show_all Q folder profs reps fingerprint padding =
     bnd (gets (\<lambda>l. exists (files (machine l)) folder)) (\<lambda>there.
     if there then raise (SystemExit ''use a fresh output directory'')
     else bnd (map_io (\<lambda>prof.
            if prof \<notin> set known_profiles then raise (UsageError ''unknown reference profile'')
            else seq fresh_lists
              (bnd (run_profile show Q (folder @ [prof]) prof reps fingerprint padding) (\<lambda>r. ret (prof, r)))) profs) (\<lambda>results.
     on_machine (write_file (folder @ [''result.json'']) (show_all (dict_update [] results) @ [nl]))))"

section \<open>Laws\<close>

interpretation probing: trial_end "end_probe W" "\<lambda>l. True" "\<lambda>_. False" for W
proof
  fix l l' :: lab and u e
  obtain l2 where s: "stop_all W (l\<lparr>tap := False\<rparr>) = (Inr (), l2)" "calmer (l\<lparr>tap := False\<rparr>) l2"
    "\<And>n. n < length (table l2) \<Longrightarrow> \<not> alive (process_of l2 n)"
    by (rule stop_all_run [of W "l\<lparr>tap := False\<rparr>"]) blast
  have run: "end_probe W l = (Inr (), l2\<lparr>logs := map (\<lambda>_. False) (logs l2)\<rparr>)"
    using s(1) by (simp add: end_probe_def seq_def bnd_def close_logs_run tap_close_def modify_def)
  show "end_probe W l = (Inr u, l') \<Longrightarrow> clean l'"
    using run s(2,3) by (auto simp: clean_nth process_of_def calmer_def)
  show "end_probe W l = (Inl e, l') \<Longrightarrow> False" using run by simp
next
  show "keeps accounted (end_probe W)" unfolding end_probe_def by (intro keeps_intros)
qed

lemma fetches_accounted [keeps_intros]:
  "keeps accounted (fetch_page Q b p)" "keeps accounted (probe_port Q data p)" "keeps accounted (delayed_page Q ep)"
proof -
  show p: "keeps accounted (fetch_page Q b p)" for b p unfolding fetch_page_def by (intro keeps_intros) simp
  show "keeps accounted (probe_port Q data p)" unfolding probe_port_def by (intro keeps_intros) simp
  show "keeps accounted (delayed_page Q ep)" unfolding delayed_page_def Let_def by (intro keeps_intros p)
qed

lemma launches_accounted [keeps_intros]: "keeps accounted (launch_at W folder cmd p)" "keeps accounted (reset_reference W s cu)"
proof -
  show l: "keeps accounted (launch_at W folder cmd p)" for folder cmd p unfolding launch_at_def by (intro keeps_intros)
  show "keeps accounted (reset_reference W s cu)" unfolding reset_reference_def by (intro keeps_intros l)
qed

lemma observe_accounted [keeps_intros]: "keeps accounted (observe Q s data ep n cu)"
  by (induction n arbitrary: cu) (simp_all add: keeps_intros)

lemma endpoints_accounted [keeps_intros]: "keeps accounted (observe_endpoints Q s reps data eps cu)"
  by (induction eps arbitrary: cu) (simp_all add: keeps_intros)

lemma differential_accounted [keeps_intros]: "keeps accounted (differential Q s reps ins cu)"
  by (induction ins arbitrary: cu) (simp_all add: keeps_intros)

lemma profile_accounted [keeps_intros]: "keeps accounted (profile_body show Q f folder prof repeats fingerprint padding)"
  unfolding profile_body_def probe_setup_def valid_run_def Let_def by (intro keeps_intros; simp)

text \<open>How many observations there are.\<close>

lemma observe_length: "observe Q s data ep n cu l = (Inr (os, cu'), l') \<Longrightarrow> length os = n"
  by (induction n arbitrary: cu l os cu' l') (auto simp: ret_iff bnd_Inr_iff)

lemma endpoints_length:
  "observe_endpoints Q s reps data eps cu l = (Inr (row, cu'), l') \<Longrightarrow> map fst row = map fst eps \<and> list_all (\<lambda>r. length (snd r) = reps) row"
  by (induction eps arbitrary: cu l row cu' l') (fastforce simp: ret_iff bnd_Inr_iff dest: observe_length)+

lemma differential_length:
  "differential Q s reps ins cu l = (Inr (ds, cu'), l') \<Longrightarrow>
     map fst ds = map fst ins \<and> list_all (\<lambda>d. map fst (snd d) = map fst (endpoints s) \<and> list_all (\<lambda>r. length (snd r) = reps) (snd d)) ds"
  by (induction ins arbitrary: cu l ds cu' l') (fastforce simp: ret_iff bnd_Inr_iff dest: endpoints_length)+

section \<open>Theorems\<close>

text \<open>
  A profile leaves nothing behind: however it ends, every process it started, also those that replaced others, has ended, and the logs
  and the recording relay are closed.
\<close>

theorem profile_ends:
  "case run_profile show Q folder prof repeats fingerprint padding (new_lab h) of (r, l) \<Rightarrow> accounted l \<and> clean l"
proof -
  have "leaves (\<lambda>l. True) (\<lambda>_. False) (run_profile show Q folder prof repeats fingerprint padding)"
    unfolding run_profile_def by (intro leaves_intros keeps_intros keeps_True)
  from leaves_new [OF this, of h] show ?thesis by simp
qed

text \<open>
  The differential probes are complete: a profile that returns has, for each of the five inputs and each of the three endpoints, exactly as many
  observations as were asked for.
\<close>

theorem profile_observes_all:
  "case run_profile show Q folder prof repeats fingerprint padding l of
     (Inl e, l') \<Rightarrow> True
   | (Inr r, l') \<Rightarrow>
       map fst (differences r) = [''empty'', ''truncated_record'', ''invalid_header'', ''captured_reality_hello'', ''modified_reality_auth''] \<and>
       list_all (\<lambda>d. map fst (snd d) = [''direct'', ''upstream_reality'', ''via_veil''] \<and> list_all (\<lambda>o1. length (snd o1) = repeats) (snd d))
         (differences r)"
proof (cases "run_profile show Q folder prof repeats fingerprint padding l")
  case (Pair x l')
  show ?thesis
  proof (cases x)
    case (Inr r)
    with Pair obtain ins s cu cu' l1 l2 captured where d: "differential Q s repeats ins cu l1 = (Inr (differences r, cu'), l2)"
      and i: "probe_inputs captured = Inr ins"
      by (auto simp: run_profile_def profile_body_def Let_def bnd_Inr_iff seq_Inr_iff ret_iff lift_res_def dest!: finally_Inr)
    have "map fst ins = [''empty'', ''truncated_record'', ''invalid_header'', ''captured_reality_hello'', ''modified_reality_auth'']"
      using i by (auto simp: probe_inputs_def Let_def split: if_splits)
    then show ?thesis using differential_length [OF d] by (simp add: Pair Inr endpoints_def)
  qed (simp add: Pair)
qed

text \<open>
  The replayed inputs: the fourth is the first record of the capture, a handshake record of 71 bytes at least, and the fifth is the same but for
  the lowest bit of its byte 44, the first of the session id, in which REALITY authenticates.
\<close>

theorem probe_inputs_exact:
  "case probe_inputs captured of
     Inl e \<Rightarrow> e = RuntimeError ''no captured ClientHello'' \<and> (if 71 \<le> length (captured_record captured) then captured ! 0 \<noteq> 22 else True)
   | Inr ins \<Rightarrow> \<exists>hello changed. map_of ins ''captured_reality_hello'' = Some hello \<and> map_of ins ''modified_reality_auth'' = Some changed \<and>
       prefix hello captured \<and> 71 \<le> length hello \<and> hello ! 0 = 22 \<and> length changed = length hello \<and>
       take 44 changed = take 44 hello \<and> drop 45 changed = drop 45 hello \<and> changed ! 44 = xor (hello ! 44) 1 \<and> changed ! 44 \<noteq> hello ! 44"
proof -
  have flip: "xor b 1 \<noteq> b" for b :: byte
    by (metis bit.xor_left_self bit.xor_self one_neq_zero xor.left_neutral)
  have first: "captured_record captured ! 0 = captured ! 0"
    by (simp add: captured_record_def)
  have "prefix (captured_record captured) captured" by (simp add: captured_record_def take_is_prefix)
  then show ?thesis
    using first by (auto simp: probe_inputs_def Let_def flip split: if_splits)
qed

end
