(* ===== verification/Campaigns.thy ===== *)
theory Campaigns
  imports Reports Probes
begin

text \<open>
  The main programs of the measuring scripts, which run trial after trial and keep the results: \<^verbatim>\<open>benchmark.py\<close> with its \<open>metadata\<close>,
  \<^verbatim>\<open>core_regression.py\<close>, \<^verbatim>\<open>reality_benchmark.py\<close> and \<^verbatim>\<open>reality_fingerprint.py\<close>. Shuffles are arguments, and so are the JSON texts of rows and
  summaries, in which Python prints floats.
\<close>

section \<open>\<open>metadata\<close>\<close>

definition binary_names :: "string list" where
  "binary_names = [''veil-native'', ''veil-batch'', ''veil-openssl'', ''singbox-native'', ''singbox-batch'', ''singbox-openssl'', ''benchpeer'']"

definition source_parents :: "string list" where
  "source_parents = [''cmd'', ''core'', ''inbound'', ''internal'', ''patches'', ''scripts'']"

definition digest_entries :: "site \<Rightarrow> path \<Rightarrow> path list \<Rightarrow> (host, (string \<times> json) list) io" where
  "digest_entries S base ps =
     map_io (\<lambda>p. bnd (read_digest S p) (\<lambda>d. ret (relative_name base p, JStr d))) ps"

definition measured_binaries :: "site \<Rightarrow> fs \<Rightarrow> path list" where
  "measured_binaries S fs =
     concat (map (\<lambda>dir. map (\<lambda>n. dir @ [n]) (filter (\<lambda>n. is_file fs (dir @ [n]) \<and> n \<in> set binary_names) (children fs dir)))
       [core_root S @ [''.build''], core_root S @ [''.build'', ''previous'']])"

definition measured_sources :: "site \<Rightarrow> fs \<Rightarrow> path list" where
  "measured_sources S fs =
     concat (map (\<lambda>d. filter (\<lambda>p. is_file fs p \<and> ''__pycache__'' \<notin> set p) (below fs (core_root S @ [d]))) source_parents)"

definition tool_output :: "site \<Rightarrow> string list \<Rightarrow> (host, string) io" where
  "tool_output S cmd = run (tool S) (cwd S) (environ S) cmd"

definition metadata :: "site \<Rightarrow> bool \<Rightarrow> json \<Rightarrow> (host, json) io" where
  "metadata S has_go arguments =
     bnd (tool_output S [''lscpu'']) (\<lambda>cpu_text.
     bnd (if has_go then tool_output S [''go'', ''version''] else ret ''not in test PATH; binaries were built separately'') (\<lambda>go.
     bnd (tool_output S [''openssl'', ''version'']) (\<lambda>ssl.
     bnd (gets (\<lambda>h. measured_binaries S (files h))) (\<lambda>bs.
     bnd (digest_entries S (core_root S @ [''.build'']) bs) (\<lambda>bd.
     bnd (gets (\<lambda>h. measured_sources S (files h))) (\<lambda>ss.
     bnd (digest_entries S (core_root S) ss) (\<lambda>sd.
     ret (JObj [(''arguments'', arguments), (''cpu'', JStr cpu_text), (''go'', JStr go), (''openssl'', JStr ssl),
       (''cpu_affinity'', JObj [(''server'', JStr ''14''), (''backend_cover'', JStr ''16,17''), (''load'', JStr ''18-21''), (''client'', JStr ''22-25'')]),
       (''binary_sha256'', JObj (dict_update [] bd)), (''source_sha256'', JObj (dict_update [] sd))]))))))))"

section \<open>\<^verbatim>\<open>benchmark.py\<close>\<close>

record bench_options =
  bench_out :: path
  bench_variants :: "string list"
  bench_modes :: "string list"
  bench_connections :: "nat list"
  bench_reps :: nat
  bench_bytes :: int
  bench_rounds :: int
  bench_arguments :: json

text \<open>\<open>itertools.product\<close> of variants, modes, connections and repetitions\<close>

definition bench_jobs :: "bench_options \<Rightarrow> (string \<times> string \<times> nat \<times> nat) list" where
  "bench_jobs a = List.product (bench_variants a) (List.product (bench_modes a) (List.product (bench_connections a) [0..<bench_reps a]))"

text \<open>What \<open>summarize\<close> reads of a row: its key, and the cells that are numbers.\<close>

definition numbers_of :: "row \<Rightarrow> value_map" where
  "numbers_of r = concat (map (\<lambda>(k, c). case row_number k r of Inl e \<Rightarrow> [] | Inr x \<Rightarrow> [(k, x)]) r)"

definition cell_text :: "cell \<Rightarrow> string res" where
  "cell_text c = (case c of Text s \<Rightarrow> Inr s | Plain (JStr s) \<Rightarrow> Inr s | _ \<Rightarrow> Inl type_error)"

definition bench_row_of :: "row \<Rightarrow> bench_row res" where
  "bench_row_of r =
     bind_res (bind_res (dict_get ''variant'' r) cell_text) (\<lambda>v.
     bind_res (bind_res (dict_get ''mode'' r) cell_text) (\<lambda>m.
     bind_res (dict_get ''connections'' r) (\<lambda>c.
     case c of Plain (JInt n) \<Rightarrow> Inr \<lparr>variant = v, bench_mode = m, connections = n, measured = numbers_of r\<rparr> | _ \<Rightarrow> Inl type_error)))"

definition summary_text :: "(bench_summary list \<Rightarrow> string) \<Rightarrow> row list \<Rightarrow> string res" where
  "summary_text show rows = bind_res (map_res bench_row_of rows) (\<lambda>rs. bind_res (bench_summarize rs) (\<lambda>ss. Inr (show ss @ [nl])))"

text \<open>One job: the trial, with its own lists, then its line in the raw results and the new summary.\<close>

primrec bench_loop ::
  "outside \<Rightarrow> (row \<Rightarrow> string) \<Rightarrow> (bench_summary list \<Rightarrow> string) \<Rightarrow> keys_of \<Rightarrow> bench_options \<Rightarrow> nat \<Rightarrow> (string \<times> string \<times> nat \<times> nat) list \<Rightarrow> row list \<Rightarrow>
   (lab, row list) io" where
  "bench_loop W show show_all f a i [] rows = ret rows"
| "bench_loop W show show_all f a i (job # jobs) rows =
     (case job of (v, m, n, turn) \<Rightarrow>
      seq fresh_lists
      (bnd (bench_trial W (configurations (lab_site W)) f v m n (bench_bytes a) (bench_rounds a) i) (\<lambda>r.
      seq (on_machine (on_files (append_text (bench_out a @ [''raw.jsonl'']) (show r @ [nl]))))
      (bnd (lift_res (summary_text show_all (rows @ [r]))) (\<lambda>text.
      seq (on_machine (write_file (bench_out a @ [''summary.json'']) text))
      (bench_loop W show show_all f a (Suc i) jobs (rows @ [r])))))))"

definition bench_main ::
  "outside \<Rightarrow> bool \<Rightarrow> (row \<Rightarrow> string) \<Rightarrow> (bench_summary list \<Rightarrow> string) \<Rightarrow>
   ((string \<times> string \<times> nat \<times> nat) list \<Rightarrow> (string \<times> string \<times> nat \<times> nat) list) \<Rightarrow> bench_options \<Rightarrow> (lab, row list) io" where
  "bench_main W has_go show show_all shuffle a =
     seq (on_machine (mkdirs (bench_out a)))
     (bnd (gets (\<lambda>l. exists (files (machine l)) (bench_out a @ [''raw.jsonl'']))) (\<lambda>there.
     if there then raise (SystemExit ''use a new output directory; existing results are never overwritten'')
     else bnd (on_machine (fixture (lab_site W) (bench_out a) False)) (\<lambda>f.
     seq (on_machine (bnd (metadata (lab_site W) has_go (bench_arguments a)) (\<lambda>m.
            write_file (bench_out a @ [''metadata.json'']) (dumps (Some 2) m @ [nl]))))
     (bench_loop W show show_all f a 0 (shuffle (bench_jobs a)) []))))"

section \<open>\<^verbatim>\<open>core_regression.py\<close>\<close>

record regression_run =
  before_dir :: path
  after_dir :: path
  peer_path :: path
  regression_out :: path
  skip_interop :: bool
  no_padding :: bool
  workload :: regression_options
  regression_args :: json
  script_path :: path

text \<open>Which programs a group runs: the server, then the client.\<close>

definition group_binaries :: "regression_run \<Rightarrow> string \<Rightarrow> path \<times> path" where
  "group_binaries a g =
     (let old = (before_dir a @ [''veil-server''], before_dir a @ [''veil-client'']);
          new = (after_dir a @ [''veil-openssl''], after_dir a @ [''veil-batch'']) in
      if g = ''old-client-new-server'' then (fst new, snd old)
      else if g = ''new-client-old-server'' then (fst old, snd new)
      else if g = ''before'' then old else new)"

definition regression_metadata :: "site \<Rightarrow> string \<Rightarrow> regression_run \<Rightarrow> (host, json) io" where
  "regression_metadata S release a =
     bnd (tool_output S [''lscpu'']) (\<lambda>cpu_text.
     bnd (tool_output S [''go'', ''version'']) (\<lambda>go.
     bnd (tool_output S [''openssl'', ''version'']) (\<lambda>ssl.
     bnd (read_digest S (script_path a)) (\<lambda>script.
     bnd (map_io (\<lambda>p. bnd (read_digest S p) (\<lambda>d. ret (str p, JStr d)))
       [before_dir a @ [''veil-server''], before_dir a @ [''veil-client''], after_dir a @ [''veil-openssl''], after_dir a @ [''veil-batch''], peer_path a]) (\<lambda>bd.
     ret (JObj [(''kernel'', JStr release), (''cpu'', JStr cpu_text), (''go'', JStr go), (''openssl'', JStr ssl), (''script_sha256'', JStr script),
       (''cores'', JArr (map JInt (cores (workload a)))), (''gomaxprocs'', JInt 1), (''args'', regression_args a),
       (''binaries'', JObj (dict_update [] bd))]))))))"

text \<open>The rounds and bytes of a trial: the cross-version checks are short.\<close>

definition is_interop :: "string \<Rightarrow> bool" where
  "is_interop g \<longleftrightarrow> g = ''old-client-new-server'' \<or> g = ''new-client-old-server''"

type_synonym job_row = "(string \<times> string \<times> int) \<times> row"

primrec regression_loop ::
  "outside \<Rightarrow> (row \<Rightarrow> string) \<Rightarrow> (job_row list \<Rightarrow> string) \<Rightarrow> keys_of \<Rightarrow> regression_run \<Rightarrow> (string \<times> string \<times> int) list \<Rightarrow> job_row list \<Rightarrow> (lab, job_row list) io" where
  "regression_loop W show show_all f a [] rows = ret rows"
| "regression_loop W show show_all f a (job # jobs) rows =
     (case job of (g, m, p) \<Rightarrow>
      let bins = group_binaries a g in
      seq fresh_lists
      (bnd (regression_trial W show f (str (fst bins), str (snd bins)) (str (peer_path a)) m
          (if is_interop g then 0 else payload_bytes (workload a)) (if is_interop g then 100 else rounds (workload a))
          (regression_out a @ [pad3 (length rows) @ ''-'' @ g @ ''-'' @ m])
          (\<lambda>i. dec_int (cores (workload a) ! i)) (\<not> no_padding a)) (\<lambda>r.
      let rows = rows @ [(job, dict_update r [(''group'', Text g), (''pair'', Num (of_int p))])] in
      seq (on_machine (write_file (regression_out a @ [''results.json'']) (show_all rows @ [nl])))
      (regression_loop W show show_all f a jobs rows))))"

text \<open>What \<open>comparison\<close> reads of a row: the mode the load generator printed, the group, the pair and the numbers.\<close>

definition trial_row_of :: "job_row \<Rightarrow> trial_row res" where
  "trial_row_of jr =
     (case jr of ((g, m, p), r) \<Rightarrow>
      bind_res (bind_res (dict_get ''mode'' r) cell_text) (\<lambda>mode.
      Inr \<lparr>trial_mode = mode, group = g, pair = p, metrics = numbers_of r\<rparr>))"

definition regression_main ::
  "outside \<Rightarrow> string \<Rightarrow> int set \<Rightarrow> bool \<Rightarrow> (row \<Rightarrow> string) \<Rightarrow> (job_row list \<Rightarrow> string) \<Rightarrow> ((string \<times> (string \<times> delta) list) list \<Rightarrow> string) \<Rightarrow>
   (nat \<Rightarrow> string list \<Rightarrow> string list) \<Rightarrow> regression_run \<Rightarrow> (lab, job_row list \<times> (string \<times> (string \<times> delta) list) list) io" where
  "regression_main W release affinity isolated show show_all show_summary shuffle a =
     bnd (lift_res (regression_guards affinity isolated (workload a))) (\<lambda>_.
     seq (on_machine (on_files (mkdir_new (regression_out a))))
     (seq (on_machine (bnd (regression_metadata (lab_site W) release a) (\<lambda>m.
            write_file (regression_out a @ [''metadata.json'']) (dumps (Some 2) m @ [nl]))))
     (bnd (on_machine (fixture (lab_site W) (regression_out a @ [''fixture'']) False)) (\<lambda>f.
     bnd (regression_loop W show show_all f a (schedule shuffle (skip_interop a) (nat (reps (workload a))) (modes_arg (workload a))) []) (\<lambda>rows.
     bnd (lift_res (bind_res (map_res trial_row_of rows) (\<lambda>ts. comparison ts (modes_arg (workload a))))) (\<lambda>summary.
     seq (on_machine (write_file (regression_out a @ [''summary.json'']) (show_summary summary @ [nl])))
     (ret (rows, summary))))))))"

section \<open>\<^verbatim>\<open>reality_benchmark.py\<close>\<close>

record reality_options =
  reality_before :: path
  reality_after :: path
  reality_out :: path
  reality_modes :: "string list"
  reality_reps :: int
  reality_rounds :: int
  native_only :: bool
  template :: string
  pad_records :: bool
  reality_args :: json

text \<open>The overrides of the candidate: its client, its server.\<close>

definition candidate_tls :: "string \<Rightarrow> bool \<Rightarrow> (string \<times> json) list \<times> (string \<times> json) list" where
  "candidate_tls fp padding =
     ((if fp \<noteq> [] then [(''fingerprint'', JStr fp)] else []) @ (if padding then [(''record_padding'', JBool True)] else []),
      if padding then [(''record_padding'', JBool True)] else [])"

definition tls_for :: "string \<Rightarrow> (string \<times> json) list \<times> (string \<times> json) list \<Rightarrow> (string \<times> json) list \<times> (string \<times> json) list" where
  "tls_for version changes = (if version = ''after'' then changes else ([], []))"

text \<open>
  The jobs: the blocks of mode and repetition in a random order, in each both versions in a random order; \<open>shuffle_versions\<close> gets the number of the
  block.
\<close>

definition reality_jobs ::
  "((string \<times> nat) list \<Rightarrow> (string \<times> nat) list) \<Rightarrow> (nat \<Rightarrow> string list \<Rightarrow> string list) \<Rightarrow> string list \<Rightarrow> nat \<Rightarrow> (string \<times> string \<times> nat \<times> nat) list" where
  "reality_jobs shuffle_blocks shuffle_versions ms turns =
     concat (map (\<lambda>(p, mode, turn). map (\<lambda>v. (v, mode, turn, p)) (shuffle_versions p [''before'', ''after'']))
       (enumerate 0 (shuffle_blocks (List.product ms [0..<turns]))))"

definition version_binaries :: "fs \<Rightarrow> path \<Rightarrow> path list" where
  "version_binaries fs dir =
     concat (map (\<lambda>prefix_text. map (\<lambda>n. dir @ [n]) (filter (\<lambda>n. startswith n prefix_text \<and> is_file fs (dir @ [n])) (children fs dir)))
       [''veil-'', ''handshakebench-''])"

definition comparison_digests :: "site \<Rightarrow> path \<Rightarrow> (host, json) io" where
  "comparison_digests S dir =
     bnd (gets (\<lambda>h. version_binaries (files h) dir)) (\<lambda>ps.
     bnd (map_io (\<lambda>p. bnd (read_digest S p) (\<lambda>d. ret (last p, JStr d))) ps) (\<lambda>ds. ret (JObj (dict_update [] ds))))"

definition reality_metadata :: "site \<Rightarrow> bool \<Rightarrow> reality_options \<Rightarrow> (host, json) io" where
  "reality_metadata S has_go a =
     bnd (metadata S has_go (reality_args a)) (\<lambda>info.
     bnd (comparison_digests S (reality_before a)) (\<lambda>before.
     bnd (comparison_digests S (reality_after a)) (\<lambda>after.
     lift_res (bind_res (set_key ''cpu_affinity'' (JObj [(''server'', JInt 14), (''client'', JInt 22), (''cover'', JInt 16), (''backend'', JInt 17),
         (''SOCKS_load'', JInt 18)]) info)
       (set_key ''comparison_binary_sha256'' (JObj [(''before'', before), (''after'', after)]))))))"

primrec reality_loop ::
  "outside \<Rightarrow> (stats \<Rightarrow> string) \<Rightarrow> (row \<Rightarrow> string) \<Rightarrow> keys_of \<Rightarrow> reality_options \<Rightarrow> nat \<Rightarrow> (string \<times> string \<times> nat \<times> nat) list \<Rightarrow> row list \<Rightarrow> (lab, row list) io" where
  "reality_loop W show show_row f a i [] rows = ret rows"
| "reality_loop W show show_row f a i (job # jobs) rows =
     (case job of (v, mode, turn, p) \<Rightarrow>
      let changes = tls_for v (candidate_tls (template a) (pad_records a)) in
      seq fresh_lists
      (bnd (reality_trial W show f (if v = ''before'' then reality_before a else reality_after a) mode (reality_rounds a)
          (reality_out a @ [pad3 i @ ''-'' @ v @ ''-'' @ mode]) (\<not> native_only a) False (fst changes) (snd changes)) (\<lambda>r.
      let r = dict_update r [(''version'', Text v), (''repetition'', Num (of_nat turn)), (''pair'', Num (of_nat p))] in
      seq (on_machine (on_files (append_text (reality_out a @ [''raw.jsonl'']) (show_row r @ [nl]))))
      (bnd (lift_res (row_number ''p99_us'' r)) (\<lambda>_.
      reality_loop W show show_row f a (Suc i) jobs (rows @ [r])))))) "

definition reality_guards :: "reality_options \<Rightarrow> unit res" where
  "reality_guards a =
     guard (1 \<le> reality_reps a \<and> 1 \<le> reality_rounds a \<and> list_all (\<lambda>m. m = ''H'' \<or> m = ''S'') (reality_modes a)) (UsageError ''invalid workload'')"

definition reality_main ::
  "outside \<Rightarrow> bool \<Rightarrow> (stats \<Rightarrow> string) \<Rightarrow> (row \<Rightarrow> string) \<Rightarrow> ((string \<times> nat) list \<Rightarrow> (string \<times> nat) list) \<Rightarrow> (nat \<Rightarrow> string list \<Rightarrow> string list) \<Rightarrow>
   reality_options \<Rightarrow> (lab, row list) io" where
  "reality_main W has_go show show_row shuffle_blocks shuffle_versions a =
     bnd (lift_res (reality_guards a)) (\<lambda>_.
     bnd (gets (\<lambda>l. exists (files (machine l)) (reality_out a))) (\<lambda>there.
     if there then raise (SystemExit ''use a fresh output directory'')
     else bnd (on_machine (fixture (lab_site W) (reality_out a) False)) (\<lambda>f.
     seq (on_machine (bnd (reality_metadata (lab_site W) has_go a) (\<lambda>m.
            write_file (reality_out a @ [''metadata.json'']) (dumps (Some 2) m @ [nl]))))
     (reality_loop W show show_row f a 0 (reality_jobs shuffle_blocks shuffle_versions (reality_modes a) (nat (reality_reps a))) []))))"

section \<open>\<^verbatim>\<open>reality_fingerprint.py\<close>\<close>

text \<open>\<open>bytes.fromhex\<close> of an even number of hexadecimal digits; white space, which Python allows between bytes, does not occur in the output of \<open>hex\<close>.\<close>

fun from_hex :: "string \<Rightarrow> bytes res" where
  "from_hex [] = Inr []"
| "from_hex [c] = Inl (ValueError ''non-hexadecimal number found in fromhex()'')"
| "from_hex (c # d # s) =
     (case (hex_val c, hex_val d) of
        (Some a, Some b) \<Rightarrow> bind_res (from_hex s) (\<lambda>bs. Inr (of_nat (16 * a + b) # bs))
      | _ \<Rightarrow> Inl (ValueError ''non-hexadecimal number found in fromhex()''))"

record finger_sample =
  finger_hello :: hello_result
  up_shapes :: "(nat \<times> nat) list"
  down_shapes :: "(nat \<times> nat) list"
  finger_stats :: stats

definition wire_of :: "string \<Rightarrow> row \<Rightarrow> bytes res" where
  "wire_of d r =
     bind_res (dict_get ''capture'' r) (\<lambda>c. case c of Wires ws \<Rightarrow> bind_res (dict_get d ws) from_hex | _ \<Rightarrow> Inl type_error)"

definition record_shape :: "(byte \<times> bytes) list \<Rightarrow> (nat \<times> nat) list" where
  "record_shape rs = map (\<lambda>(typ, b). (unat typ, length b)) rs"

definition finger_sample_of :: "(bytes \<Rightarrow> string) \<Rightarrow> row \<Rightarrow> finger_sample res" where
  "finger_sample_of sh r =
     bind_res (wire_of ''up'' r) (\<lambda>up_bytes.
     bind_res (wire_of ''down'' r) (\<lambda>down_bytes.
     bind_res (records up_bytes) (\<lambda>up_records.
     bind_res (records down_bytes) (\<lambda>down_records.
     bind_res (Prelude.at up_records 0) (\<lambda>first.
     bind_res (hello sh (snd first)) (\<lambda>h.
     bind_res (row_stats ''server_stats'' r) (\<lambda>st.
     Inr \<lparr>finger_hello = h, up_shapes = record_shape up_records, down_shapes = record_shape down_records, finger_stats = st\<rparr>)))))))"

text \<open>The profile as the dictionary it is in Python, and its canonical text, \<open>json.dumps(profile, sort_keys=True)\<close>.\<close>

definition ext_json :: "ext_value \<Rightarrow> json" where
  "ext_json v =
     (case v of
        Key_Shares ps \<Rightarrow> JArr (map (\<lambda>(g, n). JArr [JInt (int g), JInt (int n)]) ps)
      | Words ws \<Rightarrow> JArr (map (\<lambda>w. JInt (int w)) ws)
      | Variable \<Rightarrow> JStr ''variable''
      | Hex s \<Rightarrow> JStr s)"

definition profile_json :: "hello_profile \<Rightarrow> json" where
  "profile_json p =
     JObj [(''legacy_version'', JStr (legacy_version p)), (''ciphers'', JArr (map (\<lambda>n. JInt (int n)) (ciphers p))),
       (''session_id_length'', JInt (int (session_id_length p))), (''compression'', JArr (map (\<lambda>n. JInt (int n)) (compression p))),
       (''extension_ids'', JArr (map (\<lambda>n. JInt (int n)) (extension_ids p))),
       (''extensions'', JObj (map (\<lambda>(k, v). (dec k, ext_json v)) (profile_extensions p)))]"

fun sort_keys :: "json \<Rightarrow> json" where
  "sort_keys (JObj ms) = JObj (sort_key fst (map (\<lambda>(k, v). (k, sort_keys v)) ms))"
| "sort_keys (JArr vs) = JArr (map sort_keys vs)"
| "sort_keys v = v"

definition canonical :: "json \<Rightarrow> string" where
  "canonical v = dumps None (sort_keys v)"

record version_summary =
  sample_count :: nat
  hello_sizes :: "(nat \<times> nat) list"
  down_tails :: "((nat \<times> nat) list \<times> nat) list"
  fresh_randoms :: bool
  fresh_session_ids :: bool
  fresh_key_shares :: bool

definition last_four :: "'a list \<Rightarrow> 'a list" where
  "last_four xs = drop (length xs - 4) xs"

definition all_fresh :: "'a list \<Rightarrow> bool" where
  "all_fresh xs \<longleftrightarrow> length (remdups xs) = length xs"

definition summarize_version :: "finger_sample list \<Rightarrow> version_summary" where
  "summarize_version rows =
     \<lparr>sample_count = length rows, hello_sizes = counter (map (\<lambda>r. hello_bytes (finger_hello r)) rows),
      down_tails = counter (map (\<lambda>r. last_four (down_shapes r)) rows),
      fresh_randoms = all_fresh (map (\<lambda>r. random_sha256 (finger_hello r)) rows),
      fresh_session_ids = all_fresh (map (\<lambda>r. session_id_sha256 (finger_hello r)) rows),
      fresh_key_shares = all_fresh (map (\<lambda>r. key_share_sha256 (finger_hello r)) rows)\<rparr>"

definition profile_text :: "finger_sample \<Rightarrow> string" where
  "profile_text r = canonical (profile_json (profile (finger_hello r)))"

record finger_summary =
  normalized_equal :: bool
  browser_match :: "(json \<times> bool) option"
  per_version :: "(string \<times> version_summary) list"

text \<open>The comparison with a browser, from the saved result of \<^verbatim>\<open>browser_hello.py\<close>.\<close>

definition match_browser :: "json \<Rightarrow> finger_sample list \<Rightarrow> (json \<times> bool) res" where
  "match_browser browser after =
     bind_res (jget ''samples'' browser) (\<lambda>ss.
     case ss of
       JArr rs \<Rightarrow>
         bind_res (map_res (jget ''profile'') rs) (\<lambda>ps.
         bind_res (jget ''browser_version'' browser) (\<lambda>v.
         Inr (v, list_all (\<lambda>r. profile_text r \<in> set (map canonical ps)) after)))
     | _ \<Rightarrow> Inl type_error)"

definition finger_summarize :: "json option \<Rightarrow> finger_sample list \<Rightarrow> finger_sample list \<Rightarrow> finger_summary res" where
  "finger_summarize browser before after =
     bind_res (case browser of None \<Rightarrow> Inr None | Some b \<Rightarrow> bind_res (match_browser b after) (\<lambda>m. Inr (Some m))) (\<lambda>m.
     Inr \<lparr>normalized_equal = (length (remdups (map profile_text (before @ after))) = 1), browser_match = m,
        per_version = [(''before'', summarize_version before), (''after'', summarize_version after)]\<rparr>)"

record finger_options =
  finger_before :: path
  finger_after :: path
  finger_out :: path
  finger_samples :: int
  finger_template :: string
  finger_padding :: bool
  browser_result :: "path option"

definition finger_trial :: "outside \<Rightarrow> (bytes \<Rightarrow> string) \<Rightarrow> (stats \<Rightarrow> string) \<Rightarrow> keys_of \<Rightarrow> finger_options \<Rightarrow> nat \<Rightarrow> string \<Rightarrow> (lab, finger_sample) io" where
  "finger_trial W sh show f a turn version =
     (let changes = tls_for version (candidate_tls (finger_template a) (finger_padding a)) in
      seq fresh_lists
      (bnd (reality_trial W show f (if version = ''before'' then finger_before a else finger_after a) ''H'' 1
         (finger_out a @ [pad3 turn @ ''-'' @ version]) True True (fst changes) (snd changes)) (\<lambda>r.
      lift_res (finger_sample_of sh r))))"

definition finger_main ::
  "outside \<Rightarrow> (bytes \<Rightarrow> string) \<Rightarrow> (stats \<Rightarrow> string) \<Rightarrow> (finger_summary \<Rightarrow> finger_sample list \<Rightarrow> finger_sample list \<Rightarrow> string) \<Rightarrow> finger_options \<Rightarrow>
   (lab, finger_summary) io" where
  "finger_main W sh show show_all a =
     bnd (lift_res (guard (2 \<le> finger_samples a) (UsageError ''at least two samples required''))) (\<lambda>_.
     bnd (gets (\<lambda>l. exists (files (machine l)) (finger_out a))) (\<lambda>there.
     if there then raise (SystemExit ''use a fresh output directory'')
     else bnd (on_machine (fixture (lab_site W) (finger_out a) False)) (\<lambda>f.
     bnd (map_io (\<lambda>turn. bnd (finger_trial W sh show f a turn ''before'') (\<lambda>b.
            bnd (finger_trial W sh show f a turn ''after'') (\<lambda>c. ret (b, c)))) [0..<nat (finger_samples a)]) (\<lambda>pairs.
     bnd (case browser_result a of
            None \<Rightarrow> ret None
          | Some p \<Rightarrow> on_machine (bnd (read_file p) (\<lambda>text. bnd (lift_res (loads text)) (\<lambda>v. ret (Some v))))) (\<lambda>browser.
     bnd (lift_res (finger_summarize browser (map fst pairs) (map snd pairs))) (\<lambda>summary.
     seq (on_machine (write_file (finger_out a @ [''result.json'']) (show_all summary (map fst pairs) (map snd pairs) @ [nl])))
     (ret summary)))))))"

section \<open>What a run promises\<close>

text \<open>The dictionary of extensions of a parsed message: distinct keys, each with the kind of value its type has.\<close>

definition ext_fits :: "nat \<times> ext_value \<Rightarrow> bool" where
  "ext_fits kv =
     (case kv of (k, v) \<Rightarrow>
      case v of
        Key_Shares _ \<Rightarrow> k = 51
      | Words _ \<Rightarrow> k \<in> {10, 13, 43}
      | Variable \<Rightarrow> k \<in> {21, 65037}
      | Hex s \<Rightarrow> k \<notin> {51, 10, 13, 43, 21, 65037} \<and> is_ascii s)"

definition exts_fit :: "(nat \<times> ext_value) list \<Rightarrow> bool" where
  "exts_fit d \<longleftrightarrow> distinct (map fst d) \<and> list_all ext_fits d"

definition same_profile :: "hello_profile \<Rightarrow> hello_profile \<Rightarrow> bool" where
  "same_profile p q \<longleftrightarrow>
     p\<lparr>profile_extensions := []\<rparr> = q\<lparr>profile_extensions := []\<rparr> \<and> map_of (profile_extensions p) = map_of (profile_extensions q)"

definition good_sample :: "(bytes \<Rightarrow> string) \<Rightarrow> finger_sample \<Rightarrow> bool" where
  "good_sample sh r \<longleftrightarrow> (\<exists>data. hello sh data = Inr (finger_hello r)) \<and> served 1 (finger_stats r)"

definition bench_row_ok :: "nat \<times> string \<times> string \<times> nat \<times> nat \<Rightarrow> row \<Rightarrow> bool" where
  "bench_row_ok job r \<longleftrightarrow> map_of r ''variant'' = Some (Text (fst (snd job))) \<and> map_of r ''index'' = Some (Num (of_nat (fst job)))"

text \<open>A row says what it was measured for, has a throughput, and where streams are short, the counters of so many rounds.\<close>

definition counted_row :: "int \<Rightarrow> job_row \<Rightarrow> bool" where
  "counted_row n jr \<longleftrightarrow>
     (case jr of ((g, m, p), row) \<Rightarrow>
       map_of row ''group'' = Some (Text g) \<and> map_of row ''pair'' = Some (Num (of_int p)) \<and> (\<exists>x. map_of row ''throughput'' = Some (Num x)) \<and>
       (if m = ''S''
        then list_all (\<lambda>name. \<exists>st. row_stats (name @ ''_stats'') row = Inr st \<and> served (n + 16) st) [''server'', ''client'']
        else True))"

definition regression_row_ok :: "regression_run \<Rightarrow> job_row \<Rightarrow> bool" where
  "regression_row_ok a jr \<longleftrightarrow> counted_row (if is_interop (fst (fst jr)) then 100 else rounds (workload a)) jr"

definition reality_row_ok :: "reality_options \<Rightarrow> string \<times> string \<times> nat \<times> nat \<Rightarrow> row \<Rightarrow> bool" where
  "reality_row_ok a job r \<longleftrightarrow>
     (case job of (v, mode, turn, p) \<Rightarrow>
       map_of r ''version'' = Some (Text v) \<and> map_of r ''pair'' = Some (Num (of_nat p)) \<and>
       (\<exists>st. row_stats ''server_stats'' r = Inr st \<and> served (reality_rounds a + 16) st))"

section \<open>Laws\<close>

lemma hex_val_hex_digit: "d < 16 \<Longrightarrow> hex_val (hex_digit d) = Some d"
  by (auto simp: hex_val_def hex_digit_def Let_def of_char_of)

lemma from_hex_hex: "from_hex (hex bs) = Inr bs"
proof (induction bs)
  case (Cons b bs)
  have b: "unat b < 256" by simp
  then have "unat b div 16 < 16" by linarith
  then have "hex_val (hex_digit (unat b div 16)) = Some (unat b div 16)" "hex_val (hex_digit (unat b mod 16)) = Some (unat b mod 16)"
    by (simp_all add: hex_val_hex_digit)
  moreover have "word_of_nat (16 * (unat b div 16) + unat b mod 16) = b" by (simp del: of_nat_add of_nat_mult)
  ultimately show ?case using Cons by (simp add: hex_def del: of_nat_add of_nat_mult)
qed (simp add: hex_def)

lemma map_enumerate: "map (\<lambda>(p, x). f x) (enumerate n xs) = map f xs"
  by (induction xs arbitrary: n) simp_all

lemma mset_concat_map_cong:
  "(\<And>x. x \<in> set xs \<Longrightarrow> mset (f x) = mset (g x)) \<Longrightarrow> mset (concat (map f xs)) = mset (concat (map g xs))"
  by (induction xs) simp_all

lemma mset_concat_map_perm: "mset xs = mset ys \<Longrightarrow> mset (concat (map f xs)) = mset (concat (map f ys))"
  by (metis mset_concat mset_map map_map sum_mset_sum_list)

text \<open>A dictionary sorted by its keys is determined by its entries.\<close>

lemma distinct_sorted: "distinct (map fst (sort_key fst xs)) \<longleftrightarrow> distinct (map fst xs)"
  by (simp add: distinct_map)

lemma entries_map_of:
  assumes "distinct (map fst xs)"
  shows "map (\<lambda>k. (k, the (map_of xs k))) (map fst xs) = xs"
  using assms by (auto intro!: map_idI)

lemma sorted_entries:
  assumes "distinct (map fst xs)"
  shows "sort_key fst xs = map (\<lambda>k. (k, the (map_of xs k))) (sorted_list_of_set (dom (map_of xs)))"
proof -
  let ?s = "sort_key fst xs"
  have d: "distinct (map fst ?s)" using assms by (simp only: distinct_sorted)
  then have "map fst ?s = sorted_list_of_set (set (map fst ?s))"
    by (intro sorted_list_of_set.idem_if_sorted_distinct [symmetric]) simp_all
  then have "map fst ?s = sorted_list_of_set (dom (map_of xs))" by (simp add: dom_map_of_conv_image_fst)
  moreover have "map_of ?s = map_of xs" using map_of_inject_set [OF d assms] by simp
  ultimately show ?thesis using entries_map_of [OF d] by simp
qed

lemma sorted_entries_eq:
  assumes "distinct (map fst xs)" and "distinct (map fst ys)"
  shows "sort_key fst xs = sort_key fst ys \<longleftrightarrow> map_of xs = map_of ys"
proof
  assume "sort_key fst xs = sort_key fst ys"
  then have "set (sort_key fst xs) = set (sort_key fst ys)" by (rule arg_cong)
  then show "map_of xs = map_of ys" using assms by (simp add: map_of_inject_set)
qed (simp add: assms sorted_entries)

lemma sort_keys_ok: "json_ok v \<Longrightarrow> json_ok (sort_keys v)"
proof (induction v rule: sort_keys.induct)
  case (1 ms)
  let ?ms = "map (\<lambda>(k, v). (k, sort_keys v)) ms"
  have "map fst ?ms = map fst ms" by (induction ms) auto
  then have "distinct (map fst (sort_key fst ?ms))" using 1(2) by (simp only: distinct_sorted json_ok.simps)
  moreover have "list_all (\<lambda>(k, v). utf8_ok k \<and> json_ok v) (sort_key fst ?ms)"
    using 1 by (fastforce simp: list_all_iff)
  ultimately show ?case by simp
qed (auto simp: list_all_iff)

lemma canonical_eq:
  assumes "json_ok v" and "json_ok w"
  shows "canonical v = canonical w \<longleftrightarrow> sort_keys v = sort_keys w"
proof
  assume "canonical v = canonical w"
  then have "loads (dumps None (sort_keys v)) = loads (dumps None (sort_keys w))" by (simp only: canonical_def)
  then show "sort_keys v = sort_keys w"
    by (simp only: loads_dumps(1) [OF sort_keys_ok [OF assms(1)]] loads_dumps(1) [OF sort_keys_ok [OF assms(2)]] sum.inject)
qed (simp only: canonical_def)

lemma set_dict_set: "e \<in> set (dict_set k v d) \<Longrightarrow> e = (k, v) \<or> e \<in> set d"
  by (induction k v d rule: dict_set.induct) (auto split: if_splits)

lemma exts_fit_set: "exts_fit d \<Longrightarrow> ext_fits (k, v) \<Longrightarrow> exts_fit (dict_set k v d)"
  by (auto simp: exts_fit_def list_all_iff dest: set_dict_set)

lemma is_ascii_hex: "is_ascii (hex bs)"
proof -
  have "of_char (hex_digit d) < (128 :: nat)" if "d < 16" for d
    using that by (auto simp: hex_digit_def of_char_of)
  moreover have "unat b div 16 < 16" for b :: byte using unat_byte_less [of b] by linarith
  ultimately show ?thesis by (auto simp: hex_def is_ascii_def list_all_iff)
qed

lemma ext_step_fit: "ext_step sh typ val st = Inr st' \<Longrightarrow> exts_fit (extensions st) \<Longrightarrow> exts_fit (extensions st')"
  by (auto simp: ext_step_def Let_def bind_res_Inr_iff ext_fits_def is_ascii_hex intro!: exts_fit_set split: if_splits)

lemma ext_loop_invariant:
  assumes "\<And>typ val st st'. ext_step sh typ val st = Inr st' \<Longrightarrow> P st \<Longrightarrow> P st'"
  shows "ext_loop sh rest st = Inr st' \<Longrightarrow> P st \<Longrightarrow> P st'"
  using assms
proof (induction sh rest st rule: ext_loop.induct)
  case (1 sh rest st)
  show ?case
  proof (cases "rest = []")
    case False
    let ?ty = "grease (from_bytes_big (slice 0 2 rest))" and ?n = "from_bytes_big (slice 2 4 rest)"
    from 1(2) False obtain st1 where s: "ext_step sh ?ty (slice 4 (4 + ?n) rest) st = Inr st1"
      "ext_loop sh (drop (4 + ?n) rest) st1 = Inr st'" "length (slice 4 (4 + ?n) rest) = ?n"
      by (subst (asm) ext_loop.simps) (auto simp: Let_def bind_res_Inr_iff split: if_splits)
    show ?thesis
      by (rule 1(1) [OF False refl refl refl _ s(1) s(2) 1(4) [OF s(1) 1(3)] 1(4)]) (use s(3) in simp_all)
  qed (use 1 in \<open>auto simp: ext_loop.simps\<close>)
qed

lemma ext_loop_fit: "ext_loop sh rest st = Inr st' \<Longrightarrow> exts_fit (extensions st) \<Longrightarrow> exts_fit (extensions st')"
  by (rule ext_loop_invariant [of sh "\<lambda>st. exts_fit (extensions st)"]) (rule ext_step_fit)

lemma hello_fit: "hello sh data = Inr h \<Longrightarrow> exts_fit (profile_extensions (profile h)) \<and> is_ascii (legacy_version (profile h))"
  by (auto simp: hello_def Let_def bind_res_Inr_iff is_ascii_hex exts_fit_def dest!: ext_loop_fit split: if_splits)

lemma same_profile_iff:
  "same_profile p q \<longleftrightarrow> legacy_version p = legacy_version q \<and> ciphers p = ciphers q \<and> session_id_length p = session_id_length q \<and>
     compression p = compression q \<and> extension_ids p = extension_ids q \<and> map_of (profile_extensions p) = map_of (profile_extensions q)"
  by (cases p; cases q) (auto simp: same_profile_def)

lemma ext_json_ok: "ext_fits kv \<Longrightarrow> json_ok (ext_json (snd kv))"
  by (cases kv) (auto simp: ext_fits_def ext_json_def list_all_iff utf8_ok_ascii is_ascii_def split: ext_value.splits)

lemma is_ascii_dec: "is_ascii (dec n)"
  by (fastforce simp: is_ascii_def list_all_iff is_digit_def dest: dec_digits)

lemma distinct_exts: "distinct (map fst (map (\<lambda>(k, v). (dec k, ext_json v)) xs)) \<longleftrightarrow> distinct (map fst xs)"
  by (induction xs) (auto simp: image_iff)

lemma profile_json_ok:
  assumes "exts_fit (profile_extensions p)" and "is_ascii (legacy_version p)"
  shows "json_ok (profile_json p)"
proof -
  have d: "distinct (map fst (map (\<lambda>(k, v). (dec k, ext_json v)) (profile_extensions p)))"
    using assms(1) by (simp only: exts_fit_def distinct_exts)
  have "list_all (\<lambda>(k, v). utf8_ok k \<and> json_ok v) (map (\<lambda>(k, v). (dec k, ext_json v)) (profile_extensions p))"
    using assms(1) by (auto simp: exts_fit_def list_all_iff utf8_ok_ascii is_ascii_dec dest!: bspec ext_json_ok)
  with d show ?thesis using assms(2)
    by (simp add: profile_json_def utf8_ok_ascii is_ascii_def) (simp add: list_all_iff)
qed

lemma map_of_exts: "map_of (map (\<lambda>(k, v). (dec k, ext_json v)) xs) (dec k) = map_option ext_json (map_of xs k)"
  by (induction xs) auto

lemma ext_json_inject: "ext_fits (k, v) \<Longrightarrow> ext_fits (k, w) \<Longrightarrow> ext_json v = ext_json w \<Longrightarrow> v = w"
  by (cases v; cases w) (auto simp: ext_fits_def ext_json_def inj_map_eq_map inj_on_def)

lemma exts_json_eq:
  assumes "exts_fit xs" and "exts_fit ys"
  shows "map_of (map (\<lambda>(k, v). (dec k, ext_json v)) xs) = map_of (map (\<lambda>(k, v). (dec k, ext_json v)) ys) \<longleftrightarrow> map_of xs = map_of ys"
    (is "map_of (?f xs) = map_of (?f ys) \<longleftrightarrow> _")
proof
  assume eq: "map_of (?f xs) = map_of (?f ys)"
  show "map_of xs = map_of ys"
  proof
    fix k
    have e: "map_option ext_json (map_of xs k) = map_option ext_json (map_of ys k)"
      using fun_cong [OF eq, of "dec k"] by (simp only: map_of_exts)
    have fits: "ext_fits (k, v)" if "map_of xs k = Some v \<or> map_of ys k = Some v" for v
      using that assms by (auto simp: exts_fit_def list_all_iff dest!: map_of_SomeD)
    show "map_of xs k = map_of ys k"
    proof (cases "map_of xs k")
      case (Some v)
      with e obtain w where w: "map_of ys k = Some w" "ext_json v = ext_json w" by (cases "map_of ys k") simp_all
      then have "v = w" using fits Some by (intro ext_json_inject [of k]) simp_all
      then show ?thesis using Some w by simp
    qed (use e in \<open>cases "map_of ys k"; simp\<close>)
  qed
next
  assume eq: "map_of xs = map_of ys"
  then have "set xs = set ys" using assms by (simp add: map_of_inject_set exts_fit_def)
  then have "set (?f xs) = set (?f ys)" by simp
  then show "map_of (?f xs) = map_of (?f ys)"
    using assms by (subst map_of_inject_set) (simp_all only: exts_fit_def distinct_exts)
qed

lemma sort_keys_leaf:
  "sort_keys (JArr (map (\<lambda>n. JInt (int n)) xs)) = JArr (map (\<lambda>n. JInt (int n)) xs)" "sort_keys (ext_json v) = ext_json v"
  by (auto simp: ext_json_def split: ext_value.splits)

lemma sort_keys_object:
  assumes "map fst ms = map fst ns" "distinct (map fst ms)"
  shows "sort_keys (JObj ms) = sort_keys (JObj ns) \<longleftrightarrow> map (sort_keys \<circ> snd) ms = map (sort_keys \<circ> snd) ns"
proof -
  let ?f = "\<lambda>(k, v). (k, sort_keys v)"
  have keys: "map fst (map ?f xs) = map fst xs" and vals: "map snd (map ?f xs) = map (sort_keys \<circ> snd) xs" for xs by (induction xs) auto
  have d: "distinct (map fst (map ?f ms))" "distinct (map fst (map ?f ns))" using assms by (simp_all only: keys)
  have "sort_keys (JObj ms) = sort_keys (JObj ns) \<longleftrightarrow> map_of (map ?f ms) = map_of (map ?f ns)"
    using sorted_entries_eq [OF d] by simp
  also have "\<dots> \<longleftrightarrow> map ?f ms = map ?f ns"
  proof
    assume "map_of (map ?f ms) = map_of (map ?f ns)"
    then show "map ?f ms = map ?f ns"
      by (subst entries_map_of [OF d(1), symmetric], subst entries_map_of [OF d(2), symmetric]) (simp only: keys assms(1))
  qed simp
  also have "\<dots> \<longleftrightarrow> map (sort_keys \<circ> snd) ms = map (sort_keys \<circ> snd) ns"
  proof
    assume "map (sort_keys \<circ> snd) ms = map (sort_keys \<circ> snd) ns"
    then have "zip (map fst (map ?f ms)) (map snd (map ?f ms)) = zip (map fst (map ?f ns)) (map snd (map ?f ns))"
      by (simp only: keys vals assms(1))
    then show "map ?f ms = map ?f ns" by (simp only: zip_map_fst_snd)
  qed (simp only: flip: vals)
  finally show ?thesis .
qed

lemma same_profile_text:
  assumes p: "exts_fit (profile_extensions p)" "is_ascii (legacy_version p)"
    and q: "exts_fit (profile_extensions q)" "is_ascii (legacy_version q)"
  shows "canonical (profile_json p) = canonical (profile_json q) \<longleftrightarrow> same_profile p q"
proof -
  let ?e = "\<lambda>p. map (\<lambda>(k, v). (dec k, ext_json v)) (profile_extensions p)"
  have leaf: "sort_keys (JObj (?e p)) = JObj (sort_key fst (?e p))" for p
  proof -
    have "map (\<lambda>(k, v). (k, sort_keys v)) (?e p) = ?e p" by (auto simp: sort_keys_leaf)
    then show ?thesis by (subst sort_keys.simps(1)) (rule arg_cong)
  qed
  have "sort_keys (JObj (?e p)) = sort_keys (JObj (?e q)) \<longleftrightarrow> sort_key fst (?e p) = sort_key fst (?e q)"
    unfolding leaf by (simp only: json.inject)
  also have "\<dots> \<longleftrightarrow> map_of (?e p) = map_of (?e q)"
    using p(1) q(1) by (intro sorted_entries_eq) (simp_all only: exts_fit_def distinct_exts)
  also have "\<dots> \<longleftrightarrow> map_of (profile_extensions p) = map_of (profile_extensions q)" by (rule exts_json_eq [OF p(1) q(1)])
  finally have exts: "sort_keys (JObj (?e p)) = sort_keys (JObj (?e q)) \<longleftrightarrow> map_of (profile_extensions p) = map_of (profile_extensions q)" .
  have "canonical (profile_json p) = canonical (profile_json q) \<longleftrightarrow> sort_keys (profile_json p) = sort_keys (profile_json q)"
    by (rule canonical_eq [OF profile_json_ok [OF p] profile_json_ok [OF q]])
  also have "\<dots> \<longleftrightarrow> same_profile p q"
    unfolding profile_json_def
    by (subst sort_keys_object) (simp_all add: sort_keys_leaf exts same_profile_iff inj_map_eq_map inj_on_def del: sort_keys.simps(1))
  finally show ?thesis .
qed

lemma all_fresh_iff: "all_fresh xs \<longleftrightarrow> distinct xs"
  by (simp add: all_fresh_def length_remdups_eq remdups_id_iff_distinct)

lemma reality_trial_yields:
  "yields (\<lambda>row. \<exists>st rate. row_stats ''server_stats'' row = Inr st \<and> served (n + (if capture then 0 else 16)) st \<and>
       map_of row ''requests_per_second'' = Some (Num rate))
     (reality_trial W show f bins mode n folder optimized capture client_tls server_tls)"
  unfolding yields_all by (intro allI) (rule reality_trial_counts)

lemma finger_trial_yields: "yields (good_sample sh) (finger_trial W sh show f a turn version)"
  unfolding finger_trial_def Let_def
  by (intro yields_seq, rule yields_bnd [OF reality_trial_yields])
    (auto simp: yields_lift finger_sample_of_def good_sample_def bind_res_Inr_iff)

lemma one_text:
  assumes "xs \<noteq> []"
  shows "length (remdups (map f xs)) = 1 \<longleftrightarrow> list_all (\<lambda>x. list_all (\<lambda>y. f x = f y) xs) xs"
proof -
  have "length (remdups (map f xs)) = card (f ` set xs)" by (simp add: length_remdups_card_conv)
  also have "\<dots> = 1 \<longleftrightarrow> (\<forall>x\<in>set xs. \<forall>y\<in>set xs. f x = f y)"
  proof
    assume "card (f ` set xs) = 1"
    then obtain c where "f ` set xs = {c}" using card_1_singletonE by blast
    then have "f x = c" if "x \<in> set xs" for x using that by blast
    then show "\<forall>x\<in>set xs. \<forall>y\<in>set xs. f x = f y" by simp
  next
    assume all: "\<forall>x\<in>set xs. \<forall>y\<in>set xs. f x = f y"
    have "hd xs \<in> set xs" using assms by simp
    with all have "f ` set xs = {f (hd xs)}" by blast
    then show "card (f ` set xs) = 1" by simp
  qed
  finally show ?thesis by (simp add: list_all_iff)
qed

lemma good_texts:
  assumes "good_sample sh r" "good_sample sh r'"
  shows "profile_text r = profile_text r' \<longleftrightarrow> same_profile (profile (finger_hello r)) (profile (finger_hello r'))"
  using assms hello_fit unfolding profile_text_def good_sample_def by (intro same_profile_text) blast+

text \<open>One turn of a loop that appends a row for each job.\<close>

lemma loop_step:
  assumes "yields (\<lambda>out. \<exists>new. out = (rows @ [r]) @ new \<and> list_all2 P (enumerate (Suc i) jobs) new) m" and "P (i, job) r"
  shows "yields (\<lambda>out. \<exists>new. out = rows @ new \<and> list_all2 P (enumerate i (job # jobs)) new) m"
proof (rule yields_mono [OF assms(1)], elim exE conjE)
  fix out new
  assume "out = (rows @ [r]) @ new" "list_all2 P (enumerate (Suc i) jobs) new"
  then show "\<exists>new. out = rows @ new \<and> list_all2 P (enumerate i (job # jobs)) new"
    using assms(2) by (intro exI [of _ "r # new"]) simp
qed

lemma bench_trial_yields:
  "yields (\<lambda>r. map_of r ''variant'' = Some (Text v) \<and> map_of r ''index'' = Some (Num (of_nat i))) (bench_trial W conf f v m n amount turns i)"
  unfolding yields_def bench_trial_def Let_def bench_result_def
  by (auto simp: seq_Inr_iff bnd_Inr_iff lift_res_def bind_res_Inr_iff dict_update_def dest!: finally_Inr)

lemma bench_loop_yields:
  "yields (\<lambda>out. \<exists>new. out = rows @ new \<and>
      list_all2 bench_row_ok (enumerate i jobs) new)
    (bench_loop W show show_all f a i jobs rows)"
proof (induction jobs arbitrary: i rows)
  case (Cons job jobs)
  obtain v m n turn where job: "job = (v, m, n, turn)" by (cases job)
  show ?case
    unfolding bench_loop.simps job prod.case
    by (intro yields_seq, rule yields_bnd [OF bench_trial_yields], intro yields_seq, rule yields_last, intro yields_seq)
      (rule yields_mono [OF Cons.IH], force simp: bench_row_ok_def)
qed (simp add: yields_ret)

lemma regression_trial_yields:
  "yields (\<lambda>row. (\<exists>x. map_of row ''throughput'' = Some (Num x)) \<and>
       (if mode = ''S''
        then list_all (\<lambda>name. \<exists>st. row_stats (name @ ''_stats'') row = Inr st \<and> served (n + 16) st) [''server'', ''client'']
        else True))
     (regression_trial W show f bins q mode amount n folder core padding)"
  unfolding yields_all by (intro allI) (rule regression_trial_counts)

lemma counted_row_of:
  "(\<exists>x. map_of row ''throughput'' = Some (Num x)) \<and>
   (if m = ''S'' then list_all (\<lambda>name. \<exists>st. row_stats (name @ ''_stats'') row = Inr st \<and> served (n + 16) st) [''server'', ''client''] else True) \<Longrightarrow>
   counted_row n ((g, m, p), dict_update row [(''group'', Text g), (''pair'', Num (of_int p))])"
  by (auto simp: counted_row_def dict_update_def row_stats_def dict_get_def)

lemma job_step:
  assumes "yields (\<lambda>out. \<exists>new. out = (rows @ [(job, r)]) @ new \<and> map fst new = jobs \<and> list_all P new) m" and "P (job, r)"
  shows "yields (\<lambda>out. \<exists>new. out = rows @ new \<and> map fst new = job # jobs \<and> list_all P new) m"
proof (rule yields_mono [OF assms(1)], elim exE conjE)
  fix out new
  assume "out = (rows @ [(job, r)]) @ new" "map fst new = jobs" "list_all P new"
  then show "\<exists>new. out = rows @ new \<and> map fst new = job # jobs \<and> list_all P new"
    using assms(2) by (intro exI [of _ "(job, r) # new"]) simp
qed

lemma regression_loop_yields:
  "yields (\<lambda>out. \<exists>new. out = rows @ new \<and> map fst new = jobs \<and> list_all (regression_row_ok a) new) (regression_loop W show show_all f a jobs rows)"
proof (induction jobs arbitrary: rows)
  case (Cons job jobs)
  obtain g m p where job: "job = (g, m, p)" by (cases job)
  show ?case
    unfolding regression_loop.simps job prod.case Let_def
    by (intro yields_seq, rule yields_bnd [OF regression_trial_yields], intro yields_seq, rule job_step [OF Cons.IH])
      (simp only: regression_row_ok_def fst_conv, rule counted_row_of)
qed (simp add: yields_ret)

lemma reality_loop_yields:
  "yields (\<lambda>out. \<exists>new. out = rows @ new \<and>
      list_all2 (reality_row_ok a) jobs new)
    (reality_loop W show show_row f a i jobs rows)"
proof (induction jobs arbitrary: i rows)
  case (Cons job jobs)
  obtain v mode turn p where job: "job = (v, mode, turn, p)" by (cases job)
  show ?case
    unfolding reality_loop.simps job prod.case Let_def
    by (intro yields_seq, rule yields_bnd [OF reality_trial_yields], intro yields_seq, rule yields_last, rule yields_mono [OF Cons.IH])
      (force simp: reality_row_ok_def dict_update_def row_stats_def dict_get_def)
qed (simp add: yields_ret)

section \<open>Theorems\<close>


text \<open>
  A run of the benchmark that returns has one row for each combination of variant, mode, connections and repetition, in the order of
  the shuffle, numbered, each with the variant of its job.
\<close>

theorem bench_main_rows:
  "case bench_main W has_go show show_all shuffle a l of
     (Inl e, l') \<Rightarrow> True
   | (Inr rows, l') \<Rightarrow>
       list_all2 bench_row_ok
         (enumerate 0 (shuffle (bench_jobs a))) rows"
  by (rule yields_case, unfold bench_main_def, rule yields_seq, rule yields_last, rule yields_unless, rule yields_last, rule yields_seq)
    (rule yields_mono [OF bench_loop_yields], simp)

text \<open>
  C28. A regression run that returns has one row for each trial of the schedule, in its order, with the group and the pair of its trial and a
  throughput; where streams are short, both sides served the rounds of the trial, a hundred in a check across versions, and the sixteen of the
  warmup. The summary is the comparison of exactly these rows.
\<close>

theorem regression_main_rows:
  "case regression_main W release affinity isolated show show_all show_summary shuffle a l of
     (Inl e, l') \<Rightarrow> True
   | (Inr (rows, summary), l') \<Rightarrow>
       map fst rows = schedule shuffle (skip_interop a) (nat (reps (workload a))) (modes_arg (workload a)) \<and>
       list_all (regression_row_ok a) rows \<and>
       (\<exists>ts. map_res trial_row_of rows = Inr ts \<and> comparison ts (modes_arg (workload a)) = Inr summary)"
proof -
  let ?jobs = "schedule shuffle (skip_interop a) (nat (reps (workload a))) (modes_arg (workload a))"
  let ?P = "\<lambda>(rows, summary). map fst rows = ?jobs \<and> list_all (regression_row_ok a) rows \<and>
       (\<exists>ts. map_res trial_row_of rows = Inr ts \<and> comparison ts (modes_arg (workload a)) = Inr summary)"
  have "yields ?P (regression_main W release affinity isolated show show_all show_summary shuffle a)"
    unfolding regression_main_def
    by (rule yields_last, intro yields_seq, rule yields_last, rule yields_bnd [OF regression_loop_yields], rule yields_lift_bnd, rule yields_seq)
      (auto simp: yields_ret bind_res_Inr_iff)
  from yields_case_pair [OF this, of l] show ?thesis .
qed

text \<open>
  A run of the REALITY benchmark that returns has one row for each job, in the order of the jobs, with its version and its pair; the server
  served exactly the rounds and the warmup.
\<close>

theorem reality_main_rows:
  "case reality_main W has_go show show_row shuffle_blocks shuffle_versions a l of
     (Inl e, l') \<Rightarrow> True
   | (Inr rows, l') \<Rightarrow>
       list_all2 (reality_row_ok a)
         (reality_jobs shuffle_blocks shuffle_versions (reality_modes a) (nat (reality_reps a))) rows"
  by (rule yields_case, unfold reality_main_def, rule yields_last, rule yields_last, rule yields_unless, rule yields_last, rule yields_seq)
    (rule yields_mono [OF reality_loop_yields], simp)

text \<open>
  The jobs of the REALITY benchmark cover the plan: when the shuffles permute, every mode is run in every repetition once with each
  version.
\<close>

theorem reality_jobs_complete:
  assumes "\<And>xs. mset (shuffle_blocks xs) = mset xs" and "\<And>n xs. mset (shuffle_versions n xs) = mset xs"
  shows "mset (map (\<lambda>(v, mode, turn, p). (mode, turn, v)) (reality_jobs shuffle_blocks shuffle_versions ms turns)) =
    mset (List.product ms (List.product [0..<turns] [''before'', ''after'']))"
proof -
  let ?blocks = "shuffle_blocks (List.product ms [0..<turns])"
  let ?both = "\<lambda>(mode, turn). map (\<lambda>v. (mode, turn, v)) [''before'', ''after'']"
  have "mset (map (\<lambda>(v, mode, turn, p). (mode, turn, v)) (reality_jobs shuffle_blocks shuffle_versions ms turns)) =
      mset (concat (map (\<lambda>(p, mode, turn). map (\<lambda>v. (mode, turn, v)) (shuffle_versions p [''before'', ''after''])) (enumerate 0 ?blocks)))"
    by (simp add: reality_jobs_def map_concat comp_def case_prod_unfold)
  also have "\<dots> = mset (concat (map (\<lambda>(p, b). ?both b) (enumerate 0 ?blocks)))"
    by (rule mset_concat_map_cong) (simp only: split_paired_all prod.case mset_map assms(2))
  also have "map (\<lambda>(p, b). ?both b) (enumerate 0 ?blocks) = map ?both ?blocks" by (rule map_enumerate)
  also have "mset (concat (map ?both ?blocks)) = mset (concat (map ?both (List.product ms [0..<turns])))"
    by (rule mset_concat_map_perm) (rule assms(1))
  also have "concat (map ?both (List.product ms [0..<turns])) = List.product ms (List.product [0..<turns] [''before'', ''after''])"
    by (induction ms) (simp_all add: product_concat_map comp_def map_concat)
  finally show ?thesis .
qed

theorem reality_jobs_complete_witness:
  "mset (map (\<lambda>(v, mode, turn, p). (mode, turn, v)) (reality_jobs rev (\<lambda>n xs. if even n then rev xs else xs) [''H'', ''S''] 3)) =
    mset (List.product [''H'', ''S''] (List.product [0..<3] [''before'', ''after'']))"
  by (rule reality_jobs_complete) simp_all

end
