(* ===== verification/Smoke.thy ===== *)
theory Smoke
  imports Campaigns
begin

text \<open>
  The two-host checks of \<^verbatim>\<open>veil-core/scripts/network_smoke.py\<close>: the target that answers connections, the checks of the client and the main
  program of both roles. A connection is one of theory \<open>Sockets\<close>; processes and files are on the bench of theory \<open>Lab\<close>. Measured times are
  arguments. The handler of \<open>SIGTERM\<close>, which may raise between any two steps, is not modelled.
\<close>

section \<open>The target\<close>

text \<open>The loop of mode \<^verbatim>\<open>H\<close>: everything up to the end of the stream, at most 256 KiB.\<close>

function gather :: "bytes \<Rightarrow> conn \<Rightarrow> bytes res \<times> conn" where
  "gather data c =
     (case recv 16384 c of
        (Inl e, c') \<Rightarrow> (Inl e, c')
      | (Inr part, c') \<Rightarrow>
          if part = [] then (Inr data, c')
          else if 262144 < length (data @ part) then (Inl (ValueError ''test payload limit''), c')
          else gather (data @ part) c')"
  by pat_completeness auto
termination
  by (relation "measure (\<lambda>(data, c). 262145 - length data)") (auto intro: diff_less_mono2)

declare gather.simps [simp del]

text \<open>The bytes a connection still delivers before anything else happens: what makes the loop of mode \<^verbatim>\<open>E\<close> end.\<close>

lemma read_response_collects: "collects read_response (EOFError ''truncated response'')"
  using collect_collects unfolding read_response_def by simp

lemma read_response_shrinks:
  assumes "read_response n c = (Inr d, c')" and "0 < n"
  shows "length (available (arrives c')) < length (available (arrives c))"
proof -
  have c: "collects read_response (EOFError ''truncated response'')" by (rule read_response_collects)
  show ?thesis
  proof (cases "n \<le> length (available (arrives c))")
    case True
    with collects_enough [OF c True] assms show ?thesis by auto
  next
    case False
    with collects_short [OF c, of c n] assms show ?thesis by simp
  qed
qed

function echo_loop :: "conn \<Rightarrow> unit res \<times> conn" where
  "echo_loop c =
     (case read_response 64 c of
        (Inl e, c') \<Rightarrow> (Inl e, c')
      | (Inr d, c') \<Rightarrow> echo_loop (c'\<lparr>sent := sent c' @ d\<rparr>))"
  by pat_completeness auto
termination
  by (relation "measure (\<lambda>c. length (available (arrives c)))") (auto dest: read_response_shrinks [OF sym])

declare echo_loop.simps [simp del]

definition is_stream_error :: "exn \<Rightarrow> bool" where
  "is_stream_error e = (case e of OSError m \<Rightarrow> True | TimeoutError m \<Rightarrow> True | EOFError m \<Rightarrow> True | _ \<Rightarrow> False)"

definition handle :: "(conn, unit) io" where
  "handle =
     try_finally
       (try_except
         (bnd (read_response 1) (\<lambda>mode.
          if mode = [72] then bnd (gather []) sendall
          else if mode = [69] then echo_loop
          else ret ()))
         is_stream_error (\<lambda>_. ret ()))
       close_conn"

section \<open>The checks of the client\<close>

record net =
  bench :: outside
  dial :: "int \<Rightarrow> act list \<Rightarrow> conn res"
  sha512 :: "bytes \<Rightarrow> bytes"
  shake_256 :: "bytes \<Rightarrow> nat \<Rightarrow> bytes"
  stopwatch :: "act list \<Rightarrow> rat"
  echo_time :: "act list \<Rightarrow> nat \<Rightarrow> rat"

definition ensure :: "bool \<Rightarrow> ('w, unit) io" where
  "ensure b = (if b then ret () else raise (AssertionError []))"

text \<open>\<open>with socks(p, target_port) as c\<close>: a connection, the handshake, the body, the end of the connection.\<close>

definition with_socks :: "net \<Rightarrow> int \<Rightarrow> nat \<Rightarrow> (conn, 'a) io \<Rightarrow> (lab, 'a) io" where
  "with_socks N p target_port body =
     bnd (ask (Connected p) (dial N p)) (\<lambda>r.
     bnd (lift_res r) (\<lambda>c.
     lift_res (fst (seq (socks target_port) (try_finally body close_conn) c))))"

definition half_close :: "bytes \<Rightarrow> (conn, unit) io" where
  "half_close body_bytes =
     seq (sendall (72 # body_bytes))
     (bnd (read_response (length body_bytes)) (\<lambda>d.
     seq (ensure (d = body_bytes))
     (bnd (recv 1) (\<lambda>b. ensure (b = [])))))"

definition echo_data :: "net \<Rightarrow> nat \<Rightarrow> bytes" where
  "echo_data N i = sha512 N (map of_char (dec i))"

definition echo_round :: "bytes \<Rightarrow> (conn, unit) io" where
  "echo_round d = seq (sendall d) (bnd (read_response 64) (\<lambda>r. ensure (r = d)))"

definition echo_body :: "bytes list \<Rightarrow> (conn, unit) io" where
  "echo_body ds =
     seq (sendall [69])
     (seq (for_io ds echo_round)
     (bnd (recv 1) (\<lambda>b. ensure (b = []))))"

text \<open>\<open>echoes\<close>: one of the four connections; its 32 times.\<close>

definition echoes :: "net \<Rightarrow> int \<Rightarrow> nat \<Rightarrow> nat \<Rightarrow> (lab, rat list) io" where
  "echoes N p target_port k =
     seq (with_socks N p target_port (echo_body (map (echo_data N) [0..<32])))
     (gets (\<lambda>l. map (echo_time N (past l)) [0..<32]))"

text \<open>\<open>ConnectionError\<close> and its subclasses.\<close>

definition is_connection_error :: "exn \<Rightarrow> bool" where
  "is_connection_error e =
     (case e of OSError m \<Rightarrow> startswith m ''SOCKS status '' \<or> m \<in> {''ConnectionResetError'', ''ConnectionRefusedError'', ''ConnectionAbortedError'', ''BrokenPipeError''}
      | _ \<Rightarrow> False)"

definition refused_check :: "net \<Rightarrow> int \<Rightarrow> nat \<Rightarrow> (lab, unit) io" where
  "refused_check N p refused_port =
     try_except (with_socks N p refused_port (raise (AssertionError ''unreachable target reported success'')))
       is_connection_error (\<lambda>_. ret ())"

text \<open>The connection that is open while the proxy is stopped; what arrives on it afterwards is part of the connection.\<close>

definition cancel_outcome :: "(conn, string) io" where
  "cancel_outcome =
     try_except (bnd (recv 1) (\<lambda>b. seq (ensure (b = [])) (ret ''eof''))) (\<lambda>e. e = reset_by_peer) (\<lambda>_. ret ''reset'')"

definition cancel_check :: "net \<Rightarrow> int \<Rightarrow> nat \<Rightarrow> nat \<Rightarrow> (lab, string) io" where
  "cancel_check N p target_port n =
     bnd (ask (Connected p) (dial N p)) (\<lambda>r.
     bnd (lift_res r) (\<lambda>c.
     case seq (socks target_port) (sendall [69]) c of
       (Inl e, c') \<Rightarrow> raise e
     | (Inr u, c') \<Rightarrow>
         seq (lab_stop (bench N) n)
         (lift_res (fst (try_finally cancel_outcome close_conn c')))))"

record checked =
  cold_open_ms :: rat
  reused_open_ms :: "rat list"
  verified_payload_bytes :: nat
  echo_requests :: nat
  echo_p50_ms :: rat
  echo_p99_ms :: rat
  active_cancel_outcome :: string

definition client_checks :: "net \<Rightarrow> int \<Rightarrow> nat \<Rightarrow> nat \<Rightarrow> nat \<Rightarrow> (lab, checked) io" where
  "client_checks N p target_port refused_port n =
     (let body_bytes = shake_256 N (map of_char ''Veil network integrity'') 131072 in
      bnd (map_io (\<lambda>_. seq (with_socks N p target_port (half_close body_bytes)) (gets (\<lambda>l. stopwatch N (past l)))) [0..<3]) (\<lambda>opens.
      bnd (map_io (echoes N p target_port) [0..<4]) (\<lambda>rows.
      let timings = sort (concat rows) in
      seq (refused_check N p refused_port)
      (bnd (cancel_check N p target_port n) (\<lambda>outcome.
      bnd (lift_res (Prelude.at opens 0)) (\<lambda>cold.
      bnd (lift_res (median timings)) (\<lambda>p50.
      bnd (lift_res (Prelude.at timings (99 * length timings div 100))) (\<lambda>p99.
      ret \<lparr>cold_open_ms = cold, reused_open_ms = tl opens, verified_payload_bytes = length body_bytes * 3, echo_requests = length timings,
        echo_p50_ms = p50, echo_p99_ms = p99, active_cancel_outcome = outcome\<rparr>))))))))"

section \<open>The main program\<close>

record smoke_options =
  role :: string
  binary :: string
  tls_mode :: string
  server_ip :: string
  server_port :: int
  target_port :: nat
  refused_port :: nat
  own_pid :: nat

definition smoke_launch :: "outside \<Rightarrow> path \<Rightarrow> smoke_options \<Rightarrow> string list \<Rightarrow> (lab, nat) io" where
  "smoke_launch W base a cmd =
     bnd (gets (\<lambda>l. length (table l))) (\<lambda>n.
     seq (on_machine (on_files (write_text (base @ [role a @ ''-'' @ tls_mode a @ ''-'' @ dec n @ ''.log'']) [])))
     (seq (modify (\<lambda>l. l\<lparr>logs := logs l @ [True]\<rparr>))
     (lab_popen W cmd (dict_update (environ (lab_site W)) [(''GOMAXPROCS'', ''2'')]))))"

definition smoke_cover :: "path \<Rightarrow> int \<Rightarrow> string list" where
  "smoke_cover base cp =
     [''openssl'', ''s_server'', ''-accept'', local_port cp, ''-cert'', str (base @ [''cert.pem'']), ''-key'', str (base @ [''key.pem'']), ''-tls1_3'',
      ''-ciphersuites'', ''TLS_AES_128_GCM_SHA256'', ''-groups'', ''X25519'', ''-www'', ''-alpn'', ''http/1.1'']"

definition tls_base :: "smoke_options \<Rightarrow> (string \<times> json) list" where
  "tls_base a = [(''mode'', JStr (tls_mode a)), (''server_name'', JStr ''cover.test'')]"

definition server_tls :: "smoke_options \<Rightarrow> json \<Rightarrow> int \<Rightarrow> json res" where
  "server_tls a ks cp =
     bind_res (jget ''reality_private_key'' ks) (\<lambda>k.
     bind_res (jget ''short_id'' ks) (\<lambda>sid.
     Inr (JObj (tls_base a @ [(''reality_private_key'', k), (''short_id'', sid), (''cover_address'', JStr (local_port cp))]))))"

definition client_tls :: "smoke_options \<Rightarrow> path \<Rightarrow> json \<Rightarrow> json res" where
  "client_tls a base ks =
     (if tls_mode a = ''reality''
      then bind_res (jget ''reality_public_key'' ks) (\<lambda>k.
           bind_res (jget ''short_id'' ks) (\<lambda>sid.
           Inr (JObj (tls_base a @ [(''reality_public_key'', k), (''short_id'', sid)]))))
      else Inr (JObj (tls_base a @ [(''ca_file'', JStr (str (base @ [''cert.pem''])))])))"

text \<open>The proxy: its configuration, readable by the owner only, then the process, then its port.\<close>

definition smoke_proxy :: "net \<Rightarrow> path \<Rightarrow> smoke_options \<Rightarrow> json \<Rightarrow> int \<Rightarrow> (lab, nat) io" where
  "smoke_proxy N base a cfg sp =
     (let config = base @ [role a @ ''.json''] in
      seq (on_machine (on_files (write_text config (dumps None cfg))))
      (seq (on_machine (on_files (chmod config mode_600)))
      (bnd (smoke_launch (bench N) base a [str (base @ [binary a]), ''-config'', str config]) (\<lambda>n.
      seq (lab_wait (bench N) network_wait_port sp n) (ret n)))))"

definition smoke_server :: "net \<Rightarrow> path \<Rightarrow> smoke_options \<Rightarrow> json \<Rightarrow> (lab, json) io" where
  "smoke_server N base a ks =
     (let W = bench N in
      bnd (tap_open W) (\<lambda>target.
      bnd (port W) (\<lambda>cp.
      bnd (port W) (\<lambda>sp.
      bnd (if tls_mode a = ''reality''
           then bnd (smoke_launch W base a (smoke_cover base cp)) (\<lambda>cover.
                seq (lab_wait W network_wait_port cp cover) (lift_res (server_tls a ks cp)))
           else ret (JObj (tls_base a @ [(''certificate'', JStr (str (base @ [''cert.pem'']))), (''private_key_file'', JStr (str (base @ [''key.pem''])))]))) (\<lambda>tls.
      bnd (lift_res (jget ''secret'' ks)) (\<lambda>secret.
      seq (smoke_proxy N base a
            (JObj [(''role'', JStr ''server''), (''listen'', JStr (server_ip a @ '':'' @ dec_int sp)), (''secret'', secret), (''tls'', tls)]) sp)
      (bnd (port W) (\<lambda>refused.
      ret (JObj [(''ready'', JBool True), (''server_port'', JInt sp), (''target_port'', JInt target), (''refused_port'', JInt refused)])))))))))"

definition smoke_client :: "net \<Rightarrow> path \<Rightarrow> smoke_options \<Rightarrow> json \<Rightarrow> (lab, checked) io" where
  "smoke_client N base a ks =
     bnd (port (bench N)) (\<lambda>sp.
     bnd (lift_res (client_tls a base ks)) (\<lambda>tls.
     bnd (lift_res (jget ''secret'' ks)) (\<lambda>secret.
     bnd (smoke_proxy N base a
            (JObj [(''role'', JStr ''client''), (''listen'', JStr (local_port sp)), (''server'', JStr (server_ip a @ '':'' @ dec_int (server_port a))),
              (''secret'', secret), (''tls'', tls)]) sp) (\<lambda>n.
     client_checks N sp (target_port a) (refused_port a) n))))"

definition end_smoke :: "outside \<Rightarrow> path \<Rightarrow> (lab, unit) io" where
  "end_smoke W pidfile = seq (stop_all W) (seq tap_close (seq close_logs (on_machine (on_files (unlink True pidfile)))))"

text \<open>What is printed: what the client needs to know of the server, or the result of the checks.\<close>

definition smoke_main :: "net \<Rightarrow> path \<Rightarrow> smoke_options \<Rightarrow> (lab, json + checked) io" where
  "smoke_main N base a =
     (let pidfile = base @ [role a @ ''.pid''] in
      seq (on_machine (on_files (write_text pidfile (dec (own_pid a)))))
      (bnd (on_machine (bnd (read_file (base @ [''config.json''])) (\<lambda>text. lift_res (loads text)))) (\<lambda>ks.
      try_finally
        (if role a = ''server'' then bnd (smoke_server N base a ks) (\<lambda>v. ret (Inl v)) else bnd (smoke_client N base a ks) (\<lambda>v. ret (Inr v)))
        (end_smoke (bench N) pidfile))))"

section \<open>What is expected\<close>

definition gathered :: "bytes \<Rightarrow> exn option \<Rightarrow> bytes res" where
  "gathered all last_event =
     (if 262144 < length all then Inl (ValueError ''test payload limit'') else case last_event of None \<Rightarrow> Inr all | Some e \<Rightarrow> Inl e)"

text \<open>What the target answers to what it receives, by the first byte.\<close>

definition answer :: "bytes \<Rightarrow> exn option \<Rightarrow> bytes" where
  "answer held last_event =
     (case held of
        [] \<Rightarrow> []
      | mode # rest \<Rightarrow>
          if mode = 72 then (if length rest \<le> 262144 \<and> last_event = None then rest else [])
          else if mode = 69 then take (64 * (length rest div 64)) rest
          else [])"

definition tiny_conn :: "incoming list \<Rightarrow> conn" where
  "tiny_conn es = \<lparr>arrives = es, sent = [], open_conn = True\<rparr>"

section \<open>Laws\<close>

lemma gather_run:
  assumes "length data \<le> 262144"
  shows "\<exists>es. gather data c = (gathered (data @ available (arrives c)) (ending (arrives c)), c\<lparr>arrives := es\<rparr>)"
  using assms
proof (induction data c rule: gather.induct)
  case (1 data c)
  obtain r es where step: "recv 16384 c = (r, c\<lparr>arrives := es\<rparr>)"
    by (cases "recv_from 16384 (arrives c)") (simp add: recv_def)
  show ?case
  proof (cases "available (arrives c) = []")
    case True
    then show ?thesis
      using step sock.over [of c 16384] sock.broken [of c _ 16384] "1.prems" by (cases "ending (arrives c)") (auto simp: gather.simps [of data c] gathered_def)
  next
    case False
    then obtain b where b: "r = Inr b" "b \<noteq> []" "available (arrives c) = b @ available es" "ending es = ending (arrives c)"
      using sock.more [of 16384 c] step by auto
    show ?thesis
    proof (cases "262144 < length (data @ b)")
      case True
      then show ?thesis using step b by (auto simp: gather.simps [of data c] gathered_def)
    next
      case small: False
      then have "length (data @ b) \<le> 262144" by simp
      from "1.IH" [OF step [symmetric] b(1) b(2) small this] obtain es' where
        "gather (data @ b) (c\<lparr>arrives := es\<rparr>) = (gathered ((data @ b) @ available es) (ending es), c\<lparr>arrives := es'\<rparr>)" by auto
      then show ?thesis using step b small by (auto simp: gather.simps [of data c])
    qed
  qed
qed

lemma echo_loop_run:
  "\<exists>es. echo_loop c = (Inl (case ending (arrives c) of None \<Rightarrow> EOFError ''truncated response'' | Some x \<Rightarrow> x),
     c\<lparr>arrives := es, sent := sent c @ take (64 * (length (available (arrives c)) div 64)) (available (arrives c))\<rparr>)"
proof (induction c rule: echo_loop.induct)
  case (1 c)
  let ?held = "available (arrives c)"
  show ?case
  proof (cases "64 \<le> length ?held")
    case True
    then obtain es where r: "read_response 64 c = (Inr (take 64 ?held), c\<lparr>arrives := es\<rparr>)" "available es = drop 64 ?held" "ending es = ending (arrives c)"
      using collects_enough [OF read_response_collects True] by blast
    from "1.IH" [OF r(1) [symmetric] refl] obtain es' where
      "echo_loop (c\<lparr>arrives := es, sent := sent c @ take 64 ?held\<rparr>) =
        (Inl (case ending es of None \<Rightarrow> EOFError ''truncated response'' | Some x \<Rightarrow> x),
         c\<lparr>arrives := es', sent := (sent c @ take 64 ?held) @ take (64 * (length (available es) div 64)) (available es)\<rparr>)"
      by auto
    moreover have "length ?held div 64 = Suc (length (drop 64 ?held) div 64)" using True by (simp add: le_div_geq)
    then have "take 64 ?held @ take (64 * (length (drop 64 ?held) div 64)) (drop 64 ?held) = take (64 * (length ?held div 64)) ?held"
      by (simp add: take_add)
    ultimately show ?thesis using r by (auto simp: echo_loop.simps [of c])
  next
    case False
    then obtain es where "read_response 64 c = (Inl (case ending (arrives c) of None \<Rightarrow> EOFError ''truncated response'' | Some x \<Rightarrow> x), c\<lparr>arrives := es\<rparr>)"
      using collects_cut [OF read_response_collects] by fastforce
    then show ?thesis using False by (auto simp: echo_loop.simps [of c])
  qed
qed

lemma stream_errors: "is_stream_error (case ending es of None \<Rightarrow> EOFError m | Some x \<Rightarrow> x)"
  using ending_cases [of es] by (auto simp: is_stream_error_def split: option.splits)

lemma handle_run:
  "case handle c of (r, c') \<Rightarrow>
     \<not> open_conn c' \<and> sent c' = sent c @ answer (available (arrives c)) (ending (arrives c)) \<and>
     r = (case available (arrives c) of
            [] \<Rightarrow> Inr ()
          | mode # rest \<Rightarrow> if mode = 72 \<and> 262144 < length rest then Inl (ValueError ''test payload limit'') else Inr ())"
proof (cases "available (arrives c)")
  case Nil
  then obtain es where "read_response 1 c = (Inl (case ending (arrives c) of None \<Rightarrow> EOFError ''truncated response'' | Some x \<Rightarrow> x), c\<lparr>arrives := es\<rparr>)"
    using collects_cut [OF read_response_collects, of c 1] by auto
  then show ?thesis
    using stream_errors [where es = "arrives c" and m = "''truncated response''"] Nil
    by (simp add: handle_def try_finally_def try_except_def bnd_def ret_def close_conn_def modify_def answer_def)
next
  case (Cons mode rest)
  then obtain es where r: "read_response 1 c = (Inr [mode], c\<lparr>arrives := es\<rparr>)" "available es = rest" "ending es = ending (arrives c)"
    using collects_enough [OF read_response_collects, of 1 c] by auto
  obtain es1 where g: "gather [] (c\<lparr>arrives := es\<rparr>) = (gathered rest (ending (arrives c)), c\<lparr>arrives := es1\<rparr>)"
    using gather_run [of "[]" "c\<lparr>arrives := es\<rparr>"] r by auto
  obtain es2 where e: "echo_loop (c\<lparr>arrives := es\<rparr>) = (Inl (case ending (arrives c) of None \<Rightarrow> EOFError ''truncated response'' | Some x \<Rightarrow> x),
      c\<lparr>arrives := es2, sent := sent c @ take (64 * (length rest div 64)) rest\<rparr>)"
    using echo_loop_run [of "c\<lparr>arrives := es\<rparr>"] r by auto
  have limit: "\<not> is_stream_error (ValueError ''test payload limit'')" by (simp add: is_stream_error_def)
  have cut: "ending (arrives c) = Some x \<Longrightarrow> is_stream_error x" for x using ending_cases [of "arrives c"] by (auto simp: is_stream_error_def)
  show ?thesis
    using r g e limit cut stream_errors [where es = "arrives c" and m = "''truncated response''"] Cons
    by (auto simp: handle_def try_finally_def try_except_def bnd_def ret_def close_conn_def modify_def answer_def gathered_def sendall_def split: option.splits)
qed

lemma ensure_run: "ensure b w = (if b then (Inr (), w) else (Inl (AssertionError []), w))"
  by (simp add: ensure_def ret_def raise_def)

text \<open>The end of a stream is seen exactly when nothing more arrives before it.\<close>

lemma recv_end: "(\<exists>c'. recv 1 c = (Inr [], c')) \<longleftrightarrow> available (arrives c) = [] \<and> ending (arrives c) = None"
proof (cases "available (arrives c) = []")
  case True
  then show ?thesis using sock.over [of c 1] sock.broken [of c _ 1] by (cases "ending (arrives c)") auto
next
  case False
  then show ?thesis using sock.more [of 1 c] by auto
qed

lemma last_check: "fst (bnd (recv 1) (\<lambda>b. ensure (b = [])) c) = Inr () \<longleftrightarrow> available (arrives c) = [] \<and> ending (arrives c) = None"
  using recv_end [of c] by (cases "recv 1 c"; cases "fst (recv 1 c)") (auto simp: bnd_def ensure_run)

lemma half_close_exact:
  "fst (half_close body c) = Inr () \<longleftrightarrow> available (arrives c) = body \<and> ending (arrives c) = None"
proof -
  let ?c = "c\<lparr>sent := sent c @ 72 # body\<rparr>"
  have start: "half_close body c = bnd (read_response (length body)) (\<lambda>d. seq (ensure (d = body)) (bnd (recv 1) (\<lambda>b. ensure (b = [])))) ?c"
    by (simp add: half_close_def seq_def bnd_def sendall_def modify_def)
  show ?thesis
  proof (cases "length body \<le> length (available (arrives c))")
    case True
    then obtain es where es: "read_response (length body) ?c = (Inr (take (length body) (available (arrives c))), ?c\<lparr>arrives := es\<rparr>)"
        "available es = drop (length body) (available (arrives c))" "ending es = ending (arrives c)"
      using collects_enough [OF read_response_collects, of "length body" ?c] by auto
    have "fst (half_close body c) = Inr () \<longleftrightarrow> take (length body) (available (arrives c)) = body \<and> available es = [] \<and> ending es = None"
      using last_check [of "?c\<lparr>arrives := es\<rparr>"] es(1) by (auto simp: start seq_def bnd_def ensure_run)
    also have "\<dots> \<longleftrightarrow> available (arrives c) = body \<and> ending (arrives c) = None"
      using es True by auto
    finally show ?thesis .
  next
    case False
    then obtain x es where "read_response (length body) ?c = (Inl x, ?c\<lparr>arrives := es\<rparr>)"
      using collects_short [OF read_response_collects, of ?c "length body"] by auto
    then show ?thesis using False by (auto simp: start bnd_def)
  qed
qed

lemma split_at: "length d = n \<Longrightarrow> take n h = d \<and> drop n h = e \<longleftrightarrow> h = d @ e"
  by (metis append_eq_conv_conj)

lemma echo_rounds:
  assumes "list_all (\<lambda>d. length d = 64) ds"
  shows "(\<exists>c'. for_io ds echo_round c = (Inr (), c') \<and> available (arrives c') = [] \<and> ending (arrives c') = None) \<longleftrightarrow>
    available (arrives c) = concat ds \<and> ending (arrives c) = None"
  using assms
proof (induction ds arbitrary: c)
  case (Cons d ds)
  let ?c = "c\<lparr>sent := sent c @ d\<rparr>" and ?held = "available (arrives c)"
  have d: "length d = 64" "list_all (\<lambda>d. length d = 64) ds" using Cons.prems by simp_all
  show ?case
  proof (cases "64 \<le> length ?held")
    case True
    then obtain es where es: "read_response 64 ?c = (Inr (take 64 ?held), ?c\<lparr>arrives := es\<rparr>)" "available es = drop 64 ?held" "ending es = ending (arrives c)"
      using collects_enough [OF read_response_collects, of 64 ?c] by auto
    have "(\<exists>c'. for_io (d # ds) echo_round c = (Inr (), c') \<and> available (arrives c') = [] \<and> ending (arrives c') = None) \<longleftrightarrow>
        take 64 ?held = d \<and> (\<exists>c'. for_io ds echo_round (?c\<lparr>arrives := es\<rparr>) = (Inr (), c') \<and> available (arrives c') = [] \<and> ending (arrives c') = None)"
      using es(1) by (auto simp: echo_round_def seq_def bnd_def sendall_def modify_def ensure_run)
    also have "\<dots> \<longleftrightarrow> take 64 ?held = d \<and> drop 64 ?held = concat ds \<and> ending (arrives c) = None"
      using Cons.IH [OF d(2), of "?c\<lparr>arrives := es\<rparr>"] es by simp
    also have "\<dots> \<longleftrightarrow> ?held = concat (d # ds) \<and> ending (arrives c) = None"
      using split_at [OF d(1), of ?held "concat ds"] unfolding concat.simps by blast
    finally show ?thesis .
  next
    case False
    then obtain x es where "read_response 64 ?c = (Inl x, ?c\<lparr>arrives := es\<rparr>)"
      using collects_short [OF read_response_collects, of ?c 64] by auto
    moreover have "?held \<noteq> concat (d # ds)" using False d(1) by auto
    ultimately show ?thesis by (simp add: echo_round_def seq_def bnd_def sendall_def modify_def)
  qed
qed (simp add: ret_def)

lemma echo_body_exact:
  assumes "list_all (\<lambda>d. length d = 64) ds"
  shows "fst (echo_body ds c) = Inr () \<longleftrightarrow> available (arrives c) = concat ds \<and> ending (arrives c) = None"
proof -
  let ?c = "c\<lparr>sent := sent c @ [69]\<rparr>"
  have "fst (echo_body ds c) = Inr () \<longleftrightarrow>
      (\<exists>c'. for_io ds echo_round ?c = (Inr (), c') \<and> fst (bnd (recv 1) (\<lambda>b. ensure (b = [])) c') = Inr ())"
    by (cases "for_io ds echo_round ?c") (auto simp: echo_body_def seq_def bnd_def sendall_def modify_def split: sum.splits)
  then show ?thesis using echo_rounds [OF assms, of ?c] by (simp only: last_check) simp
qed

lemma cancel_outcome_values: "fst (try_finally cancel_outcome close_conn c) = Inr s \<Longrightarrow> s = ''eof'' \<or> s = ''reset''"
  by (auto simp: try_finally_def cancel_outcome_def try_except_def bnd_def seq_def ensure_run ret_def close_conn_def modify_def
      split: prod.splits sum.splits if_splits)

lemma cancel_check_yields: "yields (\<lambda>s. s = ''eof'' \<or> s = ''reset'') (cancel_check N p tp n)"
proof -
  have "yields (\<lambda>s. s = ''eof'' \<or> s = ''reset'')
      (case m of (Inl e, c') \<Rightarrow> raise e | (Inr u, c') \<Rightarrow> seq k (lift_res (fst (try_finally cancel_outcome close_conn c'))))"
    for m :: "unit res \<times> conn" and k :: "(lab, unit) io"
    by (cases m; cases "fst m") (auto simp: yields_raise yields_lift cancel_outcome_values intro!: yields_seq)
  then show ?thesis unfolding cancel_check_def by (intro yields_last)
qed

lemma median_below:
  assumes "length xs = 128" and "median (sort xs) = Inr m" and "Prelude.at (sort xs) (99 * length (sort xs) div 100) = Inr q"
  shows "m \<le> q"
proof -
  have q: "q = sort xs ! 126" using assms by (simp add: Prelude.at_def)
  have "sort xs ! 63 \<le> sort xs ! 126" "sort xs ! 64 \<le> sort xs ! 126"
    using assms(1) by (simp_all add: sorted_nth_mono)
  moreover have "m = (sort xs ! 63 + sort xs ! 64) / 2" using assms by (simp add: median_def Let_def sorted_sort_id)
  ultimately show ?thesis using q by simp
qed

lemma echoes_yields: "yields (\<lambda>ts. length ts = 32) (echoes N p tp k)"
  unfolding echoes_def by (rule yields_seq) (simp add: yields_def gets_def)

lemma smoke_launch_accounted [keeps_intros]: "keeps accounted (smoke_launch W base a cmd)"
  unfolding smoke_launch_def by (intro keeps_intros keeps_modify) (simp_all add: accounted_def)

lemma with_socks_keeps [keeps_intros]: "keeps accounted (with_socks N p tp m)"
  unfolding with_socks_def by (intro keeps_intros) simp

lemma cancel_check_keeps [keeps_intros]: "keeps accounted (cancel_check N p tp n)"
  unfolding cancel_check_def by (intro keeps_intros, simp, auto intro!: keeps_intros split: prod.splits sum.splits)

lemma client_checks_keeps [keeps_intros]: "keeps accounted (client_checks N p tp rp n)"
  unfolding client_checks_def echoes_def refused_check_def Let_def by (intro keeps_intros)

lemma smoke_roles_keep [keeps_intros]:
  "keeps accounted (smoke_proxy N base a cfg sp)" "keeps accounted (smoke_server N base a ks)" "keeps accounted (smoke_client N base a ks)"
proof -
  show p: "keeps accounted (smoke_proxy N base a cfg sp)" for cfg sp
    unfolding smoke_proxy_def Let_def by (intro keeps_intros)
  show "keeps accounted (smoke_server N base a ks)" "keeps accounted (smoke_client N base a ks)"
    unfolding smoke_server_def smoke_client_def Let_def by (intro keeps_intros p)+
qed

lemma map_of_removed: "map_of (filter (\<lambda>(q, n). p \<noteq> q) fs) p = None"
  by (induction fs) auto

lemma unlink_gone: "unlink True p fs = (Inr u, fs') \<Longrightarrow> lookup fs' p = None"
  by (auto simp: unlink_def lookup_def del_def map_of_removed split: option.splits node.splits)

lemma finally_end: "try_finally m fin w = (Inr x, w'') \<Longrightarrow> \<exists>w' u. fin w' = (Inr u, w'')"
  by (auto simp: try_finally_def split: prod.splits sum.splits)

lemma end_smoke_run:
  obtains l1 r h where "end_smoke W p l = (r, l1\<lparr>machine := h\<rparr>)" "clean l1" "unlink True p (files (machine l1)) = (r, files h)"
proof -
  obtain l2 where s: "stop_all W l = (Inr (), l2)" "\<And>n. n < length (table l2) \<Longrightarrow> \<not> alive (process_of l2 n)"
    by (rule stop_all_run [of W l]) blast
  define l1 where "l1 = l2\<lparr>tap := False, logs := map (\<lambda>_. False) (logs l2)\<rparr>"
  have "clean l1" using s(2) by (auto simp: l1_def clean_nth process_of_def)
  obtain r fs where u: "unlink True p (files (machine l1)) = (r, fs)" by fastforce
  have "end_smoke W p l = (r, l1\<lparr>machine := (machine l1)\<lparr>files := fs\<rparr>\<rparr>)"
    using s(1) u by (simp add: end_smoke_def seq_def bnd_def close_logs_run tap_close_def modify_def l1_def on_machine_def on_files_def)
  with \<open>clean l1\<close> u show ?thesis using that [where r = r and ?l1.0 = l1 and h = "(machine l1)\<lparr>files := fs\<rparr>"] by simp
qed

lemma end_smoke_accounted: "keeps accounted (end_smoke W p)"
  unfolding end_smoke_def close_logs_def by (intro keeps_intros keeps_modify) (simp_all add: accounted_def)

section \<open>Theorems\<close>




text \<open>
  The same holds of the check of the echoes, for blocks of 64 bytes, however the target's stream ends after them.
\<close>

theorem echoes_through_target:
  assumes "list_all (\<lambda>d. length d = 64) ds" and "available (arrives t) = 69 # concat ds" and "sent t = []"
  shows "fst (echo_body ds c) = Inr () \<longleftrightarrow> available (arrives c) = sent (snd (handle t)) \<and> ending (arrives c) = None"
proof -
  have "length (concat ds) = 64 * length ds" using assms(1) by (induction ds) simp_all
  then have "sent (snd (handle t)) = concat ds" using handle_run [of t] assms by (auto simp: answer_def split: prod.splits)
  then show ?thesis using echo_body_exact [OF assms(1)] by simp
qed

theorem echoes_through_target_witness:
  "fst (echo_body [replicate 64 7] (tiny_conn [Chunk (replicate 60 7), Chunk (replicate 4 7), End])) = Inr ()"
proof -
  have "replicate 60 (7 :: byte) @ replicate 4 7 = replicate 64 7" by (simp flip: replicate_add)
  then show ?thesis
    using echoes_through_target [of "[replicate 64 7]" "tiny_conn [Chunk [69], Chunk (replicate 64 7), End]"
      "tiny_conn [Chunk (replicate 60 7), Chunk (replicate 4 7), End]"]
      handle_run [of "tiny_conn [Chunk [69], Chunk (replicate 64 7), End]"]
    by (auto simp: tiny_conn_def answer_def simp del: replicate.simps split: prod.splits)
qed

text \<open>
  Checks that pass report 128 echoes, three payloads, two reopened connections and a median that is not above the 99th percentile, whose index is always within
  the list; the cancelled connection ended or was reset.
\<close>

theorem client_checks_report:
  "case client_checks N p target refused n l of
     (Inl e, l') \<Rightarrow> True
   | (Inr r, l') \<Rightarrow>
       echo_requests r = 128 \<and> length (reused_open_ms r) = 2 \<and>
       verified_payload_bytes r = 3 * length (shake_256 N (map of_char ''Veil network integrity'') 131072) \<and>
       echo_p50_ms r \<le> echo_p99_ms r \<and> (active_cancel_outcome r = ''eof'' \<or> active_cancel_outcome r = ''reset'')"
proof (rule yields_case)
  let ?P = "\<lambda>r. echo_requests r = 128 \<and> length (reused_open_ms r) = 2 \<and>
       verified_payload_bytes r = 3 * length (shake_256 N (map of_char ''Veil network integrity'') 131072) \<and>
       echo_p50_ms r \<le> echo_p99_ms r \<and> (active_cancel_outcome r = ''eof'' \<or> active_cancel_outcome r = ''reset'')"
  have opens: "yields (list_all2 (\<lambda>_ _. True) [0..<3]) (map_io f [0..<3])" for f :: "nat \<Rightarrow> (lab, rat) io"
    by (rule yields_map) (simp add: yields_def)
  have rows: "yields (list_all2 (\<lambda>_ ts. length ts = 32) [0..<4]) (map_io (echoes N p target) [0..<4])"
    by (rule yields_map) (rule echoes_yields)
  have count: "length (concat rows) = 128" if "list_all2 (\<lambda>_ ts. length ts = 32) [0..<4] rows" for rows :: "rat list list"
    using that by (auto simp: upt_rec list_all2_Cons1)
  show "yields ?P (client_checks N p target refused n)"
    unfolding client_checks_def Let_def
    by (rule yields_bnd [OF opens], rule yields_bnd [OF rows], rule yields_seq, rule yields_bnd [OF cancel_check_yields],
        rule yields_lift_bnd, rule yields_lift_bnd, rule yields_lift_bnd)
      (frule count, frule median_below [rotated], assumption+, auto simp: yields_ret dest!: list_all2_lengthD)
qed

text \<open>
  Either role of the smoke test leaves nothing behind, however it ends: every process it started has ended, the listener and the logs are closed, and when it
  returns its pid file is gone.
\<close>

theorem smoke_main_ends:
  "case smoke_main N base a (new_lab h) of (r, l) \<Rightarrow> accounted l \<and> clean l \<and>
     (case r of Inl e \<Rightarrow> True | Inr out \<Rightarrow> lookup (files (machine l)) (base @ [role a @ ''.pid'']) = None)"
proof -
  let ?pid = "base @ [role a @ ''.pid'']"
  have fin: "clean (snd (end_smoke W p l))" for W p l
    by (rule end_smoke_run [of W p l]) (simp add: clean_def)
  have l: "leaves (\<lambda>l. True) (\<lambda>_. False) (smoke_main N base a)"
    unfolding smoke_main_def Let_def
    by (intro leaves_seq leaves_bnd keeps_intros keeps_True leaves_cleaning fin end_smoke_accounted)
  have gone: "lookup (files (machine l')) ?pid = None" if "smoke_main N base a l = (Inr out, l')" for l out l'
  proof -
    from that obtain l1 u where "end_smoke (bench N) ?pid l1 = (Inr u, l')"
      unfolding smoke_main_def Let_def seq_Inr_iff bnd_Inr_iff by (elim exE conjE) (drule finally_end, blast)
    then show ?thesis
      by (rule_tac end_smoke_run [of "bench N" ?pid l1]) (auto dest: unlink_gone)
  qed
  show ?thesis
    using leaves_new [OF l, of h] gone by (auto split: prod.splits sum.splits)
qed

end
