(* ===== verification/Browsing.thy ===== *)
theory Browsing
  imports Campaigns
begin

text \<open>
  The scripts that compare traffic with that of websites and browsers: the main program of \<^verbatim>\<open>traffic_shapes.py\<close>, the trials and the main program of
  \<^verbatim>\<open>browser_shapes.py\<close> with the closing of its \<open>CaptureGroup\<close>, and \<^verbatim>\<open>browser_hello.py\<close>. The browser, its driver and the website answer through
  \<open>browsing\<close>; what the threads of a capture did is a list of relays of theory \<open>Captures\<close>. The texts of results that hold rounded floats are arguments.
\<close>

section \<open>\<^verbatim>\<open>traffic_shapes.py\<close>\<close>

record traffic_options =
  traffic_before :: path
  traffic_after :: path
  traffic_out :: path
  traffic_samples :: int
  in_namespace :: bool

record shape_row =
  row_sample :: nat
  row_workload :: string
  row_group :: string
  body_total :: nat
  row_shape :: shape_report

definition workloads :: "(string \<times> nat list) list" where
  "workloads = [(''fresh'', [64]), (''reuse'', [64, 4096, 32768, 64, 4096, 32768])]"

definition traffic_groups :: "traffic_options \<Rightarrow> (string \<times> path) list" where
  "traffic_groups a = [(''https'', []), (''before'', traffic_before a), (''after'', traffic_after a)]"

definition traffic_jobs :: "traffic_options \<Rightarrow> (nat \<times> (string \<times> nat list) \<times> string \<times> path) list" where
  "traffic_jobs a = List.product [0..<nat (traffic_samples a)] (List.product workloads (traffic_groups a))"

definition traffic_row :: "outside \<Rightarrow> keys_of \<Rightarrow> int \<Rightarrow> traffic_options \<Rightarrow> nat \<times> (string \<times> nat list) \<times> string \<times> path \<Rightarrow> (lab, shape_row) io" where
  "traffic_row W f site_port a job =
     (case job of (i, (name, sizes), g, bins) \<Rightarrow>
      seq fresh_lists
      (bnd (shape_trial W f g bins site_port sizes (traffic_out a @ [dec i @ ''-'' @ name @ ''-'' @ g])) (\<lambda>r.
      ret \<lparr>row_sample = i, row_workload = name, row_group = g, body_total = sum_list sizes, row_shape = r\<rparr>)))"

record traffic_cell =
  median_wire_bytes :: rat
  median_bursts :: rat
  application_lengths :: "(direction \<times> (string \<times> nat) list) list"

definition application_records :: "direction \<Rightarrow> shape_row \<Rightarrow> string list" where
  "application_records d r = map (\<lambda>(t, n). dec n) (filter (\<lambda>(t, n). t = 23) (shape_records (row_shape r) d))"

definition traffic_cell_of :: "shape_row list \<Rightarrow> traffic_cell res" where
  "traffic_cell_of selected =
     bind_res (median (map (\<lambda>r. rat_of_nat (wire_bytes (row_shape r) Up + wire_bytes (row_shape r) Down)) selected)) (\<lambda>wire_median.
     bind_res (median (map (\<lambda>r. rat_of_nat (length (burst_list (row_shape r)))) selected)) (\<lambda>burst_median.
     Inr \<lparr>median_wire_bytes = wire_median, median_bursts = burst_median,
       application_lengths = map (\<lambda>d. (d, counter (concat (map (application_records d) selected)))) [Up, Down]\<rparr>))"

definition traffic_summary :: "shape_row list \<Rightarrow> (string \<times> (string \<times> traffic_cell) list) list res" where
  "traffic_summary rows =
     map_res (\<lambda>w. bind_res (map_res (\<lambda>g. bind_res (traffic_cell_of (filter (\<lambda>r. row_workload r = w \<and> row_group r = g) rows)) (\<lambda>c. Inr (g, c)))
       [''https'', ''before'', ''after'']) (\<lambda>cs. Inr (w, cs))) [''fresh'', ''reuse'']"

definition binary_digests :: "site \<Rightarrow> path list \<Rightarrow> (host, (string \<times> string) list) io" where
  "binary_digests S dirs =
     map_io (\<lambda>p. bnd (read_digest S p) (\<lambda>d. ret (str p, d))) (concat (map (\<lambda>d. [d @ [''veil-batch''], d @ [''veil-openssl'']]) dirs))"

definition traffic_main ::
  "outside \<Rightarrow> ((string \<times> string) list \<Rightarrow> (string \<times> (string \<times> traffic_cell) list) list \<Rightarrow> shape_row list \<Rightarrow> string) \<Rightarrow> traffic_options \<Rightarrow>
   (lab, shape_row list \<times> (string \<times> (string \<times> traffic_cell) list) list) io" where
  "traffic_main W show a =
     bnd (lift_res (guard (in_namespace a) (UsageError ''requires a private network namespace''))) (\<lambda>_.
     bnd (lift_res (guard (2 \<le> traffic_samples a) (UsageError ''at least two samples required''))) (\<lambda>_.
     seq (on_machine (on_files (mkdir_new (traffic_out a))))
     (bnd (on_machine (fixture (lab_site W) (traffic_out a @ [''fixture'']) False)) (\<lambda>f.
     bnd (port W) (\<lambda>site_port.
     bnd (map_io (traffic_row W f site_port a) (traffic_jobs a)) (\<lambda>rows.
     bnd (lift_res (traffic_summary rows)) (\<lambda>summary.
     bnd (on_machine (binary_digests (lab_site W) [traffic_before a, traffic_after a])) (\<lambda>digests.
     seq (on_machine (write_file (traffic_out a @ [''result.json'']) (show (dict_update [] digests) summary rows @ [nl])))
     (ret (rows, summary))))))))))"

section \<open>\<^verbatim>\<open>browser_shapes.py\<close>\<close>

text \<open>
  What answers: the connections of the capture and the errors of its threads, whether they ended in time, the driver of the browser, which prints a
  result or is killed after 35 seconds, and the pin of the certificate.
\<close>

record browsing =
  base_of :: outside
  group_relays :: "act list \<Rightarrow> relay list"
  group_errors :: "act list \<Rightarrow> string list"
  group_stops :: "act list \<Rightarrow> bool"
  driver :: "string list \<Rightarrow> act list \<Rightarrow> (int \<times> string) option res"
  certificate_pin :: "string \<Rightarrow> act list \<Rightarrow> string res"

text \<open>\<open>CaptureGroup.close\<close>: nothing the second time; the sockets are closed before the threads are missed.\<close>

definition group_close :: "browsing \<Rightarrow> (lab, unit) io" where
  "group_close B =
     bnd (gets tap) (\<lambda>running.
     if \<not> running then ret ()
     else seq tap_close
       (bnd (ask (Tapped ''close'') (group_stops B)) (\<lambda>done_in_time.
        if done_in_time then ret () else raise (RuntimeError ''capture did not stop''))))"

definition group_callback :: "browsing \<Rightarrow> callback \<Rightarrow> (lab, unit) io" where
  "group_callback B c = (if c = Close_tap then group_close B else run_callback (base_of B) c)"

text \<open>The end of an \<open>ExitStack\<close>: every callback runs, and the last error raised wins.\<close>

primrec unwind_all :: "browsing \<Rightarrow> callback list \<Rightarrow> (lab, unit) io" where
  "unwind_all B [] = ret ()"
| "unwind_all B (c # cs) = try_finally (group_callback B c) (unwind_all B cs)"

text \<open>The first callback removes the profile of the browser, if it can.\<close>

definition drop_profile :: "path \<Rightarrow> (lab, unit) io" where
  "drop_profile folder = on_machine (try_except (on_files (rmtree (folder @ [''profile'']))) (\<lambda>_. True) (\<lambda>_. ret ()))"

definition end_browser :: "browsing \<Rightarrow> path \<Rightarrow> (lab, unit) io" where
  "end_browser B folder = try_finally (bnd (gets stack) (\<lambda>cs. unwind_all B (rev cs))) (drop_profile folder)"

definition browser_edit :: "string \<Rightarrow> json \<Rightarrow> json res" where
  "browser_edit name cfg =
     bind_res (tls_update [(''server_name'', JStr ''localhost''), (''record_padding'', JBool True)] cfg) (\<lambda>cfg.
     if name = ''client'' then tls_update [(''fingerprint'', JStr ''chrome149'')] cfg else Inr cfg)"

text \<open>The path of the traffic by group: where the browser connects to, and its proxy.\<close>

definition browser_path :: "browsing \<Rightarrow> keys_of \<Rightarrow> string \<Rightarrow> path \<Rightarrow> int \<Rightarrow> path \<Rightarrow> (lab, int \<times> string list) io" where
  "browser_path B f g bins site_port folder =
     (let W = base_of B in
      if g = ''https'' then bnd (stacked_tap W) (\<lambda>p. ret (p, []))
      else
        bnd (port W) (\<lambda>sp. bnd (port W) (\<lambda>cp.
        bnd (on_machine (configurations (lab_site W) f ''veil-opt-reality'' sp cp site_port)) (\<lambda>(sc, cc).
        seq (for_io [''client'', ''server''] (\<lambda>name. edit_config f name (browser_edit name)))
        (bnd (stacked_launch W folder (with_program (str (bins @ [''veil-openssl''])) sc)) (\<lambda>server.
        seq (lab_wait_port W sp server)
        (bnd (stacked_tap W) (\<lambda>p.
        if g = ''fallback'' then ret (p, [])
        else
          seq (point_client_at f p)
          (bnd (stacked_launch W folder (with_program (str (bins @ [''veil-batch''])) cc)) (\<lambda>client.
          seq (lab_wait_port W cp client)
          (ret (site_port, [''--proxy'', local_port cp]))))))))))))"

definition peer_script :: "outside \<Rightarrow> string" where
  "peer_script W = str (core_root (lab_site W) @ [''scripts'', ''browser_peer.mjs''])"

definition driver_command :: "outside \<Rightarrow> path \<Rightarrow> string \<Rightarrow> path \<Rightarrow> int \<Rightarrow> bool \<Rightarrow> string list \<Rightarrow> string list" where
  "driver_command W browser pin folder endpoint both proxy =
     [''node'', peer_script W, ''--role'', ''browser'', ''--browser'', str browser, ''--profile'', str (folder @ [''profile'']), ''--log'',
      str (folder @ [''browser.log'']), ''--spki'', pin, ''--url'',
      ''https://localhost:'' @ dec_int endpoint @ ''/run?parallel='' @ (if both then ''1'' else ''0'')] @ proxy"

definition drive :: "browsing \<Rightarrow> string list \<Rightarrow> (lab, json) io" where
  "drive B cmd =
     bnd (ask (Attached cmd) (driver B cmd)) (\<lambda>r.
     bnd (lift_res r) (\<lambda>finished.
     case finished of
       None \<Rightarrow> raise (TimeoutExpired cmd)
     | Some (rc, out) \<Rightarrow>
         if rc \<noteq> 0 then raise (RuntimeError (''browser driver exited '' @ dec_int rc)) else lift_res (loads out)))"

record browser_result =
  page_result :: json
  browser_connections :: "(shape_report \<times> (direction \<times> string) list) list"
  proxy_stats :: "(string \<times> stats) list"

definition proxy_roles :: "string \<Rightarrow> (nat \<times> string) list" where
  "proxy_roles g = (if g = ''https'' then [] else if g = ''fallback'' then [(0, ''server'')] else [(0, ''server''), (1, ''client'')])"

definition browser_body ::
  "browsing \<Rightarrow> keys_of \<Rightarrow> path \<Rightarrow> string \<Rightarrow> string \<Rightarrow> path \<Rightarrow> int \<Rightarrow> bool \<Rightarrow> path \<Rightarrow> (lab, browser_result) io" where
  "browser_body B f browser pin g bins site_port both folder =
     (let W = base_of B in
      bnd (browser_path B f g bins site_port folder) (\<lambda>(endpoint, proxy).
      bnd (drive B (driver_command W browser pin folder endpoint both proxy)) (\<lambda>result.
      seq (stop_all W)
      (seq (group_close B)
      (bnd (gets (\<lambda>l. group_result (group_errors B (past l)) (group_relays B (past l)))) (\<lambda>r.
      bnd (lift_res r) (\<lambda>cs.
      if cs = [] then raise (RuntimeError ''browser traffic bypassed capture'')
      else bnd (map_io (\<lambda>(i, name). bnd (read_log W i) (\<lambda>text.
             bnd (lift_res (stats_of ''missing proxy completion counters'' text)) (\<lambda>st. ret (name, st)))) (proxy_roles g)) (\<lambda>st.
      ret \<lparr>page_result = result, browser_connections = cs, proxy_stats = st\<rparr>))))))))"

definition browser_trial ::
  "browsing \<Rightarrow> keys_of \<Rightarrow> path \<Rightarrow> string \<Rightarrow> string \<Rightarrow> path \<Rightarrow> int \<Rightarrow> bool \<Rightarrow> path \<Rightarrow> (lab, browser_result) io" where
  "browser_trial B f browser pin g bins site_port both folder =
     seq (new_folder folder)
     (try_finally (browser_body B f browser pin g bins site_port both folder) (end_browser B folder))"

text \<open>
  \<open>CaptureGroup.accept\<close>: what the listener gives, turn by turn, until the capture is stopped. A connection that cannot be passed on ends the
  acceptor.
\<close>

datatype arrival =
    Nobody
  | Listener_error
  | Refused string
  | Joined "direction \<Rightarrow> incoming list"

fun accept_loop :: "arrival list \<Rightarrow> relay list \<times> string list" where
  "accept_loop [] = ([], [])"
| "accept_loop (Nobody # es) = accept_loop es"
| "accept_loop (Listener_error # es) = ([], [])"
| "accept_loop (Refused m # es) = ([], [m])"
| "accept_loop (Joined streams # es) = (case accept_loop es of (rs, errs) \<Rightarrow> (started streams # rs, errs))"

subsection \<open>The main program\<close>

record browser_options =
  browser_exe :: path
  browser_before :: path
  browser_after :: "path option"
  browser_out :: path
  browser_samples :: int
  delay_ms :: rat
  browser_isolated :: bool
  browser_args :: json
  browser_script :: path

definition browser_groups :: "browser_options \<Rightarrow> (string \<times> path) list" where
  "browser_groups a =
     [(''https'', []), (''before'', browser_before a)] @ (case browser_after a of None \<Rightarrow> [] | Some p \<Rightarrow> [(''after'', p)]) @
     [(''fallback'', case browser_after a of None \<Rightarrow> browser_before a | Some p \<Rightarrow> p)]"

record browser_sample =
  sample_protocol :: string
  sample_number :: nat
  sample_parallel :: bool
  sample_group :: string
  sample_result :: browser_result

text \<open>\<open>any(r["protocol"] != expected for r in ...)\<close>, which stops at the first difference.\<close>

fun any_other :: "string \<Rightarrow> json list \<Rightarrow> bool res" where
  "any_other expected [] = Inr False"
| "any_other expected (r # rs) =
     bind_res (jget ''protocol'' r) (\<lambda>p. if p \<noteq> JStr expected then Inr True else any_other expected rs)"

definition expected_protocol :: "string \<Rightarrow> string" where
  "expected_protocol proto = (if proto = ''h2'' then ''h2'' else ''http/1.1'')"

definition check_protocol :: "string \<Rightarrow> json \<Rightarrow> unit res" where
  "check_protocol proto result =
     bind_res (jget ''responses'' result) (\<lambda>rs.
     case rs of
       JArr vs \<Rightarrow> bind_res (any_other (expected_protocol proto) vs) (\<lambda>other.
         if other then Inl (RuntimeError ''browser negotiated the wrong HTTP protocol'') else Inr ())
     | _ \<Rightarrow> Inl type_error)"

text \<open>A trial inside: it has its own lists, and those outside are kept.\<close>

definition scoped :: "(lab, 'a) io \<Rightarrow> (lab, 'a) io" where
  "scoped m l =
     (case m (l\<lparr>table := [], logs := [], perfs := [], counters := [], tap := False, stack := []\<rparr>) of
        (r, l') \<Rightarrow> (r, l'\<lparr>table := table l, logs := logs l, perfs := perfs l, counters := counters l, tap := tap l, stack := stack l\<rparr>))"

text \<open>
  The jobs of a website: for every sample, without and with parallel requests, all groups in the order of the shuffle, which gets its number.
\<close>

definition browser_jobs :: "(nat \<Rightarrow> string list \<Rightarrow> string list) \<Rightarrow> nat \<Rightarrow> nat \<Rightarrow> string list \<Rightarrow> (nat \<times> bool \<times> string) list" where
  "browser_jobs shuffle first samples groups =
     concat (map (\<lambda>(k, i, both). map (\<lambda>g. (i, both, g)) (shuffle (first + k) groups)) (enumerate 0 (List.product [0..<samples] [False, True])))"

definition browser_folder :: "browser_options \<Rightarrow> string \<Rightarrow> nat \<times> bool \<times> string \<Rightarrow> path" where
  "browser_folder a proto job =
     (case job of (i, both, g) \<Rightarrow> browser_out a @ [proto @ ''-'' @ dec i @ ''-'' @ (if both then ''1'' else ''0'') @ ''-'' @ g])"

primrec browser_loop ::
  "browsing \<Rightarrow> (browser_sample list \<Rightarrow> string) \<Rightarrow> keys_of \<Rightarrow> browser_options \<Rightarrow> string \<Rightarrow> string \<Rightarrow> int \<Rightarrow> (nat \<times> bool \<times> string) list \<Rightarrow> browser_sample list \<Rightarrow>
   (lab, browser_sample list) io" where
  "browser_loop B show f a pin proto wp [] rows = ret rows"
| "browser_loop B show f a pin proto wp (job # jobs) rows =
     (case job of (i, both, g) \<Rightarrow>
      bnd (lift_res (dict_get g (browser_groups a))) (\<lambda>bins.
      bnd (scoped (browser_trial B f (browser_exe a) pin g bins wp both (browser_folder a proto job))) (\<lambda>r.
      bnd (lift_res (check_protocol proto (page_result r))) (\<lambda>_.
      let rows = rows @ [\<lparr>sample_protocol = proto, sample_number = i, sample_parallel = both, sample_group = g, sample_result = r\<rparr>] in
      seq (on_machine (write_file (browser_out a @ [''samples.json'']) (show rows @ [nl])))
      (browser_loop B show f a pin proto wp jobs rows)))))"

definition website_command :: "outside \<Rightarrow> keys_of \<Rightarrow> int \<Rightarrow> string \<Rightarrow> string list" where
  "website_command W f wp proto =
     [''node'', peer_script W, ''--role'', ''server'', ''--cert'', cert_file f, ''--key'', key_file f, ''--port'', dec_int wp, ''--protocol'', proto]"

text \<open>One website: its log is open and its process runs while its trials do.\<close>

definition with_website ::
  "browsing \<Rightarrow> (browser_sample list \<Rightarrow> string) \<Rightarrow> keys_of \<Rightarrow> browser_options \<Rightarrow> string \<Rightarrow> string \<Rightarrow> (nat \<times> bool \<times> string) list \<Rightarrow> browser_sample list \<Rightarrow>
   (lab, browser_sample list) io" where
  "with_website B show f a pin proto jobs rows =
     (let W = base_of B in
      bnd (port W) (\<lambda>wp.
      seq (on_machine (on_files (write_text (browser_out a @ [''website-'' @ proto @ ''.log'']) [])))
      (bnd (gets (\<lambda>l. length (logs l))) (\<lambda>k.
      seq (modify (\<lambda>l. l\<lparr>logs := logs l @ [True]\<rparr>))
      (try_finally
        (bnd (lab_spawn W (website_command W f wp proto) [] 1) (\<lambda>server.
         try_finally
           (seq (lab_wait_port W wp server) (browser_loop B show f a pin proto wp jobs rows))
           (lab_stop W server)))
        (modify (\<lambda>l. l\<lparr>logs := (logs l)[k := False]\<rparr>)))))))"

definition browser_row_of :: "browser_sample \<Rightarrow> browser_row" where
  "browser_row_of s =
     \<lparr>protocol = sample_protocol s, parallel = sample_parallel s, browser_group = sample_group s,
      captured = map fst (browser_connections (sample_result s))\<rparr>"

definition browser_metadata :: "browsing \<Rightarrow> string \<Rightarrow> string \<Rightarrow> browser_options \<Rightarrow> (host, json) io" where
  "browser_metadata B doc release a =
     (let S = lab_site (base_of B) in
      bnd (run (tool S) (cwd S) (environ S) [str (browser_exe a), ''--version'']) (\<lambda>version.
      bnd (run (tool S) (cwd S) (environ S) [''node'', ''--version'']) (\<lambda>node.
      bnd (map_io (\<lambda>p. bnd (read_digest S p) (\<lambda>d. ret (last p, JStr d))) [browser_script a, core_root S @ [''scripts'', ''browser_peer.mjs'']]) (\<lambda>scripts.
      bnd (binary_digests S (filter (\<lambda>d. d \<noteq> []) (map snd (browser_groups a)))) (\<lambda>digests.
      ret (JObj [(''scope'', JStr doc), (''args'', browser_args a), (''browser_version'', JStr (strip version)), (''node'', JStr (strip node)),
        (''kernel'', JStr release), (''scripts'', JObj (dict_update [] scripts)),
        (''binaries'', JObj (dict_update [] (map (\<lambda>(p, d). (p, JStr d)) digests)))]))))))"

definition browser_main ::
  "browsing \<Rightarrow> string \<Rightarrow> string \<Rightarrow> (browser_sample list \<Rightarrow> string) \<Rightarrow> (browser_summary list \<Rightarrow> string) \<Rightarrow> (nat \<Rightarrow> string list \<Rightarrow> string list) \<Rightarrow> browser_options \<Rightarrow>
   (lab, browser_sample list \<times> browser_summary list) io" where
  "browser_main B doc release show show_all shuffle a =
     (let W = base_of B; n = nat (browser_samples a); gs = map fst (browser_groups a) in
      bnd (lift_res (guard (browser_isolated a) (UsageError ''requires a private network namespace''))) (\<lambda>_.
      bnd (lift_res (guard (1 \<le> browser_samples a \<and> 0 \<le> delay_ms a \<and> delay_ms a \<le> 100) (UsageError ''invalid sample count or forwarding delay''))) (\<lambda>_.
      seq (on_machine (on_files (mkdir_new (browser_out a))))
      (bnd (on_machine (fixture (lab_site W) (browser_out a @ [''fixture'']) False)) (\<lambda>f.
      bnd (gets (\<lambda>l. certificate_pin B (cert_file f) (past l))) (\<lambda>r.
      bnd (lift_res r) (\<lambda>pin.
      bnd (with_website B show f a pin ''h2'' (browser_jobs shuffle 0 n gs) []) (\<lambda>rows.
      bnd (with_website B show f a pin ''h1-close'' (browser_jobs shuffle (2 * n) n gs) rows) (\<lambda>rows.
      seq (on_machine (bnd (browser_metadata B doc release a) (\<lambda>m.
             write_file (browser_out a @ [''metadata.json'']) (dumps (Some 2) m @ [nl]))))
      (bnd (lift_res (browser_summarize (map browser_row_of rows))) (\<lambda>summary.
      seq (on_machine (write_file (browser_out a @ [''summary.json'']) (show_all summary @ [nl])))
      (ret (rows, summary)))))))))))))"

section \<open>\<^verbatim>\<open>browser_hello.py\<close>\<close>

text \<open>The listener accepts within its timeout or raises; \<open>dir\<close> names the temporary profile.\<close>

record hello_browser =
  hello_bench :: outside
  accepted :: "act list \<Rightarrow> conn res"
  hello_digest :: "bytes \<Rightarrow> string"

definition hello_command :: "path \<Rightarrow> path \<Rightarrow> int \<Rightarrow> string list" where
  "hello_command browser prof p =
     [str browser, ''--headless'', ''--no-sandbox'', ''--disable-gpu'', ''--disable-background-networking'', ''--disable-component-update'',
      ''--no-first-run'', ''--no-default-browser-check'', ''--no-proxy-server'', ''--host-resolver-rules=MAP * 127.0.0.1'',
      ''--user-data-dir='' @ str prof, ''--dump-dom'', ''https://cover.test:'' @ dec_int p @ ''/'']"

definition hello_session :: "hello_browser \<Rightarrow> path \<Rightarrow> path \<Rightarrow> path \<Rightarrow> (lab, hello_result) io" where
  "hello_session H browser folder prof =
     (let W = hello_bench H in
      bnd (port W) (\<lambda>p.
      seq (on_machine (on_files (write_text (folder @ [''browser.log'']) [])))
      (seq (modify (\<lambda>l. l\<lparr>logs := logs l @ [True]\<rparr>))
      (try_finally
        (bnd (lab_popen W (hello_command browser prof p) (environ (lab_site W))) (\<lambda>n.
         try_finally
           (bnd (ask (Connected p) (accepted H)) (\<lambda>r.
            bnd (lift_res r) (\<lambda>c. lift_res (fst (captured_hello (hello_digest H) c)))))
           (lab_stop W n)))
        close_logs))))"

definition capture_browser :: "hello_browser \<Rightarrow> path \<Rightarrow> path \<Rightarrow> (lab, hello_result) io" where
  "capture_browser H browser folder =
     bnd (gets (\<lambda>l. temp_name (lab_site (hello_bench H)) (files (machine l)) folder)) (\<lambda>n.
     let prof = folder @ [''browser-'' @ n] in
     seq (on_machine (on_files (modify (put prof Dir))))
     (try_finally (hello_session H browser folder prof) (on_machine (on_files (modify (del (inside prof)))))))"

text \<open>The saved result of a message.\<close>

definition hello_json :: "hello_result \<Rightarrow> json" where
  "hello_json r =
     JObj [(''profile'', profile_json (profile r)), (''extension_order'', JArr (map (\<lambda>n. JInt (int n)) (extension_order r))),
       (''extension_lengths'', JObj (map (\<lambda>(k, n). (dec k, JInt (int n))) (extension_lengths r))), (''random_sha256'', JStr (random_sha256 r)),
       (''session_id_sha256'', JStr (session_id_sha256 r)), (''key_share_sha256'', JArr (map JStr (key_share_sha256 r))),
       (''bytes'', JInt (int (hello_bytes r)))]"

definition browser_json :: "string \<Rightarrow> hello_result list \<Rightarrow> json" where
  "browser_json version rows =
     JObj [(''scope'', JStr ''fresh local headless browser; owned loopback ClientHello only''), (''browser_version'', JStr version),
       (''samples'', JArr (map hello_json rows))]"

definition hello_main :: "hello_browser \<Rightarrow> path \<Rightarrow> path \<Rightarrow> int \<Rightarrow> (lab, hello_result list) io" where
  "hello_main H browser folder samples =
     bnd (lift_res (guard (1 \<le> samples) (UsageError ''samples must be positive''))) (\<lambda>_.
     seq (on_machine (on_files (mkdir_new folder)))
     (bnd (map_io (\<lambda>_. seq fresh_lists (capture_browser H browser folder)) [0..<nat samples]) (\<lambda>rows.
     bnd (on_machine (tool_output (lab_site (hello_bench H)) [str browser, ''--version''])) (\<lambda>version.
     seq (on_machine (write_file (folder @ [''result.json'']) (dumps (Some 2) (browser_json (strip version) rows) @ [nl])))
     (ret rows)))))"

section \<open>What a run promises\<close>

definition traffic_label :: "shape_row \<Rightarrow> nat \<times> string \<times> string \<times> nat" where
  "traffic_label r = (row_sample r, row_workload r, row_group r, body_total r)"

definition planned_label :: "nat \<times> (string \<times> nat list) \<times> string \<times> path \<Rightarrow> nat \<times> string \<times> string \<times> nat" where
  "planned_label job = (case job of (i, (name, sizes), g, bins) \<Rightarrow> (i, name, g, sum_list sizes))"

text \<open>One website.\<close>

definition browser_sample_ok :: "string \<Rightarrow> nat \<times> bool \<times> string \<Rightarrow> browser_sample \<Rightarrow> bool" where
  "browser_sample_ok proto job s \<longleftrightarrow>
     sample_protocol s = proto \<and> (sample_number s, sample_parallel s, sample_group s) = job \<and>
     browser_connections (sample_result s) \<noteq> [] \<and> check_protocol proto (page_result (sample_result s)) = Inr ()"

text \<open>What is left while a website runs: its process and its log, nothing else.\<close>

definition serving :: "nat \<Rightarrow> nat \<Rightarrow> lab \<Rightarrow> bool" where
  "serving n k l \<longleftrightarrow>
     (\<forall>i<length (table l). alive (process_of l i) \<longrightarrow> i = n) \<and> (\<forall>i<length (logs l). logs l ! i \<longrightarrow> i = k) \<and> \<not> tap l"

definition logging :: "nat \<Rightarrow> lab \<Rightarrow> bool" where
  "logging k l \<longleftrightarrow> (\<forall>i<length (table l). \<not> alive (process_of l i)) \<and> (\<forall>i<length (logs l). logs l ! i \<longrightarrow> i = k) \<and> \<not> tap l"

definition saved_ok :: "ext_state \<Rightarrow> bool" where
  "saved_ok st \<longleftrightarrow> distinct (map fst (lengths st)) \<and> list_all is_ascii (share_hashes st)"

section \<open>Laws\<close>

lemma group_callback_run:
  obtains r l' where "group_callback B c l = (r, l')" "calmer l l'" "settles c l'"
proof (cases "c = Close_tap")
  case True
  show ?thesis
  proof (cases "tap l")
    case False
    then show ?thesis using that [of "Inr ()" l] True by (simp add: group_callback_def group_close_def settles_def io_simps)
  next
    case open_tap: True
    let ?l = "l\<lparr>tap := False, past := past l @ [Tapped ''close'']\<rparr>"
    have "group_callback B c l = (if group_stops B (past l) then Inr () else Inl (RuntimeError ''capture did not stop''), ?l)"
      using True open_tap by (simp add: group_callback_def group_close_def tap_close_def ask_def noted_def io_simps)
    moreover have "calmer l ?l" "settles c ?l" using True by (simp_all add: calmer_def settles_def process_of_def)
    ultimately show ?thesis by (rule that)
  qed
next
  case False
  obtain l' where "run_callback (base_of B) c l = (Inr (), l')" "calmer l l'" "settles c l'" by (rule run_callback_run)
  then show ?thesis using that False by (simp add: group_callback_def)
qed

lemma unwind_all_run:
  obtains r l' where "unwind_all B cs l = (r, l')" "calmer l l'" "\<And>c. c \<in> set cs \<Longrightarrow> settles c l'"
proof (induction cs arbitrary: l thesis)
  case Nil
  then show ?case by (simp add: ret_def)
next
  case (Cons c cs)
  obtain r1 l1 where l1: "group_callback B c l = (r1, l1)" "calmer l l1" "settles c l1" by (rule group_callback_run)
  obtain r2 l2 where l2: "unwind_all B cs l1 = (r2, l2)" "calmer l1 l2" "\<And>c. c \<in> set cs \<Longrightarrow> settles c l2"
    using Cons.IH by blast
  have "unwind_all B (c # cs) l = (case r2 of Inl e \<Rightarrow> Inl e | Inr _ \<Rightarrow> r1, l2)"
    using l1(1) l2(1) by (simp add: try_finally_def split: sum.split)
  moreover have "calmer l l2" using l1(2) l2(2) by (rule calmer_trans)
  moreover have "\<And>d. d \<in> set (c # cs) \<Longrightarrow> settles d l2" using l2 l1(3) settles_calmer by auto
  ultimately show ?case by (rule Cons.prems)
qed

lemma clean_machine: "clean (l\<lparr>machine := h\<rparr>) \<longleftrightarrow> clean l"
  by (simp add: clean_def)

lemma end_browser_clean:
  assumes "stacked l"
  shows "clean (snd (end_browser B folder l))"
proof -
  obtain r l1 where u: "unwind_all B (rev (stack l)) l = (r, l1)" "calmer l l1" "\<And>c. c \<in> set (rev (stack l)) \<Longrightarrow> settles c l1"
    by (rule unwind_all_run [of B "rev (stack l)" l]) blast
  then have c: "clean l1" using settled_clean [OF assms u(2)] by simp
  obtain r2 h where d: "drop_profile folder l1 = (r2, l1\<lparr>machine := h\<rparr>)"
    by (cases "try_except (on_files (rmtree (folder @ [''profile'']))) (\<lambda>_. True) (\<lambda>_. ret ()) (machine l1)")
      (simp add: drop_profile_def on_machine_def)
  have "snd (end_browser B folder l) = l1\<lparr>machine := h\<rparr>"
    using u(1) d by (cases r2) (simp_all add: end_browser_def try_finally_def bnd_def gets_def)
  then show ?thesis using c by (simp add: clean_machine)
qed

context stable
begin

lemma keeps_group_close [keeps_intros]: "keeps I (group_close B)"
  unfolding group_close_def by (intro keeps_intros) simp

end

lemma end_browser_accounted: "keeps accounted (end_browser B folder)"
proof -
  have run: "keeps accounted (run_callback W c)" for W c
    unfolding run_callback_def by (cases c) (simp_all add: keeps_intros)
  have call: "keeps accounted (group_callback B c)" for c
    unfolding group_callback_def by (intro keeps_intros run)
  have "keeps accounted (unwind_all B cs)" for cs
    by (induction cs) (simp_all add: keeps_intros call)
  then show ?thesis unfolding end_browser_def drop_profile_def by (intro keeps_intros)
qed

lemma browser_body_kept:
  "keeps accounted (browser_body B f browser pin g bins wp both folder)" "keeps stacked (browser_body B f browser pin g bins wp both folder)"
  unfolding browser_body_def browser_path_def drive_def Let_def
  by (intro keeps_intros; simp?)+

subsection \<open>Rows\<close>

lemma list_all2_map_eq: "list_all2 (\<lambda>x y. g y = f x) xs ys \<longleftrightarrow> map g ys = map f xs"
  by (induction xs arbitrary: ys) (auto simp: list_all2_Cons1 map_eq_Cons_conv)

lemma traffic_rows_yield: "yields (\<lambda>rows. map traffic_label rows = map planned_label jobs) (map_io (traffic_row W f wp a) jobs)"
proof -
  have "yields (\<lambda>r. traffic_label r = planned_label job) (traffic_row W f wp a job)" for job
    unfolding traffic_row_def
    by (cases job) (auto simp: yields_ret traffic_label_def planned_label_def intro!: yields_seq yields_last)
  from yields_mono [OF yields_map [of "\<lambda>job r. traffic_label r = planned_label job", OF this]] show ?thesis
    by (simp add: list_all2_map_eq)
qed

text \<open>How many planned trials a cell of the summary has: one per sample.\<close>

lemma cell_rows:
  assumes "map traffic_label rows = map planned_label (traffic_jobs a)" and "w \<in> {''fresh'', ''reuse''}" and "g \<in> {''https'', ''before'', ''after''}"
  shows "length (filter (\<lambda>r. row_workload r = w \<and> row_group r = g) rows) = nat (traffic_samples a)"
proof -
  let ?sel = "\<lambda>(i, w', g', n). w' = w \<and> g' = g"
  have "length (filter (\<lambda>r. row_workload r = w \<and> row_group r = g) rows) = length (filter ?sel (map traffic_label rows))"
    by (simp add: filter_map comp_def traffic_label_def)
  also have "\<dots> = length (filter ?sel (map planned_label (traffic_jobs a)))" by (simp add: assms(1))
  also have "\<dots> = sum_list (map (\<lambda>i. 1) [0..<nat (traffic_samples a)])"
  proof -
    have "length (filter ?sel (map planned_label (map (Pair i) (List.product workloads (traffic_groups a))))) = 1" for i
      using assms(2,3) by (auto simp: planned_label_def workloads_def traffic_groups_def)
    then show ?thesis
      unfolding traffic_jobs_def
      by (simp add: product_concat_map map_concat filter_concat length_concat comp_def)
  qed
  finally show ?thesis by (simp add: sum_list_triv)
qed

lemma traffic_cell_defined:
  assumes "selected \<noteq> []"
  shows "\<exists>c. traffic_cell_of selected = Inr c"
proof -
  obtain m1 where "median (map (\<lambda>r. rat_of_nat (wire_bytes (row_shape r) Up + wire_bytes (row_shape r) Down)) selected) = Inr m1"
    using median_defined [of "map (\<lambda>r. rat_of_nat (wire_bytes (row_shape r) Up + wire_bytes (row_shape r) Down)) selected"] assms by auto
  moreover obtain m2 where "median (map (\<lambda>r. rat_of_nat (length (burst_list (row_shape r)))) selected) = Inr m2"
    using median_defined [of "map (\<lambda>r. rat_of_nat (length (burst_list (row_shape r)))) selected"] assms by auto
  ultimately show ?thesis by (simp add: traffic_cell_of_def del: of_nat_add)
qed

lemma traffic_summary_total:
  assumes "map traffic_label rows = map planned_label (traffic_jobs a)" and "1 \<le> traffic_samples a"
  shows "\<exists>s. traffic_summary rows = Inr s"
  unfolding traffic_summary_def
proof (rule map_res_defined)
  fix w
  assume w: "w \<in> set [''fresh'', ''reuse'']"
  let ?cell = "\<lambda>g. bind_res (traffic_cell_of (filter (\<lambda>r. row_workload r = w \<and> row_group r = g) rows)) (\<lambda>c. Inr (g, c))"
  have "\<exists>cs. map_res ?cell [''https'', ''before'', ''after''] = Inr cs"
  proof (rule map_res_defined)
    fix g
    assume "g \<in> set [''https'', ''before'', ''after'']"
    then have "length (filter (\<lambda>r. row_workload r = w \<and> row_group r = g) rows) = nat (traffic_samples a)"
      using cell_rows [OF assms(1), of w g] w by simp
    then have "filter (\<lambda>r. row_workload r = w \<and> row_group r = g) rows \<noteq> []" using assms(2) by force
    from traffic_cell_defined [OF this] show "\<exists>y. ?cell g = Inr y" by force
  qed
  then show "\<exists>y. bind_res (map_res ?cell [''https'', ''before'', ''after'']) (\<lambda>cs. Inr (w, cs)) = Inr y" by force
qed

lemma browser_body_yields: "yields (\<lambda>r. browser_connections r \<noteq> []) (browser_body B f browser pin g bins wp both folder)"
  unfolding browser_body_def Let_def yields_def
  by (auto simp: bnd_Inr_iff seq_Inr_iff ret_iff raise_def split: if_splits)

lemma yields_scoped: "yields P m \<Longrightarrow> yields P (scoped m)"
  by (auto simp: yields_def scoped_def split: prod.splits)

lemma browser_trial_yields: "yields (\<lambda>r. browser_connections r \<noteq> []) (browser_trial B f browser pin g bins wp both folder)"
  unfolding browser_trial_def by (intro yields_seq yields_finally browser_body_yields)

lemma browser_loop_yields:
  "yields (\<lambda>out. \<exists>new. out = rows @ new \<and> list_all2 (browser_sample_ok proto) jobs new) (browser_loop B show f a pin proto wp jobs rows)"
proof (induction jobs arbitrary: rows)
  case (Cons job jobs)
  obtain i both g where job: "job = (i, both, g)" by (cases job)
  show ?case
    unfolding browser_loop.simps job prod.case Let_def
    by (rule yields_last, rule yields_bnd [OF yields_scoped [OF browser_trial_yields]], rule yields_lift_bnd, rule yields_seq,
        rule yields_mono [OF Cons.IH]) (force simp: browser_sample_ok_def)
qed (simp add: yields_ret)

lemma with_website_yields:
  "yields (\<lambda>out. \<exists>new. out = rows @ new \<and> list_all2 (browser_sample_ok proto) jobs new) (with_website B show f a pin proto jobs rows)"
  unfolding with_website_def Let_def
  by (rule yields_last, rule yields_seq, rule yields_last, rule yields_seq, rule yields_finally, rule yields_last, rule yields_finally, rule yields_seq,
      rule browser_loop_yields)

lemma nested_product:
  "concat (map (\<lambda>(i, b). map (\<lambda>g. (i, b, g)) gs) (List.product xs [False, True])) = List.product xs (List.product [False, True] gs)"
  by (induction xs) (simp_all add: comp_def)

lemma browser_jobs_complete:
  assumes "\<And>k xs. mset (shuffle k xs) = mset xs"
  shows "mset (browser_jobs shuffle first samples gs) = mset (List.product [0..<samples] (List.product [False, True] gs))"
proof -
  let ?blocks = "List.product [0..<samples] [False, True]"
  let ?all = "\<lambda>(i, both). map (\<lambda>g. (i, both, g)) gs"
  have "mset (browser_jobs shuffle first samples gs) =
      mset (concat (map (\<lambda>(k, i, both). map (\<lambda>g. (i, both, g)) (shuffle (first + k) gs)) (enumerate 0 ?blocks)))"
    by (simp add: browser_jobs_def)
  also have "\<dots> = mset (concat (map (\<lambda>(k, b). ?all b) (enumerate 0 ?blocks)))"
    by (rule mset_concat_map_cong) (simp only: split_paired_all prod.case mset_map assms)
  also have "map (\<lambda>(k, b). ?all b) (enumerate 0 ?blocks) = map ?all ?blocks" by (rule map_enumerate)
  also have "concat (map ?all ?blocks) = List.product [0..<samples] (List.product [False, True] gs)"
    by (rule nested_product)
  finally show ?thesis .
qed

subsection \<open>The websites end\<close>

lemma serving_calmer: "serving n k l \<Longrightarrow> calmer l l' \<Longrightarrow> serving n k l'"
  by (auto simp: serving_def calmer_def)

interpretation serving: stable "serving n k" for n k
proof
  fix l :: lab and g :: "process \<Rightarrow> process" and i
  assume s: "serving n k l" and g: "\<And>p. alive (g p) \<Longrightarrow> alive p"
  show "serving n k (l\<lparr>table := (table l)[i := map_prod id g (table l ! i)]\<rparr>)"
    by (rule serving_calmer [OF s update_calmer [OF g]])
qed (auto simp: serving_def process_of_def)

lemma scoped_serving [keeps_intros]: "keeps (serving n k) (scoped m)"
  by (auto simp: keeps_def scoped_def serving_def process_of_def split: prod.splits)

lemma browser_loop_serving: "keeps (serving n k) (browser_loop B show f a pin proto wp jobs rows)"
proof (induction jobs arbitrary: rows)
  case (Cons job jobs)
  show ?case unfolding browser_loop.simps Let_def by (intro keeps_intros Cons.IH)
qed (simp add: keeps_intros)

lemma lab_popen_serving:
  assumes "logging k l" and "lab_popen W cmd env l = (r, l')"
  shows "case r of Inl e \<Rightarrow> logging k l' | Inr n \<Rightarrow> serving n k l' \<and> n < length (table l')"
  using assms
  by (auto simp: lab_popen_def noted_def logging_def serving_def process_of_def nth_append io_simps less_Suc_eq split: sum.splits)

lemma website_stopped:
  assumes "\<And>n. keeps (serving n k) (body n)"
  shows "keeps (logging k) (bnd (lab_popen W cmd env) (\<lambda>n. try_finally (body n) (lab_stop W n)))"
  unfolding keeps_def
proof (intro allI impI)
  fix l
  assume l: "logging k l"
  obtain r l1 where s: "lab_popen W cmd env l = (r, l1)" by fastforce
  show "logging k (snd (bnd (lab_popen W cmd env) (\<lambda>n. try_finally (body n) (lab_stop W n)) l))"
  proof (cases r)
    case (Inl e)
    then show ?thesis using lab_popen_serving [OF l s] s by (simp add: bnd_def)
  next
    case (Inr n)
    obtain r2 l2 where b: "body n l1 = (r2, l2)" by fastforce
    have n: "serving n k l1" "n < length (table l1)" using lab_popen_serving [OF l s] Inr by simp_all
    have sv: "serving n k l2" by (rule keepsD [OF assms b n(1)])
    obtain l3 where st: "lab_stop W n l2 = (Inr (), l3)" "calmer l2 l3" "n < length (table l2) \<Longrightarrow> \<not> alive (process_of l3 n)"
      by (rule lab_stop_run [of W n l2]) blast
    have s3: "serving n k l3" by (rule serving_calmer [OF sv st(2)])
    have len: "length (table l3) = length (table l2)" using st(2) by (simp add: calmer_def)
    have "\<not> alive (process_of l3 i)" if "i < length (table l3)" for i
      using s3 st(3) that len by (cases "i = n") (simp, unfold serving_def, blast)
    with s3 have "logging k l3" by (simp add: serving_def logging_def)
    then show ?thesis using s b st(1) Inr by (simp add: bnd_def try_finally_def)
  qed
qed

lemma log_closed:
  assumes "keeps (logging k) m"
  shows "logging k l \<Longrightarrow> clean (snd (try_finally m (modify (\<lambda>l. l\<lparr>logs := (logs l)[k := False]\<rparr>)) l))"
proof -
  assume l: "logging k l"
  obtain r l1 where m: "m l = (r, l1)" by fastforce
  have "logging k l1" by (rule keepsD [OF assms m l])
  moreover have "\<not> (logs l1)[k := False] ! i" if "i < length (logs l1)" "logging k l1" for i
    using that unfolding logging_def by (cases "i = k") (simp, force)
  ultimately have "clean (l1\<lparr>logs := (logs l1)[k := False]\<rparr>)"
    by (simp add: clean_nth logging_def process_of_def)
  then show ?thesis using m by (simp add: try_finally_def modify_def)
qed

lemma opened_log:
  assumes "keeps (logging k) m" and "clean l" and "k = length (logs l)"
  shows "clean (snd (seq (modify (\<lambda>l. l\<lparr>logs := logs l @ [True]\<rparr>)) (try_finally m (modify (\<lambda>l. l\<lparr>logs := (logs l)[k := False]\<rparr>))) l))"
proof -
  have "logging k (l\<lparr>logs := logs l @ [True]\<rparr>)"
    using assms(2,3) by (auto simp: clean_nth logging_def process_of_def nth_append)
  from log_closed [OF assms(1) this] show ?thesis by (simp add: seq_def bnd_def modify_def)
qed

lemma with_website_clean: "keeps clean (with_website B show f a pin proto jobs rows)"
proof -
  let ?W = "base_of B"
  have "keeps clean (bnd (gets (\<lambda>l. length (logs l))) (\<lambda>k.
      seq (modify (\<lambda>l. l\<lparr>logs := logs l @ [True]\<rparr>))
      (try_finally
        (bnd (lab_spawn ?W cmd [] 1) (\<lambda>server.
         try_finally (seq (lab_wait_port ?W wp server) (browser_loop B show f a pin proto wp jobs rows)) (lab_stop ?W server)))
        (modify (\<lambda>l. l\<lparr>logs := (logs l)[k := False]\<rparr>)))))" for wp cmd
    unfolding keeps_def lab_spawn_def by (auto simp: bnd_def [of "gets f" for f] gets_def intro!: opened_log website_stopped keeps_intros browser_loop_serving)
  note inner = this
  show ?thesis
    unfolding with_website_def Let_def
    by (rule keeps_bnd [OF clean.keeps_processes(1)], rule keeps_seq [OF clean.keeps_machine], rule inner)
qed

subsection \<open>Saved messages\<close>

lemma share_loop_ascii:
  "share_loop sh rest shares hashes = Inr (s, hs) \<Longrightarrow> (\<And>b. is_ascii (sh b)) \<Longrightarrow> list_all is_ascii hashes \<Longrightarrow> list_all is_ascii hs"
proof (induction sh rest shares hashes rule: share_loop.induct)
  case (1 sh rest shares hashes)
  show ?case
  proof (cases "rest = []")
    case True
    then show ?thesis using 1(2,4) by (simp add: share_loop.simps [of sh "[]"])
  next
    case False
    let ?n = "from_bytes_big (slice 2 4 rest)"
    have n: "length (slice 4 (4 + ?n) rest) = ?n"
      using 1(2) False by (subst (asm) share_loop.simps) (auto simp: Let_def split: if_splits)
    show ?thesis
      by (rule 1(1) [OF False refl refl refl _ _ 1(3)])
        (use 1(2-4) False n in \<open>auto simp: share_loop.simps [of sh rest] Let_def\<close>)
  qed
qed

lemma ext_step_saved: "ext_step sh typ val st = Inr st' \<Longrightarrow> (\<And>b. is_ascii (sh b)) \<Longrightarrow> saved_ok st \<Longrightarrow> saved_ok st'"
  by (auto simp: ext_step_def Let_def bind_res_Inr_iff saved_ok_def dest: share_loop_ascii split: if_splits)

lemma hello_saved:
  assumes "hello sh data = Inr r" and "\<And>b. is_ascii (sh b)"
  shows "distinct (map fst (extension_lengths r)) \<and> list_all is_ascii (key_share_sha256 r) \<and> is_ascii (random_sha256 r) \<and> is_ascii (session_id_sha256 r)"
proof -
  have "ext_loop sh rest \<lparr>extensions = [], order = [], lengths = [], share_hashes = []\<rparr> = Inr st \<Longrightarrow> saved_ok st" for rest st
    by (rule ext_loop_invariant [of sh saved_ok]) (auto simp: saved_ok_def [of "\<lparr>extensions = [], order = [], lengths = [], share_hashes = []\<rparr>"]
        intro: ext_step_saved assms(2))
  then show ?thesis
    using assms by (auto simp: hello_def Let_def bind_res_Inr_iff saved_ok_def split: if_splits)
qed

lemma hello_json_ok:
  assumes "hello sh data = Inr r" and "\<And>b. is_ascii (sh b)"
  shows "json_ok (hello_json r)"
proof -
  note ok = hello_saved [OF assms] hello_fit [OF assms(1)]
  have keys: "map fst (map (\<lambda>(k, n). (dec k, JInt (int n))) xs) = map dec (map fst xs)" for xs by (induction xs) auto
  have "distinct (map dec (map fst (extension_lengths r)))" using ok by (simp add: distinct_map inj_on_def)
  then have "json_ok (JObj (map (\<lambda>(k, n). (dec k, JInt (int n))) (extension_lengths r)))"
    unfolding json_ok.simps keys by (auto simp: list_all_iff utf8_ok_ascii is_ascii_dec)
  moreover have "json_ok (profile_json (profile r))" using ok by (intro profile_json_ok) simp_all
  moreover have "json_ok (JArr (map JStr (key_share_sha256 r)))" using ok by (auto simp: list_all_iff utf8_ok_ascii)
  moreover have "json_ok (JArr (map (\<lambda>n. JInt (int n)) (extension_order r)))" by (simp add: list_all_iff)
  ultimately show ?thesis
    using ok unfolding hello_json_def by (simp add: utf8_ok_ascii is_ascii_def del: json_ok.simps(3))
qed

lemma list_all_mem: "(\<And>r. r \<in> set rs \<Longrightarrow> P r \<longleftrightarrow> Q r) \<Longrightarrow> list_all P rs \<longleftrightarrow> list_all Q rs"
  by (simp add: list_all_iff)

lemma captured_hello_yields: "fst (captured_hello sh c) = Inr r \<Longrightarrow> \<exists>data. hello sh data = Inr r"
  by (cases "captured_hello sh c") (auto simp: captured_hello_def Let_def bnd_Inr_iff lift_res_def raise_def split: if_splits)

lemma capture_browser_yields: "yields (\<lambda>r. \<exists>data. hello (hello_digest H) data = Inr r) (capture_browser H browser folder)"
proof -
  have "yields (\<lambda>r. \<exists>data. hello (hello_digest H) data = Inr r) (hello_session H browser folder prof)" for prof
    unfolding hello_session_def Let_def
    by (rule yields_last, rule yields_seq, rule yields_seq, rule yields_finally, rule yields_last, rule yields_finally, rule yields_last, rule yields_last)
      (auto simp: yields_lift intro: captured_hello_yields)
  then show ?thesis unfolding capture_browser_def Let_def by (intro yields_last yields_seq yields_finally)
qed

lemma close_logs_clean: "logging k l \<Longrightarrow> clean (snd (close_logs l))"
  by (simp add: close_logs_run clean_nth logging_def process_of_def)

lemma hello_session_clean: "keeps clean (hello_session H browser folder prof)"
proof -
  let ?W = "hello_bench H"
  have "keeps clean (seq (modify (\<lambda>l. l\<lparr>logs := logs l @ [True]\<rparr>)) (try_finally (m :: (lab, hello_result) io) close_logs))"
    if m: "\<And>k. keeps (logging k) m" for m
    unfolding keeps_def
  proof (intro allI impI)
    fix l
    assume "clean l"
    then have l: "logging (length (logs l)) (l\<lparr>logs := logs l @ [True]\<rparr>)" by (auto simp: clean_nth logging_def process_of_def nth_append)
    obtain r l1 where b: "m (l\<lparr>logs := logs l @ [True]\<rparr>) = (r, l1)" by fastforce
    have "clean (snd (close_logs l1))" using close_logs_clean [OF keepsD [OF m b l]] .
    then show "clean (snd (seq (modify (\<lambda>l. l\<lparr>logs := logs l @ [True]\<rparr>)) (try_finally m close_logs) l))"
      using b by (simp add: seq_def bnd_def modify_def try_finally_def close_logs_run)
  qed
  note scope = this
  show ?thesis
    unfolding hello_session_def Let_def
    by (rule keeps_bnd [OF clean.keeps_processes(1)], rule keeps_seq [OF clean.keeps_machine], rule scope, rule website_stopped, intro keeps_intros) simp
qed

lemma hello_main_clean: "keeps clean (hello_main H browser folder samples)"
proof -
  have "keeps clean fresh_lists" unfolding fresh_lists_def by (rule keeps_modify) (simp add: clean_def)
  then show ?thesis
    unfolding hello_main_def capture_browser_def tool_output_def Let_def by (intro keeps_intros hello_session_clean)
qed

section \<open>Theorems\<close>

text \<open>
  A comparison of traffic shapes that returns has one row for every sample, workload and group, in the order of the plan, with the bytes of its bodies; every cell of
  the summary is made of exactly the requested number of samples.
\<close>

theorem traffic_main_rows:
  "case traffic_main W show a l of
     (Inl e, l') \<Rightarrow> True
   | (Inr (rows, summary), l') \<Rightarrow>
       map traffic_label rows = map planned_label (traffic_jobs a) \<and> traffic_summary rows = Inr summary \<and>
       list_all (\<lambda>w. list_all (\<lambda>g. length (filter (\<lambda>r. row_workload r = w \<and> row_group r = g) rows) = nat (traffic_samples a))
         [''https'', ''before'', ''after'']) [''fresh'', ''reuse'']"
proof -
  let ?P = "\<lambda>(rows, summary). map traffic_label rows = map planned_label (traffic_jobs a) \<and> traffic_summary rows = Inr summary \<and>
       list_all (\<lambda>w. list_all (\<lambda>g. length (filter (\<lambda>r. row_workload r = w \<and> row_group r = g) rows) = nat (traffic_samples a))
         [''https'', ''before'', ''after'']) [''fresh'', ''reuse'']"
  have counted: "?P (rows, summary)" if "map traffic_label rows = map planned_label (traffic_jobs a)" "traffic_summary rows = Inr summary" for rows summary
    using that cell_rows [OF that(1)] by simp
  have "yields ?P (traffic_main W show a)"
    unfolding traffic_main_def
    by (rule yields_last, rule yields_last, rule yields_seq, rule yields_last, rule yields_last, rule yields_bnd [OF traffic_rows_yield],
        rule yields_lift_bnd, rule yields_last, rule yields_seq, subst yields_ret, rule counted)
  from yields_case_pair [OF this, of l] show ?thesis .
qed


text \<open>
  The whole comparison leaves nothing behind, however it ends: the websites have ended and their logs are closed.
\<close>

theorem browser_main_ends: "case browser_main B doc release show show_all shuffle a (new_lab h) of (r, l) \<Rightarrow> clean l"
proof -
  have "keeps clean (browser_main B doc release show show_all shuffle a)"
    unfolding browser_main_def Let_def by (intro keeps_intros with_website_clean)
  then show ?thesis by (simp add: keeps_def case_prod_unfold)
qed

text \<open>
  A comparison that returns has for both protocols one sample for each job in the order of the shuffles; in each the capture saw a connection and the browser
  negotiated the expected protocol. The summary is that of exactly these samples.
\<close>

theorem browser_main_rows:
  "case browser_main B doc release show show_all shuffle a l of
     (Inl e, l') \<Rightarrow> True
   | (Inr (rows, summary), l') \<Rightarrow>
       (let n = nat (browser_samples a); gs = map fst (browser_groups a) in
        \<exists>h2 h1. rows = h2 @ h1 \<and> list_all2 (browser_sample_ok ''h2'') (browser_jobs shuffle 0 n gs) h2 \<and>
          list_all2 (browser_sample_ok ''h1-close'') (browser_jobs shuffle (2 * n) n gs) h1 \<and>
          browser_summarize (map browser_row_of rows) = Inr summary)"
proof -
  let ?n = "nat (browser_samples a)" and ?gs = "map fst (browser_groups a)"
  let ?P = "\<lambda>(rows, summary). \<exists>h2 h1. rows = h2 @ h1 \<and> list_all2 (browser_sample_ok ''h2'') (browser_jobs shuffle 0 ?n ?gs) h2 \<and>
          list_all2 (browser_sample_ok ''h1-close'') (browser_jobs shuffle (2 * ?n) ?n ?gs) h1 \<and>
          browser_summarize (map browser_row_of rows) = Inr summary"
  have "yields ?P (browser_main B doc release show show_all shuffle a)"
    unfolding browser_main_def Let_def
    by (rule yields_last, rule yields_last, rule yields_seq, rule yields_last, rule yields_last, rule yields_last,
        rule yields_bnd [OF with_website_yields], rule yields_bnd [OF with_website_yields], rule yields_seq, rule yields_lift_bnd, rule yields_seq)
      (auto simp: yields_ret)
  from yields_case_pair [OF this, of l] show ?thesis unfolding Let_def .
qed

text \<open>
  C32. What \<^verbatim>\<open>browser_hello.py\<close> saves is what \<^verbatim>\<open>reality_fingerprint.py\<close> compares with: the saved text is read back, and the comparison reports a match exactly when every
  candidate has the profile of some captured message, up to the order of extensions.
\<close>

theorem browser_result_read_back:
  assumes "\<And>b. is_ascii (sh b)" and "list_all (\<lambda>r. \<exists>data. hello sh data = Inr r) rows"
    and "list_all (\<lambda>r. \<exists>data. hello sh data = Inr (finger_hello r)) after" and "utf8_ok version"
  shows "\<exists>v. loads (dumps (Some 2) (browser_json version rows) @ [nl]) = Inr v \<and>
    match_browser v after = Inr (JStr version, list_all (\<lambda>r. list_ex (\<lambda>b. same_profile (profile (finger_hello r)) (profile b)) rows) after)"
proof (intro exI conjI)
  have "json_ok (JArr (map hello_json rows))"
    using assms(1,2) hello_json_ok [of sh] by (auto simp: list_all_iff)
  then have "json_ok (browser_json version rows)"
    using assms(4) unfolding browser_json_def by (simp add: utf8_ok_ascii is_ascii_def del: json_ok.simps(3))
  then show "loads (dumps (Some 2) (browser_json version rows) @ [nl]) = Inr (browser_json version rows)" by (rule loads_dumps(2))
  have get: "jget ''profile'' (hello_json r) = Inr (profile_json (profile r))" for r by (simp add: hello_json_def dict_get_def)
  have "map_res (jget ''profile'') (map hello_json rows) = Inr (map (\<lambda>r. profile_json (profile r)) rows)"
    by (induction rows) (simp_all add: get del: jget.simps)
  moreover have "list_all (\<lambda>r. profile_text r \<in> set (map canonical (map (\<lambda>r. profile_json (profile r)) rows))) after =
      list_all (\<lambda>r. list_ex (\<lambda>b. same_profile (profile (finger_hello r)) (profile b)) rows) after"
  proof (rule list_all_mem)
    fix r
    assume "r \<in> set after"
    then have r: "\<exists>data. hello sh data = Inr (finger_hello r)" using assms(3) by (simp add: list_all_iff)
    have "profile_text r = canonical (profile_json (profile b)) \<longleftrightarrow> same_profile (profile (finger_hello r)) (profile b)" if "b \<in> set rows" for b
      unfolding profile_text_def by (rule same_profile_text) (use r that assms(2) hello_fit in \<open>auto simp: list_all_iff dest!: bspec\<close>)
    then show "profile_text r \<in> set (map canonical (map (\<lambda>r. profile_json (profile r)) rows)) \<longleftrightarrow>
        list_ex (\<lambda>b. same_profile (profile (finger_hello r)) (profile b)) rows"
      by (auto simp: list_ex_iff)
  qed
  ultimately show "match_browser (browser_json version rows) after =
      Inr (JStr version, list_all (\<lambda>r. list_ex (\<lambda>b. same_profile (profile (finger_hello r)) (profile b)) rows) after)"
    by (simp add: match_browser_def browser_json_def dict_get_def image_image)
qed

theorem browser_result_read_back_witness:
  "\<exists>r v. hello (\<lambda>_. []) (encode_hello \<lparr>m_version = [3, 3], m_random = replicate 32 7, m_session = [],
       m_ciphers = [0x1301], m_compression = [0], m_exts = [(43, [2, 3, 4]), (0x1A1A, [])]\<rparr>) = Inr r \<and>
     loads (dumps (Some 2) (browser_json ''Chrome 149'' [r]) @ [nl]) = Inr v \<and>
     match_browser v [\<lparr>finger_hello = r, up_shapes = [], down_shapes = [], finger_stats = []\<rparr>] = Inr (JStr ''Chrome 149'', True)"
proof -
  define m where "m = \<lparr>m_version = [3, 3], m_random = replicate 32 7, m_session = [],
       m_ciphers = [0x1301], m_compression = [0], m_exts = [(43, [2, 3, 4]), (0x1A1A, [])]\<rparr>"
  have g: "grease 43 = 43" "grease 0x1A1A = 0x0A0A" "grease 0x304 = 0x304" by (simp_all add: grease_def)
  have ok: "hello_msg_ok m" by (simp add: m_def hello_msg_ok_def cipher_block_def exts_block_def g)
  have "\<exists>st. fold_res (\<lambda>(t, v). ext_step (\<lambda>_. []) (grease t) v) (m_exts m) ext_init = Inr st"
    by (simp add: m_def ext_step_val ext_val_def g words_def)
  then obtain r where r: "hello (\<lambda>_. []) (encode_hello m) = Inr r" using ok by (auto simp: hello_encode)
  obtain v where "loads (dumps (Some 2) (browser_json ''Chrome 149'' [r]) @ [nl]) = Inr v"
    "match_browser v [\<lparr>finger_hello = r, up_shapes = [], down_shapes = [], finger_stats = []\<rparr>] =
      Inr (JStr ''Chrome 149'', list_all (\<lambda>s. list_ex (\<lambda>b. same_profile (profile (finger_hello s)) (profile b)) [r])
        [\<lparr>finger_hello = r, up_shapes = [], down_shapes = [], finger_stats = []\<rparr>])"
    using browser_result_read_back [of "\<lambda>_. []" "[r]" "[\<lparr>finger_hello = r, up_shapes = [], down_shapes = [], finger_stats = []\<rparr>]" "''Chrome 149''"] r
    by (auto simp: is_ascii_def utf8_ok_ascii)
  then show ?thesis using r by (auto simp: m_def same_profile_def)
qed

text \<open>
  The capture of browser messages leaves no process and no open log, however it ends, and when it returns it has the requested number of parsed messages.
\<close>

theorem hello_main_samples:
  "case hello_main H browser folder samples (new_lab h) of (r, l) \<Rightarrow>
     clean l \<and>
     (case r of
        Inl e \<Rightarrow> True
      | Inr rows \<Rightarrow> int (length rows) = samples \<and> list_all (\<lambda>r. \<exists>data. hello (hello_digest H) data = Inr r) rows)"
proof -
  let ?P = "\<lambda>rows. int (length rows) = samples \<and> list_all (\<lambda>r. \<exists>data. hello (hello_digest H) data = Inr r) rows"
  have rows: "yields (list_all2 (\<lambda>_ r. \<exists>data. hello (hello_digest H) data = Inr r) [0..<nat samples])
      (map_io (\<lambda>_. seq fresh_lists (capture_browser H browser folder)) [0..<nat samples])"
    by (rule yields_map, rule yields_seq, rule capture_browser_yields)
  have "?P rows" if "1 \<le> samples" "list_all2 (\<lambda>_ r. \<exists>data. hello (hello_digest H) data = Inr r) [0..<nat samples] rows" for rows
    using that by (auto simp: list_all2_conv_all_nth list_all_length)
  note counted = this
  have returned: "yields ?P (hello_main H browser folder samples)"
    unfolding hello_main_def
    by (rule yields_lift_bnd, simp only: guard_iff, rule yields_seq, rule yields_bnd [OF rows], rule yields_last, rule yields_seq, subst yields_ret,
        rule counted)
  obtain r l where run: "hello_main H browser folder samples (new_lab h) = (r, l)" by fastforce
  have "clean l" by (rule keepsD [OF hello_main_clean run]) simp
  moreover have "case r of Inl e \<Rightarrow> True | Inr rows \<Rightarrow> ?P rows"
    by (cases r) (use yieldsD [OF returned, of "new_lab h"] run in simp_all)
  ultimately show ?thesis by (simp add: run)
qed

end
