(* ===== verification/Delays.thy ===== *)
theory Delays
  imports Campaigns
begin

text \<open>
  The benchmark over a delayed link, \<^verbatim>\<open>veil-core/scripts/delayed_benchmark.py\<close>, which replaces the function \<open>configurations\<close> of \<^verbatim>\<open>benchmark.py\<close>
  by one that first shapes the loopback device of its network namespace, and \<^verbatim>\<open>veil-core/scripts/summarize.py\<close>, which compares the saved rows
  with bootstrap intervals. The texts of floats (\<open>show_float\<close>), the random draws and the namespace of the process are arguments.
\<close>

section \<open>Shaping the link\<close>

record delay_options =
  delay_out :: path
  delay_variants :: "string list"
  delay_modes :: "string list"
  delay_connections :: "nat list"
  delay_reps :: int
  cold_reps :: int
  gib :: rat
  delay_rounds :: int
  delay_ms :: rat
  loss_percent :: rat
  delay_arguments :: json

definition tc :: "site \<Rightarrow> string list \<Rightarrow> (host, unit) io" where
  "tc S args = bnd (run (tool S) (cwd S) (environ S) ([''sudo'', ''-n'', ''tc''] @ args)) (\<lambda>_. ret ())"

text \<open>The guard: the marker of the launcher, and a namespace that is not the one of process 1.\<close>

definition init_namespace :: "string list" where
  "init_namespace = [''sudo'', ''-n'', ''readlink'', ''/proc/1/ns/net'']"

definition require_namespace :: "site \<Rightarrow> string \<Rightarrow> (host, unit) io" where
  "require_namespace S own =
     (if map_of (environ S) ''VEIL_ISOLATED_NETNS'' \<noteq> Some ''1'' then raise (RuntimeError ''requires a separate network namespace'')
      else bnd (run (tool S) (cwd S) (environ S) init_namespace) (\<lambda>out.
           if own = strip out then raise (RuntimeError ''requires a separate network namespace'') else ret ()))"

definition del_root :: "string list" where
  "del_root = [''qdisc'', ''del'', ''dev'', ''lo'', ''root'']"

definition add_prio :: "string list" where
  "add_prio = [''qdisc'', ''add'', ''dev'', ''lo'', ''root'', ''handle'', ''1:'', ''prio'']"

definition add_delay :: "(rat \<Rightarrow> string) \<Rightarrow> delay_options \<Rightarrow> string list" where
  "add_delay show_float a =
     [''qdisc'', ''add'', ''dev'', ''lo'', ''parent'', ''1:3'', ''handle'', ''30:'', ''netem'', ''delay'', show_float (delay_ms a) @ ''ms'',
      ''limit'', ''10000'']"

definition add_loss :: "(rat \<Rightarrow> string) \<Rightarrow> delay_options \<Rightarrow> string list" where
  "add_loss show_float a =
     [''qdisc'', ''change'', ''dev'', ''lo'', ''parent'', ''1:3'', ''handle'', ''30:'', ''netem'', ''delay'', show_float (delay_ms a) @ ''ms'',
      ''loss'', ''random'', show_float (loss_percent a) @ ''%'', ''limit'', ''10000'']"

definition port_filter :: "int \<Rightarrow> string \<Rightarrow> string list" where
  "port_filter sp dir =
     [''filter'', ''add'', ''dev'', ''lo'', ''protocol'', ''ip'', ''parent'', ''1:'', ''prio'', ''1'', ''u32'', ''match'', ''ip'', dir,
      dec_int sp, ''0xffff'', ''flowid'', ''1:3'']"

text \<open>Removing the old shape may fail; the rest may not.\<close>

definition configure :: "site \<Rightarrow> string \<Rightarrow> (rat \<Rightarrow> string) \<Rightarrow> delay_options \<Rightarrow> configurer" where
  "configure S own show_float a f var sp cp cover =
     seq (require_namespace S own)
     (seq (call (tool S) (cwd S) (environ S) ([''sudo'', ''-n'', ''tc''] @ del_root))
     (seq (tc S add_prio)
     (seq (tc S (add_delay show_float a))
     (seq (when_io (loss_percent a \<noteq> 0) (tc S (add_loss show_float a)))
     (seq (for_io [''sport'', ''dport''] (\<lambda>dir. tc S (port_filter sp dir)))
     (configurations S f var sp cp cover))))))"

section \<open>The main program\<close>

definition delayed_jobs :: "delay_options \<Rightarrow> (string \<times> string \<times> nat \<times> nat) list" where
  "delayed_jobs a =
     concat (map (\<lambda>v. concat (map (\<lambda>mode. concat (map (\<lambda>n. map (\<lambda>turn. (v, mode, n, turn))
         [0..<nat (if mode = ''C'' then cold_reps a else delay_reps a)])
       (if mode = ''C'' then [1] else delay_connections a))) (delay_modes a))) (delay_variants a))"

text \<open>The retransmitted segments: the value below the name, in the first pair of lines that begin with \<open>Tcp:\<close>.\<close>

fun retrans_of :: "string list \<Rightarrow> int res" where
  "retrans_of [] = Inl (RuntimeError ''missing TCP counters'')"
| "retrans_of (names # rest) =
     (if startswith names ''Tcp:''
      then bind_res (Prelude.at rest 0) (\<lambda>below_it.
           bind_res (dict_get ''RetransSegs'' (dict_update [] (zip (drop 1 (words_of names)) (drop 1 (words_of below_it))))) py_int)
      else retrans_of rest)"

definition retransmissions :: "(act list \<Rightarrow> string res) \<Rightarrow> (lab, int) io" where
  "retransmissions snmp =
     bnd (ask (Examined ''/proc/net/snmp'' 0) snmp) (\<lambda>r.
     bnd (lift_res r) (\<lambda>t. lift_res (retrans_of (lines_of t))))"

text \<open>\<open>int(x)\<close> of a float\<close>

definition truncated :: "rat \<Rightarrow> int" where
  "truncated x = (if x < 0 then \<lceil>x\<rceil> else \<lfloor>x\<rfloor>)"

definition qdisc_shown :: "string list" where
  "qdisc_shown = [''sudo'', ''-n'', ''tc'', ''-s'', ''-j'', ''qdisc'', ''show'', ''dev'', ''lo'']"

primrec delayed_loop ::
  "outside \<Rightarrow> configurer \<Rightarrow> (act list \<Rightarrow> string res) \<Rightarrow> (row \<Rightarrow> string) \<Rightarrow> (bench_summary list \<Rightarrow> string) \<Rightarrow> keys_of \<Rightarrow> delay_options \<Rightarrow> nat \<Rightarrow>
   (string \<times> string \<times> nat \<times> nat) list \<Rightarrow> row list \<Rightarrow> (lab, row list) io" where
  "delayed_loop W conf snmp show show_all f a i [] rows = ret rows"
| "delayed_loop W conf snmp show show_all f a i (job # jobs) rows =
     (case job of (v, m, n, turn) \<Rightarrow>
      bnd (retransmissions snmp) (\<lambda>before.
      seq fresh_lists
      (bnd (bench_trial W conf f v m n (truncated (gib a * 2 ^ 30)) (if m = ''C'' then 1 else delay_rounds a) i) (\<lambda>r.
      bnd (retransmissions snmp) (\<lambda>after.
      bnd (on_machine (bnd (tool_output (lab_site W) qdisc_shown) (\<lambda>t. lift_res (loads t)))) (\<lambda>qdisc.
      let r = dict_set ''qdisc'' (Plain qdisc) (dict_set ''tcp_retransmissions_with_warmup'' (Num (of_int (after - before))) r) in
      seq (on_machine (on_files (append_text (delay_out a @ [''raw.jsonl'']) (show r @ [nl]))))
      (bnd (lift_res (summary_text show_all (rows @ [r]))) (\<lambda>t.
      seq (on_machine (write_file (delay_out a @ [''summary.json'']) t))
      (delayed_loop W conf snmp show show_all f a (Suc i) jobs (rows @ [r]))))))))))"

definition delayed_metadata :: "site \<Rightarrow> bool \<Rightarrow> string \<Rightarrow> delay_options \<Rightarrow> (host, json) io" where
  "delayed_metadata S has_go own a =
     bnd (metadata S has_go (delay_arguments a)) (\<lambda>info.
     lift_res (bind_res (set_key ''scope'' (JStr ''isolated netns, proxy TCP port only'') info) (set_key ''netns'' (JStr own))))"

definition delayed_main ::
  "outside \<Rightarrow> bool \<Rightarrow> string \<Rightarrow> (act list \<Rightarrow> string res) \<Rightarrow> (rat \<Rightarrow> string) \<Rightarrow> (row \<Rightarrow> string) \<Rightarrow> (bench_summary list \<Rightarrow> string) \<Rightarrow>
   ((string \<times> string \<times> nat \<times> nat) list \<Rightarrow> (string \<times> string \<times> nat \<times> nat) list) \<Rightarrow> delay_options \<Rightarrow> (lab, row list) io" where
  "delayed_main W has_go own snmp show_float show show_all shuffle a =
     bnd (lift_res (guard (0 \<le> delay_ms a \<and> 0 \<le> loss_percent a \<and> loss_percent a \<le> 100) (UsageError ''invalid delay or loss''))) (\<lambda>_.
     seq (on_machine (mkdirs (delay_out a)))
     (bnd (gets (\<lambda>l. exists (files (machine l)) (delay_out a @ [''raw.jsonl'']))) (\<lambda>there.
     if there then raise (SystemExit ''existing results; choose a fresh output directory'')
     else bnd (on_machine (fixture (lab_site W) (delay_out a) False)) (\<lambda>f.
     seq (on_machine (bnd (delayed_metadata (lab_site W) has_go own a) (\<lambda>m.
            write_file (delay_out a @ [''metadata.json'']) (dumps (Some 2) m @ [nl]))))
     (delayed_loop W (configure (lab_site W) own show_float a) snmp show show_all f a 0 (shuffle (delayed_jobs a)) [])))))"

section \<open>\<^verbatim>\<open>summarize.py\<close>\<close>

text \<open>
  \<open>draw i xs\<close> is the \<open>i\<close>-th call of \<open>rng.choices(xs, k=len(xs))\<close>: as many elements of \<open>xs\<close> as \<open>xs\<close> has, with repetitions.
\<close>

type_synonym draw = "nat \<Rightarrow> rat list \<Rightarrow> rat list"

definition resample :: "draw \<Rightarrow> nat \<Rightarrow> rat list \<Rightarrow> rat list \<Rightarrow> rat res" where
  "resample draw i x y =
     bind_res (median (draw i x)) (\<lambda>a.
     bind_res (median (draw (Suc i) y)) (\<lambda>b. py_div a b))"

definition bootstrap :: "draw \<Rightarrow> nat \<Rightarrow> rat list \<Rightarrow> rat list \<Rightarrow> rat list res" where
  "bootstrap draw d x y = bind_res (map_res (\<lambda>k. resample draw (d + 2 * k) x y) [0..<10000]) (\<lambda>rs. Inr (sort rs))"

definition boot_metric :: "string \<Rightarrow> string" where
  "boot_metric mode = (if mode = ''U'' \<or> mode = ''D'' then ''gib_per_cpu_second'' else ''p99_us'')"

definition column :: "string \<Rightarrow> bench_row list \<Rightarrow> rat list res" where
  "column key rs = map_res (\<lambda>r. dict_get key (measured r)) rs"

record contrast =
  contrast_metric :: string
  baseline_median :: rat
  candidate_median :: rat
  contrast_ratio :: rat
  bootstrap_95_ratio :: "rat \<times> rat"
  baseline_wall_gib_s :: rat

definition contrast_with :: "draw \<Rightarrow> nat \<Rightarrow> string \<Rightarrow> bench_row list \<Rightarrow> bench_row list \<Rightarrow> contrast res" where
  "contrast_with draw d mode rs base =
     bind_res (column (boot_metric mode) rs) (\<lambda>x.
     bind_res (column (boot_metric mode) base) (\<lambda>y.
     bind_res (bootstrap draw d x y) (\<lambda>ratios.
     bind_res (median y) (\<lambda>my.
     bind_res (median x) (\<lambda>mx.
     bind_res (py_div mx my) (\<lambda>q.
     bind_res (Prelude.at ratios 249) (\<lambda>lo.
     bind_res (Prelude.at ratios 9749) (\<lambda>hi.
     bind_res (bind_res (column ''gib_per_second'' base) median) (\<lambda>wall.
     Inr \<lparr>contrast_metric = boot_metric mode, baseline_median = my, candidate_median = mx, contrast_ratio = q,
       bootstrap_95_ratio = (lo, hi), baseline_wall_gib_s = wall\<rparr>)))))))))"

definition baselines :: "string list" where
  "baselines = [''anytls-native-tls'', ''anytls-native-reality'', ''anytls-opt-reality'', ''veil-opt-reality-previous'', ''veil-native-reality'']"

text \<open>Each comparison uses two draws for each of its ten thousand ratios; \<open>d\<close> counts the draws.\<close>

definition add_contrast ::
  "draw \<Rightarrow> ((string \<times> string \<times> int) \<times> bench_row list) list \<Rightarrow> string \<Rightarrow> int \<Rightarrow> bench_row list \<Rightarrow> string \<Rightarrow> nat \<times> (string \<times> contrast) list \<Rightarrow>
   (nat \<times> (string \<times> contrast) list) res" where
  "add_contrast draw groups mode n rs name dc =
     (case map_of groups (name, mode, n) of
        None \<Rightarrow> Inr dc
      | Some base \<Rightarrow>
          if base = [] then Inr dc
          else bind_res (contrast_with draw (fst dc) mode rs base) (\<lambda>c. Inr (fst dc + 20000, dict_set name c (snd dc))))"

record boot_result =
  boot_mode :: string
  boot_connections :: int
  boot_repetitions :: nat
  veil_cpu_efficiency :: rat
  veil_wall_gib_s :: rat
  veil_server_rss_mib :: rat
  comparisons :: "(string \<times> contrast) list"

definition boot_group ::
  "draw \<Rightarrow> ((string \<times> string \<times> int) \<times> bench_row list) list \<Rightarrow> (string \<times> string \<times> int) \<times> bench_row list \<Rightarrow> nat \<times> boot_result list \<Rightarrow>
   (nat \<times> boot_result list) res" where
  "boot_group draw groups kr acc =
     (case (kr, acc) of (((v, mode, n), rs), (d, out)) \<Rightarrow>
      if v \<noteq> ''veil-opt-reality'' then Inr (d, out)
      else bind_res (bind_res (column ''gib_per_cpu_second'' rs) median) (\<lambda>cpu_rate.
           bind_res (bind_res (column ''gib_per_second'' rs) median) (\<lambda>wall_rate.
           bind_res (bind_res (column ''server_rss_bytes'' rs) (\<lambda>bs. median (map (\<lambda>b. b / 2 ^ 20) bs))) (\<lambda>mib.
           bind_res (fold_res (add_contrast draw groups mode n rs) baselines (d, [])) (\<lambda>(d, cs).
           Inr (d, out @ [\<lparr>boot_mode = mode, boot_connections = n, boot_repetitions = length rs, veil_cpu_efficiency = cpu_rate,
             veil_wall_gib_s = wall_rate, veil_server_rss_mib = mib, comparisons = cs\<rparr>]))))))"

definition boot_rows :: "draw \<Rightarrow> bench_row list \<Rightarrow> boot_result list res" where
  "boot_rows draw rows =
     (let groups = group_by bench_key rows in
      bind_res (fold_res (boot_group draw groups) (sort_key fst groups) (0, [])) (\<lambda>(d, out). Inr out))"

text \<open>The rows of the file, as \<^verbatim>\<open>benchmark.py\<close> writes them; blank lines are skipped.\<close>

definition saved_rows :: "string \<Rightarrow> bench_row list res" where
  "saved_rows t =
     map_res (\<lambda>s. bind_res (loads s) (\<lambda>v. bind_res (row_of v) bench_row_of)) (filter (\<lambda>s. strip s \<noteq> []) (lines_of t))"

definition summarize_main :: "draw \<Rightarrow> (boot_result list \<Rightarrow> string) \<Rightarrow> path \<Rightarrow> path option \<Rightarrow> (host, boot_result list) io" where
  "summarize_main draw show raw output =
     bnd (read_file raw) (\<lambda>t.
     bnd (lift_res (bind_res (saved_rows t) (boot_rows draw))) (\<lambda>out.
     seq (case output of None \<Rightarrow> ret () | Some p \<Rightarrow> write_file p (show out @ [nl]))
     (ret out)))"

section \<open>Commands run\<close>

text \<open>\<open>runs cs m\<close>: the commands \<open>m\<close> runs are the first ones of \<open>cs\<close>, and all of \<open>cs\<close> when it returns.\<close>

definition runs :: "string list list \<Rightarrow> (host, 'a) io \<Rightarrow> bool" where
  "runs cs m \<longleftrightarrow> (\<forall>h. case m h of (r, h') \<Rightarrow>
     \<exists>n. ran h' = ran h @ take n cs \<and> (case r of Inl e \<Rightarrow> True | Inr x \<Rightarrow> take n cs = cs))"

named_theorems runs_intros \<open>commands of a program\<close>

lemma runsD: "runs cs m \<Longrightarrow> m h = (r, h') \<Longrightarrow> \<exists>n. ran h' = ran h @ take n cs \<and> (case r of Inl e \<Rightarrow> True | Inr x \<Rightarrow> take n cs = cs)"
  unfolding runs_def by (drule spec [of _ h]) simp

lemma runs_bnd [runs_intros]:
  assumes "runs cs m" and "\<And>x. runs ds (f x)"
  shows "runs (cs @ ds) (bnd m f)"
  unfolding runs_def
proof
  fix h
  obtain r h1 where m: "m h = (r, h1)" by fastforce
  from runsD [OF assms(1) m] obtain n where n: "ran h1 = ran h @ take n cs" "case r of Inl e \<Rightarrow> True | Inr x \<Rightarrow> take n cs = cs" by blast
  show "case bnd m f h of (r, h') \<Rightarrow>
    \<exists>n. ran h' = ran h @ take n (cs @ ds) \<and> (case r of Inl e \<Rightarrow> True | Inr x \<Rightarrow> take n (cs @ ds) = cs @ ds)"
  proof (cases r)
    case (Inl e)
    have "take (min n (length cs)) (cs @ ds) = take n cs" by (simp add: min_def)
    then show ?thesis using m n Inl by (auto simp: bnd_def intro!: exI [of _ "min n (length cs)"])
  next
    case (Inr x)
    obtain s h2 where f: "f x h1 = (s, h2)" by fastforce
    from runsD [OF assms(2) f] obtain k where "ran h2 = ran h1 @ take k ds" "case s of Inl e \<Rightarrow> True | Inr x \<Rightarrow> take k ds = ds" by blast
    then show ?thesis using m n f Inr by (auto simp: bnd_def split: sum.splits intro!: exI [of _ "length cs + k"])
  qed
qed

lemma runs_seq [runs_intros]: "runs cs m \<Longrightarrow> runs ds k \<Longrightarrow> runs (cs @ ds) (seq m k)"
  unfolding seq_def by (rule runs_bnd)

lemma runs_basic [runs_intros]: "runs [] (ret x)" "runs [] (lift_res r)" "runs [] (on_files m)"
  by (auto simp: runs_def ret_def lift_res_def on_files_def split: prod.splits sum.splits)

lemma runs_call [runs_intros]: "runs [args] (call t d env args)" "runs [args] (run t d env args)"
  by (auto simp: runs_def run_def call_def bnd_def ret_def raise_def split: prod.splits intro!: exI [of _ 1])

lemma runs_when [runs_intros]: "runs cs m \<Longrightarrow> runs (if b then cs else []) (when_io b m)"
  by (simp add: when_io_def runs_basic)

lemma runs_for [runs_intros]: "(\<And>x. runs (cs x) (f x)) \<Longrightarrow> runs (concat (map cs xs)) (for_io xs f)"
  by (induction xs) (simp_all add: runs_basic runs_seq)

lemma runs_tc [runs_intros]: "runs [[''sudo'', ''-n'', ''tc''] @ args] (tc S args)"
  using runs_bnd [OF runs_call(2) runs_basic(1)] by (simp add: tc_def)

lemma runs_configurations [runs_intros]: "runs [] (configurations S f var sp cp cover)"
proof -
  have "runs ([] @ [] @ [] @ []) (configurations S f var sp cp cover)"
    unfolding configurations_def case_prod_beta by (intro runs_intros)
  then show ?thesis by simp
qed

text \<open>The commands that shape the link, and what it means to be alone in a namespace.\<close>

definition link_commands :: "(rat \<Rightarrow> string) \<Rightarrow> delay_options \<Rightarrow> int \<Rightarrow> string list list" where
  "link_commands show_float a sp =
     map ((@) [''sudo'', ''-n'', ''tc''])
       ([del_root, add_prio, add_delay show_float a] @ (if loss_percent a \<noteq> 0 then [add_loss show_float a] else []) @
        [port_filter sp ''sport'', port_filter sp ''dport''])"

definition separate :: "site \<Rightarrow> string \<Rightarrow> host \<Rightarrow> bool" where
  "separate S own h \<longleftrightarrow> map_of (environ S) ''VEIL_ISOLATED_NETNS'' = Some ''1'' \<and>
     (case tool S (cwd S) (environ S) init_namespace (files h) of (rc, out, fs) \<Rightarrow> rc = 0 \<and> own \<noteq> strip out)"

lemma require_namespace_run:
  obtains r h' where "require_namespace S own h = (r, h')" "ran h' = ran h \<or> ran h' = ran h @ [init_namespace]"
    "case r of Inl e \<Rightarrow> \<not> separate S own h | Inr u \<Rightarrow> separate S own h \<and> ran h' = ran h @ [init_namespace]"
  by (cases "require_namespace S own h")
    (auto simp: require_namespace_def separate_def run_def call_def io_simps split: if_splits prod.splits)

lemma shaping_runs:
  "runs (link_commands show_float a sp)
     (seq (call (tool S) (cwd S) (environ S) ([''sudo'', ''-n'', ''tc''] @ del_root))
     (seq (tc S add_prio)
     (seq (tc S (add_delay show_float a))
     (seq (when_io (loss_percent a \<noteq> 0) (tc S (add_loss show_float a)))
     (seq (for_io [''sport'', ''dport''] (\<lambda>dir. tc S (port_filter sp dir)))
     (configurations S f var sp cp cover))))))" (is "runs _ ?m")
proof -
  let ?cs = "[[''sudo'', ''-n'', ''tc''] @ del_root] @ [[''sudo'', ''-n'', ''tc''] @ add_prio] @ [[''sudo'', ''-n'', ''tc''] @ add_delay show_float a] @
      (if loss_percent a \<noteq> 0 then [[''sudo'', ''-n'', ''tc''] @ add_loss show_float a] else []) @
      concat (map (\<lambda>dir. [[''sudo'', ''-n'', ''tc''] @ port_filter sp dir]) [''sport'', ''dport'']) @ []"
  have "runs ?cs ?m" by (intro runs_intros)
  moreover have "?cs = link_commands show_float a sp" by (simp add: link_commands_def)
  ultimately show ?thesis by (simp only:)
qed

section \<open>Rows and intervals\<close>

definition delayed_row_ok :: "nat \<times> string \<times> string \<times> nat \<times> nat \<Rightarrow> row \<Rightarrow> bool" where
  "delayed_row_ok job r \<longleftrightarrow> bench_row_ok job r \<and> (\<exists>k. map_of r ''tcp_retransmissions_with_warmup'' = Some (Num (of_int k))) \<and>
     (\<exists>q. map_of r ''qdisc'' = Some (Plain q))"

lemma delayed_row:
  "map_of r ''variant'' = Some (Text v) \<and> map_of r ''index'' = Some (Num (of_nat i)) \<Longrightarrow>
   delayed_row_ok (i, v, m, n, turn) (dict_set ''qdisc'' (Plain q) (dict_set ''tcp_retransmissions_with_warmup'' (Num (of_int k)) r))"
  by (auto simp: delayed_row_ok_def bench_row_ok_def)

lemma delayed_loop_yields:
  "yields (\<lambda>out. \<exists>new. out = rows @ new \<and> list_all2 delayed_row_ok (enumerate i jobs) new)
    (delayed_loop W conf snmp show show_all f a i jobs rows)"
proof (induction jobs arbitrary: i rows)
  case (Cons job jobs)
  obtain v m n turn where job: "job = (v, m, n, turn)" by (cases job)
  show ?case
    unfolding delayed_loop.simps job prod.case Let_def
    by (rule yields_last, intro yields_seq, rule yields_bnd [OF bench_trial_yields], intro yields_last yields_seq)
      (rule loop_step [OF Cons.IH], rule delayed_row)
qed (simp add: yields_ret)

text \<open>What \<open>random.choices\<close> promises: as many elements as asked for, all of them from the data.\<close>

definition draws_from_data :: "draw \<Rightarrow> bool" where
  "draws_from_data draw \<longleftrightarrow> (\<forall>i xs. length (draw i xs) = length xs \<and> set (draw i xs) \<subseteq> set xs)"

lemma resample_between:
  assumes "draws_from_data draw" and "resample draw i x y = Inr q"
    and x: "\<And>v. v \<in> set x \<Longrightarrow> lx \<le> v \<and> v \<le> ux" and y: "\<And>v. v \<in> set y \<Longrightarrow> ly \<le> v \<and> v \<le> uy" and "0 < lx" "0 < ly"
  shows "lx / uy \<le> q \<and> q \<le> ux / ly"
proof -
  from assms(2) obtain a b where ab: "median (draw i x) = Inr a" "median (draw (Suc i) y) = Inr b" "q = a / b"
    by (auto simp: resample_def bind_res_Inr_iff py_div_Inr)
  have "lx \<le> a \<and> a \<le> ux"
    by (rule median_between [OF ab(1)]) (use assms(1) x in \<open>auto simp: draws_from_data_def\<close>)
  moreover have "ly \<le> b \<and> b \<le> uy"
    by (rule median_between [OF ab(2)]) (use assms(1) y in \<open>auto simp: draws_from_data_def\<close>)
  ultimately show ?thesis using ab(3) assms(5,6) by (auto intro!: frac_le)
qed

lemma map_res_all:
  assumes "map_res f xs = Inr ys" and "\<And>x y. x \<in> set xs \<Longrightarrow> f x = Inr y \<Longrightarrow> P y" and "y \<in> set ys"
  shows "P y"
proof -
  have l: "list_all2 (\<lambda>x y. f x = Inr y) xs ys" using assms(1) by (simp add: map_res_all2)
  from assms(3) obtain i where i: "i < length ys" "ys ! i = y" by (auto simp: in_set_conv_nth)
  then have "i < length xs" using list_all2_lengthD [OF l] by simp
  then show ?thesis using assms(2) [of "xs ! i" y] list_all2_nthD2 [OF l i(1)] i(2) by simp
qed

lemma bootstrap_between:
  assumes "draws_from_data draw" and "bootstrap draw d x y = Inr rs"
    and "\<And>v. v \<in> set x \<Longrightarrow> lx \<le> v \<and> v \<le> ux" and "\<And>v. v \<in> set y \<Longrightarrow> ly \<le> v \<and> v \<le> uy" and "0 < lx" "0 < ly"
  shows "length rs = 10000" "sorted rs" "q \<in> set rs \<Longrightarrow> lx / uy \<le> q \<and> q \<le> ux / ly"
proof -
  from assms(2) obtain qs where qs: "map_res (\<lambda>k. resample draw (d + 2 * k) x y) [0..<10000] = Inr qs" "rs = sort qs"
    by (auto simp: bootstrap_def bind_res_Inr_iff)
  show "length rs = 10000" "sorted rs" using map_res_Inr_length [OF qs(1)] qs(2) by simp_all
  show "lx / uy \<le> q \<and> q \<le> ux / ly" if "q \<in> set rs"
    by (rule map_res_all [OF qs(1)]) (use that qs(2) resample_between [OF assms(1) _ assms(3-6)] in auto)
qed

lemma draw_nonempty:
  assumes "draws_from_data draw" "xs \<noteq> []"
  shows "draw i xs \<noteq> []"
proof
  assume "draw i xs = []"
  moreover have "length (draw i xs) = length xs" using assms(1) by (simp add: draws_from_data_def)
  ultimately show False using assms(2) by simp
qed

lemma bootstrap_defined:
  assumes "draws_from_data draw" "x \<noteq> []" "y \<noteq> []" "\<And>v. v \<in> set y \<Longrightarrow> ly \<le> v \<and> v \<le> uy" "0 < ly"
  shows "\<exists>rs. bootstrap draw d x y = Inr rs"
proof -
  have "\<exists>q. resample draw i x y = Inr q" for i
  proof -
    obtain m k where mk: "median (draw i x) = Inr m" "median (draw (Suc i) y) = Inr k"
      using median_defined [OF draw_nonempty [OF assms(1,2)]] median_defined [OF draw_nonempty [OF assms(1,3)]] by blast
    have "ly \<le> k \<and> k \<le> uy" by (rule median_between [OF mk(2)]) (use assms(1,4) in \<open>auto simp: draws_from_data_def\<close>)
    then show ?thesis using mk assms(5) by (simp add: resample_def py_div_def)
  qed
  then have "\<exists>qs. map_res (\<lambda>k. resample draw (d + 2 * k) x y) [0..<10000] = Inr qs" by (intro map_res_defined) blast
  then show ?thesis by (auto simp: bootstrap_def)
qed

section \<open>Groups\<close>

lemma map_of_group_by:
  "map_of (group_by f xs) k = (let ys = filter (\<lambda>x. f x = k) xs in if ys = [] then None else Some ys)"
proof (induction xs rule: rev_induct)
  case (snoc x xs)
  have "group_by f (xs @ [x]) = dict_set (f x) ((case map_of (group_by f xs) (f x) of None \<Rightarrow> [] | Some ys \<Rightarrow> ys) @ [x]) (group_by f xs)"
    by (simp add: group_by_def)
  then show ?case using snoc by (auto simp: Let_def)
qed (simp add: group_by_def)

lemma group_by_keys: "distinct (map fst (group_by f xs))" "fst ` set (group_by f xs) = f ` set xs"
  by (induction xs rule: rev_induct) (simp_all add: group_by_def)

lemma group_by_member: "(k, ys) \<in> set (group_by f xs) \<Longrightarrow> ys = filter (\<lambda>x. f x = k) xs"
  using map_of_is_SomeI [OF group_by_keys(1), of k ys f xs] by (simp add: map_of_group_by Let_def split: if_splits)

text \<open>What a result says of its group: the mode, the connections, the number of rows, and the baselines with rows.\<close>

definition boot_ok :: "bench_row list \<Rightarrow> boot_result \<Rightarrow> bool" where
  "boot_ok rows b \<longleftrightarrow>
     boot_repetitions b = length (filter (\<lambda>r. bench_key r = (''veil-opt-reality'', boot_mode b, boot_connections b)) rows) \<and>
     map fst (comparisons b) = filter (\<lambda>name. list_ex (\<lambda>r. bench_key r = (name, boot_mode b, boot_connections b)) rows) baselines"

definition boot_key :: "boot_result \<Rightarrow> string \<times> int" where
  "boot_key b = (boot_mode b, boot_connections b)"

lemma add_contrast_keys:
  assumes "add_contrast draw (group_by bench_key rows) mode n rs name dc = Inr dc'" and "name \<notin> fst ` set (snd dc)"
  shows "map fst (snd dc') = map fst (snd dc) @ (if list_ex (\<lambda>r. bench_key r = (name, mode, n)) rows then [name] else [])"
  using assms
  by (auto simp: add_contrast_def map_of_group_by Let_def bind_res_Inr_iff filter_empty_conv list_ex_iff dict_set_new split: if_splits)

lemma contrasts_keys:
  assumes "fold_res (add_contrast draw (group_by bench_key rows) mode n rs) names dc = Inr dc'" and "distinct names"
    and "set names \<inter> fst ` set (snd dc) = {}"
  shows "map fst (snd dc') = map fst (snd dc) @ filter (\<lambda>name. list_ex (\<lambda>r. bench_key r = (name, mode, n)) rows) names"
  using assms
proof (induction names arbitrary: dc)
  case (Cons name names)
  from Cons.prems(1) obtain dc1 where d: "add_contrast draw (group_by bench_key rows) mode n rs name dc = Inr dc1"
    "fold_res (add_contrast draw (group_by bench_key rows) mode n rs) names dc1 = Inr dc'" by (auto simp: bind_res_Inr_iff)
  have k: "map fst (snd dc1) = map fst (snd dc) @ (if list_ex (\<lambda>r. bench_key r = (name, mode, n)) rows then [name] else [])"
    by (rule add_contrast_keys [OF d(1)]) (use Cons.prems(3) in auto)
  have "set (map fst (snd dc1)) \<subseteq> insert name (set (map fst (snd dc)))" unfolding k by auto
  then have "set names \<inter> fst ` set (snd dc1) = {}" using Cons.prems(2,3) by auto
  from Cons.IH [OF d(2) _ this] show ?case using Cons.prems(2) k by simp
qed simp

lemma baselines_distinct: "distinct baselines"
  by (simp add: baselines_def)

definition candidate_group :: "(string \<times> string \<times> int) \<times> bench_row list \<Rightarrow> bool" where
  "candidate_group kr \<longleftrightarrow> fst (fst kr) = ''veil-opt-reality''"

lemma boot_group_step:
  assumes "boot_group draw (group_by bench_key rows) (k, rs) (d, out) = Inr (d', out')" and "(k, rs) \<in> set (group_by bench_key rows)"
  shows "if candidate_group (k, rs) then \<exists>b. out' = out @ [b] \<and> boot_ok rows b \<and> boot_key b = snd k else out' = out"
proof -
  obtain v mode n where k: "k = (v, mode, n)" by (cases k)
  show ?thesis
  proof (cases "v = ''veil-opt-reality''")
    case True
    with assms(1) k obtain cs b where b: "fold_res (add_contrast draw (group_by bench_key rows) mode n rs) baselines (d, []) = Inr (d', cs)"
      "out' = out @ [b]" "boot_mode b = mode" "boot_connections b = n" "boot_repetitions b = length rs" "comparisons b = cs"
      by (auto simp: boot_group_def bind_res_Inr_iff)
    have "map fst cs = filter (\<lambda>name. list_ex (\<lambda>r. bench_key r = (name, mode, n)) rows) baselines"
      using contrasts_keys [OF b(1) baselines_distinct] by simp
    then show ?thesis using b True k group_by_member [OF assms(2)] by (simp add: candidate_group_def boot_ok_def boot_key_def)
  qed (use assms(1) k in \<open>simp add: boot_group_def candidate_group_def\<close>)
qed

lemma boot_groups:
  assumes "fold_res (boot_group draw (group_by bench_key rows)) ks (d, out) = Inr (d', out')" and "set ks \<subseteq> set (group_by bench_key rows)"
  shows "\<exists>new. out' = out @ new \<and> list_all (boot_ok rows) new \<and> map boot_key new = map (snd \<circ> fst) (filter candidate_group ks)"
  using assms
proof (induction ks arbitrary: d out)
  case (Cons kr ks)
  obtain k rs where kr: "kr = (k, rs)" by (cases kr)
  from Cons.prems(1) obtain d1 out1 where s: "boot_group draw (group_by bench_key rows) (k, rs) (d, out) = Inr (d1, out1)"
    "fold_res (boot_group draw (group_by bench_key rows)) ks (d1, out1) = Inr (d', out')"
    by (auto simp: bind_res_Inr_iff kr)
  have m: "(k, rs) \<in> set (group_by bench_key rows)" using Cons.prems(2) kr by simp
  from Cons.IH [OF s(2)] Cons.prems(2) obtain new where
    n: "out' = out1 @ new" "list_all (boot_ok rows) new" "map boot_key new = map (snd \<circ> fst) (filter candidate_group ks)" by auto
  show ?case
  proof (cases "candidate_group kr")
    case True
    with boot_group_step [OF s(1) m] kr obtain b where "out1 = out @ [b]" "boot_ok rows b" "boot_key b = snd k" by auto
    then show ?thesis using n kr True by (intro exI [of _ "b # new"]) simp
  qed (use boot_group_step [OF s(1) m] kr n in auto)
qed simp

text \<open>Two rows of a small example.\<close>

definition sample_rows :: "rat \<Rightarrow> rat \<Rightarrow> bench_row list" where
  "sample_rows p q =
     map (\<lambda>v. \<lparr>variant = ''veil-opt-reality'', bench_mode = ''U'', connections = 1,
       measured = [(''gib_per_cpu_second'', v), (''gib_per_second'', 1)]\<rparr>) [p, q]"

section \<open>Theorems\<close>

text \<open>
  C33. The link is shaped only in a network namespace of its own: without the marker of the launcher, or when the namespace is that of process 1 or cannot be
  read, \<open>configure\<close> raises and has run no \<open>tc\<close> command. Otherwise it runs the commands for the port of the server in their order, as far as it gets, and
  all of them when it returns.
\<close>

theorem configure_isolated:
  "case configure S own show_float a f var sp cp cover h of (r, h') \<Rightarrow>
     (if separate S own h
      then \<exists>n. ran h' = ran h @ init_namespace # take n (link_commands show_float a sp) \<and>
        (case r of Inl e \<Rightarrow> True | Inr cmds \<Rightarrow> ran h' = ran h @ init_namespace # link_commands show_float a sp)
      else (\<exists>e. r = Inl e) \<and> list_all (\<lambda>c. ''tc'' \<notin> set c) (drop (length (ran h)) (ran h')))"
proof (rule require_namespace_run [of S own h])
  fix r1 h1
  assume n: "require_namespace S own h = (r1, h1)" "ran h1 = ran h \<or> ran h1 = ran h @ [init_namespace]"
    "case r1 of Inl e \<Rightarrow> \<not> separate S own h | Inr u \<Rightarrow> separate S own h \<and> ran h1 = ran h @ [init_namespace]"
  obtain r h' where c: "configure S own show_float a f var sp cp cover h = (r, h')" by fastforce
  show ?thesis
  proof (cases r1)
    case (Inl e)
    then have "r = Inl e" "h' = h1" using c n(1) by (simp_all add: configure_def seq_def bnd_def)
    then show ?thesis using n Inl c by (auto simp: init_namespace_def)
  next
    case (Inr u)
    from c n(1) Inr have "(seq (call (tool S) (cwd S) (environ S) ([''sudo'', ''-n'', ''tc''] @ del_root))
     (seq (tc S add_prio)
     (seq (tc S (add_delay show_float a))
     (seq (when_io (loss_percent a \<noteq> 0) (tc S (add_loss show_float a)))
     (seq (for_io [''sport'', ''dport''] (\<lambda>dir. tc S (port_filter sp dir)))
     (configurations S f var sp cp cover)))))) h1 = (r, h')"
      unfolding configure_def seq_def [of "require_namespace S own"] bnd_def [of "require_namespace S own"] by simp
    from runsD [OF shaping_runs this] n(3) Inr c show ?thesis by (auto split: sum.splits)
  qed
qed

text \<open>
  A run over the delayed link that returns has one row for each job, in the order of the shuffle, numbered, with the variant of its job, the segments
  retransmitted meanwhile and the state of the link.
\<close>

theorem delayed_main_rows:
  "case delayed_main W has_go own snmp show_float show show_all shuffle a l of
     (Inl e, l') \<Rightarrow> True
   | (Inr rows, l') \<Rightarrow> list_all2 delayed_row_ok (enumerate 0 (shuffle (delayed_jobs a))) rows"
  by (rule yields_case, unfold delayed_main_def, rule yields_last, rule yields_seq, rule yields_last, rule yields_unless, rule yields_last, rule yields_seq)
    (rule yields_mono [OF delayed_loop_yields], simp)

text \<open>
  C34. A comparison of positive samples returns, and its interval is one: the ends are in order, and each lies between the quotients of the extreme samples,
  whatever elements the random draws pick. The ratio of the medians lies between the same quotients.
\<close>

theorem contrast_bounds:
  assumes "draws_from_data draw" and "column (boot_metric mode) rs = Inr x" and "column (boot_metric mode) base = Inr y"
    and "column ''gib_per_second'' base = Inr ws" and "rs \<noteq> []" and "base \<noteq> []"
    and "list_all (\<lambda>v. lx \<le> v \<and> v \<le> ux) x" and "list_all (\<lambda>v. ly \<le> v \<and> v \<le> uy) y" and "0 < lx" and "0 < ly"
  shows "\<exists>c. contrast_with draw d mode rs base = Inr c \<and>
    fst (bootstrap_95_ratio c) \<le> snd (bootstrap_95_ratio c) \<and> lx / uy \<le> fst (bootstrap_95_ratio c) \<and>
    snd (bootstrap_95_ratio c) \<le> ux / ly \<and> lx / uy \<le> contrast_ratio c \<and> contrast_ratio c \<le> ux / ly"
proof -
  have x: "v \<in> set x \<Longrightarrow> lx \<le> v \<and> v \<le> ux" and y: "v \<in> set y \<Longrightarrow> ly \<le> v \<and> v \<le> uy" for v
    using assms(7,8) by (simp_all add: list_all_iff)
  have ne: "x \<noteq> []" "y \<noteq> []" "ws \<noteq> []" using assms(2-6) by (auto simp: column_def dest!: map_res_Inr_length)
  then obtain mx my mw where m: "median x = Inr mx" "median y = Inr my" "median ws = Inr mw"
    using median_defined [of x] median_defined [of y] median_defined [of ws] by blast
  obtain ratios where r: "bootstrap draw d x y = Inr ratios" using bootstrap_defined [OF assms(1) ne(1,2) y assms(10)] by blast
  note b = bootstrap_between [OF assms(1) r x y assms(9,10)]
  have ratio: "lx / uy \<le> mx / my \<and> mx / my \<le> ux / ly" "my \<noteq> 0"
    using median_between [OF m(1) x] median_between [OF m(2) y] assms(9,10) by (auto intro!: frac_le)
  have "ratios ! 249 \<le> ratios ! 9749" using b(1,2) by (simp add: sorted_nth_mono)
  moreover have "ratios ! 249 \<in> set ratios" "ratios ! 9749 \<in> set ratios" using b(1) by simp_all
  ultimately show ?thesis
    using b(1,3) ratio by (simp add: contrast_with_def assms(2-4) r m py_div_def Prelude.at_def)
qed

theorem contrast_bounds_witness:
  "\<exists>c. contrast_with (\<lambda>i xs. rev xs) 0 ''U'' (sample_rows 2 4) (sample_rows 1 2) = Inr c \<and>
    fst (bootstrap_95_ratio c) \<le> snd (bootstrap_95_ratio c) \<and> (2 :: rat) / 2 \<le> fst (bootstrap_95_ratio c) \<and>
    snd (bootstrap_95_ratio c) \<le> 4 / 1 \<and> (2 :: rat) / 2 \<le> contrast_ratio c \<and> contrast_ratio c \<le> 4 / 1"
  by (rule contrast_bounds [where x = "[2, 4]" and y = "[1, 2]" and ws = "[1, 1]"])
    (simp_all add: draws_from_data_def sample_rows_def column_def boot_metric_def dict_get_def)

text \<open>
  The results of \<^verbatim>\<open>summarize.py\<close> are those of the groups of the candidate in the saved rows, one for each mode and number of connections, in their order; each has the number
  of its rows and is compared with exactly the baselines that have rows for the same mode and connections.
\<close>

theorem boot_rows_exact:
  "case boot_rows draw rows of
     Inl e \<Rightarrow> True
   | Inr out \<Rightarrow> list_all (boot_ok rows) out \<and> sorted_wrt (<) (map boot_key out) \<and>
       set (map boot_key out) = (snd \<circ> bench_key) ` set (filter (\<lambda>r. variant r = ''veil-opt-reality'') rows)"
proof (cases "boot_rows draw rows")
  case (Inr out)
  let ?g = "group_by bench_key rows"
  from Inr obtain d where f: "fold_res (boot_group draw ?g) (sort_key fst ?g) (0, []) = Inr (d, out)"
    by (auto simp: boot_rows_def Let_def bind_res_Inr_iff)
  from boot_groups [OF f] have o: "list_all (boot_ok rows) out" "map boot_key out = map (snd \<circ> fst) (filter candidate_group (sort_key fst ?g))" by auto
  have "mset (map fst (sort_key fst ?g)) = mset (map fst ?g)" by simp
  then have "distinct (map fst (sort_key fst ?g))" using group_by_keys(1) mset_eq_imp_distinct_iff by blast
  moreover have "sorted (map fst (sort_key fst ?g))" by simp
  ultimately have "sorted_wrt (<) (map fst (sort_key fst ?g))" by (simp only: strict_sorted_iff)
  then have "sorted_wrt (\<lambda>x y. fst x < fst y) (filter candidate_group (sort_key fst ?g))"
    by (simp add: sorted_wrt_map sorted_wrt_filter)
  then have "sorted_wrt (\<lambda>x y. snd (fst x) < snd (fst y)) (filter candidate_group (sort_key fst ?g))"
    by (rule sorted_wrt_mono_rel [rotated]) (auto simp: candidate_group_def less_prod_def)
  then have "sorted_wrt (<) (map boot_key out)" unfolding o(2) by (simp add: sorted_wrt_map)
  moreover have "set (map boot_key out) = (snd \<circ> fst) ` {kr \<in> set ?g. candidate_group kr}" unfolding o(2) by simp
  moreover have "\<dots> = snd ` {k \<in> fst ` set ?g. fst k = ''veil-opt-reality''}" by (force simp: candidate_group_def)
  moreover have "\<dots> = (snd \<circ> bench_key) ` set (filter (\<lambda>r. variant r = ''veil-opt-reality'') rows)"
    unfolding group_by_keys(2) by (force simp: bench_key_def)
  ultimately show ?thesis using o(1) Inr by simp
qed simp

end
