(* ===== verification/Rivals.thy ===== *)
theory Rivals
  imports Smoke
begin

text \<open>
  The comparison of the Go and Rust programs, \<^verbatim>\<open>veil-rust/scripts/compare.py\<close>, on the bench of theory \<open>Lab\<close>. The script has its own
  performance counters, configurations and final block, which also removes the configurations with the secret.
\<close>

section \<open>The outside\<close>

record rival_world =
  ring :: outside
  entropy :: "act list \<Rightarrow> bytes"
  net_tcp :: "act list \<Rightarrow> string res"

record rival_options =
  go_path :: path
  rust_path :: path
  openssl_path :: path
  load_path :: path
  rival_out :: path
  rival_pairs :: "string list"
  rival_modes :: "string list"
  rival_size :: int
  rival_rounds :: int
  rival_repeats :: int
  cpus :: "int list"
  no_perf :: bool

definition rival_line :: "outside \<Rightarrow> nat \<Rightarrow> (lab, json) io" where
  "rival_line W n =
     bnd (ask (Asked n) (line_of W n)) (\<lambda>ready.
     case ready of
       None \<Rightarrow> raise (TimeoutError ''load timed out'')
     | Some raw \<Rightarrow> if raw = [] then raise (RuntimeError ''load failed, see process logs'') else lift_res (loads raw))"

definition rival_wait :: "outside \<Rightarrow> int \<Rightarrow> nat \<Rightarrow> (lab, unit) io" where
  "rival_wait W p n =
     lab_wait W (\<lambda>exited accepts. wait_loop ''proxy exited, see process logs'' ''proxy readiness'' exited accepts 0 300) p n"

record usage =
  cpu_seconds :: rat
  peak_rss_kib :: int

text \<open>\<open>counters\<close>: both files are read before the numbers are taken from them.\<close>

definition usage_of :: "int \<Rightarrow> string list \<Rightarrow> string list \<Rightarrow> usage res" where
  "usage_of ticks stat_fields status =
     bind_res (bind_res (Prelude.at stat_fields 11) py_int) (\<lambda>user.
     bind_res (bind_res (Prelude.at stat_fields 12) py_int) (\<lambda>system.
     bind_res (py_div (of_int (user + system)) (of_int ticks)) (\<lambda>secs.
     case find (\<lambda>s. startswith s ''VmHWM:'') status of
       None \<Rightarrow> Inl StopIteration
     | Some s \<Rightarrow> bind_res (bind_res (Prelude.at (words_of s) 1) py_int) (\<lambda>kib. Inr \<lparr>cpu_seconds = secs, peak_rss_kib = kib\<rparr>))))"

definition rival_counters :: "outside \<Rightarrow> nat \<Rightarrow> (lab, usage) io" where
  "rival_counters W n =
     bnd (ask (Examined ''stat'' n) (proc_text W ''stat'' n)) (\<lambda>r.
     bnd (lift_res r) (\<lambda>stat_text.
     case find_sub '') '' stat_text of
       None \<Rightarrow> raise IndexError
     | Some i \<Rightarrow>
         bnd (ask (Examined ''status'' n) (proc_text W ''status'' n)) (\<lambda>r.
         bnd (lift_res r) (\<lambda>status.
         lift_res (usage_of (clock_ticks W) (words_of (drop (i + 2) stat_text)) (lines_of status))))))"

section \<open>Performance counters\<close>

definition rival_ctl :: "perf \<Rightarrow> path" where
  "rival_ctl c = perf_folder c @ [''ctl'']"

definition rival_ack :: "perf \<Rightarrow> path" where
  "rival_ack c = perf_folder c @ [''ack'']"

definition rival_perf_line :: "nat \<Rightarrow> perf \<Rightarrow> string list" where
  "rival_perf_line pid c =
     [''sudo'', ''-n'', ''perf'', ''stat'', ''-p'', dec pid, ''--delay=-1'',
      ''--control=fifo:'' @ str (rival_ctl c) @ '','' @ str (rival_ack c), ''-x,'', ''-e'', ''task-clock,cycles,instructions'',
      ''-o'', str (perf_folder c @ [''perf.csv''])]"

definition rival_perf_new :: "outside \<Rightarrow> nat \<Rightarrow> path \<Rightarrow> (lab, nat) io" where
  "rival_perf_new W n folder =
     (let c = \<lparr>perf_folder = folder, cf_open = True, af_open = True, perf_log = True, perf_runs = True\<rparr> in
      seq (new_folder folder)
      (seq (on_machine (on_files (mkfifo (rival_ctl c))))
      (seq (on_machine (on_files (mkfifo (rival_ack c))))
      (seq (on_machine (on_files (write_text (folder @ [''log'']) [])))
      (bnd (ask (Attached (rival_perf_line (pid_of W n) c)) (perf_starts W (rival_perf_line (pid_of W n) c))) (\<lambda>r.
      bnd (lift_res r) (\<lambda>_.
      bnd (gets (\<lambda>l. length (perfs l))) (\<lambda>k.
      seq (modify (\<lambda>l. l\<lparr>perfs := perfs l @ [c]\<rparr>)) (ret k)))))))))"

definition rival_command :: "outside \<Rightarrow> string \<Rightarrow> nat \<Rightarrow> (lab, unit) io" where
  "rival_command W s k =
     bnd (gets (\<lambda>l. cf_open (perfs l ! k))) (\<lambda>open.
     if \<not> open then raise ebadf
     else bnd (ask (Counting k s) (perf_ack W k)) (\<lambda>answer.
     if (case answer of None \<Rightarrow> True | Some data \<Rightarrow> \<not> contains ''ack'' data)
     then raise (RuntimeError ''perf failed; inspect log or use --no-perf'') else ret ()))"

definition rival_close :: "outside \<Rightarrow> nat \<Rightarrow> (lab, unit) io" where
  "rival_close W k =
     seq (interrupt_perf W k)
     (seq (close_pipe k cf_open (\<lambda>c. c\<lparr>cf_open := False\<rparr>))
     (seq (close_pipe k af_open (\<lambda>c. c\<lparr>af_open := False\<rparr>))
     (seq (bnd (gets (\<lambda>l. perfs l ! k)) (\<lambda>c. on_machine (on_files (unlink False (rival_ctl c)))))
     (seq (bnd (gets (\<lambda>l. perfs l ! k)) (\<lambda>c. on_machine (on_files (unlink False (rival_ack c)))))
     (set_perf k (\<lambda>c. c\<lparr>perf_log := False\<rparr>))))))"

definition rival_result_of :: "outside \<Rightarrow> nat \<Rightarrow> (lab, (string \<times> rat) list) io" where
  "rival_result_of W k =
     bnd (ask (Counting k ''result'') (perf_csv W k)) (\<lambda>r.
     bnd (lift_res r) (\<lambda>csv.
     let result = perf_table csv in
     if (case map_of result ''task-clock'' of None \<Rightarrow> 0 | Some x \<Rightarrow> x) \<le> 0
     then raise (RuntimeError ''missing perf task-clock'') else ret result))"

section \<open>Configurations\<close>

text \<open>\<open>base64.urlsafe_b64encode\<close>, three bytes at a time, and \<open>rstrip(b'=')\<close>.\<close>

definition b64_alphabet :: string where
  "b64_alphabet = ''ABCDEFGHIJKLMNOPQRSTUVWXYZabcdefghijklmnopqrstuvwxyz0123456789-_''"

definition sextet :: "nat \<Rightarrow> char" where
  "sextet n = b64_alphabet ! (n mod 64)"

fun b64encode :: "bytes \<Rightarrow> string" where
  "b64encode [] = []"
| "b64encode [a] = (let n = unat a * 65536 in [sextet (n div 262144), sextet (n div 4096)] @ ''=='')"
| "b64encode [a, b] = (let n = unat a * 65536 + unat b * 256 in [sextet (n div 262144), sextet (n div 4096), sextet (n div 64)] @ ''='')"
| "b64encode (a # b # c # bs) =
     (let n = unat a * 65536 + unat b * 256 + unat c in [sextet (n div 262144), sextet (n div 4096), sextet (n div 64), sextet n] @ b64encode bs)"

definition secret_text :: "bytes \<Rightarrow> string" where
  "secret_text bs = rev (dropWhile (\<lambda>c. c = CHR ''='') (rev (b64encode bs)))"

definition span_of :: "int \<Rightarrow> int \<Rightarrow> json" where
  "span_of lo hi = JObj [(''min'', JInt lo), (''max'', JInt hi)]"

definition rival_base :: "string \<Rightarrow> (string \<times> json) list" where
  "rival_base secret =
     [(''secret'', JStr secret), (''max_connections'', JInt 64), (''max_idle'', JInt 8), (''idle_seconds'', JInt 120), (''pool_seconds'', JInt 60),
      (''traffic'', JObj [(''version'', JInt 1), (''quantum_bytes'', span_of 8192 32768), (''startup_bytes'', span_of 512 2048),
        (''startup_writes'', span_of 2 6), (''padding_limit'', span_of 0 0), (''padding_budget'', span_of 0 0),
        (''control_padding_limit'', span_of 0 0), (''credit_blocks'', span_of 16 64)])]"

definition rival_tls :: "(string \<times> json) list" where
  "rival_tls = [(''mode'', JStr ''tls''), (''server_name'', JStr ''cover.test''), (''record_padding'', JBool False)]"

definition rival_server :: "string \<Rightarrow> int \<Rightarrow> path \<Rightarrow> path \<Rightarrow> json" where
  "rival_server secret sp cert key =
     JObj (dict_update (rival_base secret)
       [(''role'', JStr ''server''), (''listen'', JStr (local_port sp)),
        (''tls'', JObj (dict_update rival_tls [(''certificate'', JStr (str cert)), (''private_key_file'', JStr (str key))]))])"

definition rival_client :: "string \<Rightarrow> int \<Rightarrow> int \<Rightarrow> path \<Rightarrow> json" where
  "rival_client secret sp cp cert =
     JObj (dict_update (rival_base secret)
       [(''role'', JStr ''client''), (''listen'', JStr (local_port cp)), (''server'', JStr (local_port sp)),
        (''tls'', JObj (dict_update rival_tls [(''ca_file'', JStr (str cert))]))])"

section \<open>A trial\<close>

definition rival_launch :: "outside \<Rightarrow> path \<Rightarrow> string list \<Rightarrow> int \<Rightarrow> (lab, nat) io" where
  "rival_launch W folder cmd core =
     bnd (gets (\<lambda>l. length (table l))) (\<lambda>n.
     seq (on_machine (on_files (write_text (folder @ [log_name n]) [])))
     (seq (modify (\<lambda>l. l\<lparr>logs := logs l @ [True]\<rparr>))
     (lab_popen W ([''taskset'', ''-c'', dec_int core] @ cmd) (dict_update (environ (lab_site W)) [(''GOMAXPROCS'', ''1'')]))))"

definition binary_of :: "rival_options \<Rightarrow> string \<Rightarrow> path res" where
  "binary_of a name = dict_get name [(''go'', go_path a), (''rust'', rust_path a), (''openssl'', openssl_path a)]"

text \<open>\<open>client_name, server_name = pair.split('-')\<close>\<close>

definition pair_names :: "string \<Rightarrow> (string \<times> string) res" where
  "pair_names pr =
     (case split_char CHR ''-'' pr of [c, s] \<Rightarrow> Inr (c, s) | _ \<Rightarrow> Inl (ValueError ''wrong number of values to unpack''))"

definition save_secret :: "path \<Rightarrow> json \<Rightarrow> (lab, unit) io" where
  "save_secret p cfg = seq (on_machine (write_file p (dumps None cfg))) (on_machine (on_files (chmod p mode_600)))"

text \<open>Starting a program and waiting for its port; the processor is looked up before anything happens.\<close>

definition ready_program :: "outside \<Rightarrow> path \<Rightarrow> string list res \<Rightarrow> int list \<Rightarrow> nat \<Rightarrow> int \<Rightarrow> (lab, nat) io" where
  "ready_program W folder cmd cs k p =
     bnd (lift_res cmd) (\<lambda>c.
     bnd (lift_res (Prelude.at cs k)) (\<lambda>core.
     bnd (rival_launch W folder c core) (\<lambda>n. seq (rival_wait W p n) (ret n))))"

definition rival_setup ::
  "rival_world \<Rightarrow> rival_options \<Rightarrow> string \<times> string \<Rightarrow> char \<Rightarrow> int \<Rightarrow> path \<Rightarrow> json \<times> json \<Rightarrow> int \<Rightarrow> int \<Rightarrow> int \<Rightarrow> (lab, nat \<times> nat \<times> nat) io" where
  "rival_setup R a names mode conc folder cfgs bp sp cp =
     (let W = ring R in
      seq (save_secret (folder @ [''server.json'']) (fst cfgs))
      (seq (save_secret (folder @ [''client.json'']) (snd cfgs))
      (bnd (ready_program W folder (Inr (backend_command (str (load_path a)) bp)) (cpus a) 2 bp) (\<lambda>backend.
      bnd (ready_program W folder (bind_res (binary_of a (snd names)) (\<lambda>b. Inr [str b, ''-config'', str (folder @ [''server.json''])])) (cpus a) 0 sp) (\<lambda>server.
      bnd (ready_program W folder (bind_res (binary_of a (fst names)) (\<lambda>b. Inr [str b, ''-config'', str (folder @ [''client.json''])])) (cpus a) 1 cp) (\<lambda>client.
      bnd (lift_res (Prelude.at (cpus a) 3)) (\<lambda>core.
      bnd (rival_launch W folder (load_command (str (load_path a)) cp bp [mode]
          [''-connections'', dec_int conc, ''-bytes'', dec_int (rival_size a), ''-rounds'', dec_int (rival_rounds a)]) core) (\<lambda>load.
      ret (server, client, load)))))))))"

text \<open>\<open>int(text, 16)\<close> of the plain digits that \<^verbatim>\<open>/proc/net/tcp\<close> shows.\<close>

definition hex_int :: "string \<Rightarrow> int res" where
  "hex_int s =
     (if s = [] \<or> \<not> list_all (\<lambda>c. hex_val c \<noteq> None) s then Inl (ValueError ''invalid literal for int() with base 16'')
      else Inr (int (fold (\<lambda>c n. 16 * n + the (hex_val c)) s 0)))"

definition is_session :: "int \<Rightarrow> string \<Rightarrow> bool res" where
  "is_session sp tcp_row =
     bind_res (Prelude.at (words_of tcp_row) 2) (\<lambda>remote.
     bind_res (Prelude.at (split_char CHR '':'' remote) 1) (\<lambda>port_text.
     bind_res (hex_int port_text) (\<lambda>p.
     if p \<noteq> sp then Inr False else bind_res (Prelude.at (words_of tcp_row) 3) (\<lambda>st. Inr (st = ''01'')))))"

definition physical_sessions_of :: "int \<Rightarrow> string \<Rightarrow> nat res" where
  "physical_sessions_of sp t = bind_res (map_res (is_session sp) (drop 1 (lines_of t))) (\<lambda>bs. Inr (length (filter id bs)))"

record side =
  side_cpu :: rat
  side_peak :: int
  side_perf :: "(string \<times> rat) list option"

record rival_result =
  rival_printed :: row
  rival_pair :: string
  concurrency :: int
  physical_sessions :: nat
  server_side :: side
  client_side :: side
  gbit_s :: rat
  gib_per_cpu_second :: "rat option"

definition plain_side :: "usage \<Rightarrow> usage \<Rightarrow> side" where
  "plain_side before after = \<lparr>side_cpu = cpu_seconds after - cpu_seconds before, side_peak = peak_rss_kib after, side_perf = None\<rparr>"

text \<open>\<open>perf.close()\<close>, then its result, for a side that has a counter.\<close>

definition counted_side :: "outside \<Rightarrow> nat list \<Rightarrow> nat \<Rightarrow> side \<Rightarrow> (lab, side) io" where
  "counted_side W ks i s =
     (if i < length ks
      then seq (rival_close W (ks ! i))
        (bnd (rival_result_of W (ks ! i)) (\<lambda>vs.
         bnd (lift_res (dict_get ''task-clock'' vs)) (\<lambda>clock. ret (s\<lparr>side_perf := Some vs, side_cpu := clock / 1000\<rparr>))))
      else ret s)"

definition add_rival :: "outside \<Rightarrow> path \<Rightarrow> string \<times> nat \<Rightarrow> (lab, unit) io" where
  "add_rival W folder np =
     bnd (rival_perf_new W (snd np) (folder @ [fst np])) (\<lambda>k.
     seq (modify (\<lambda>l. l\<lparr>counters := counters l @ [k]\<rparr>))
     (rival_command W ''enable'' k))"

definition finish_rival :: "row \<Rightarrow> string \<Rightarrow> int \<Rightarrow> nat \<Rightarrow> side \<Rightarrow> side \<Rightarrow> rival_result res" where
  "finish_rival printed_row pr conc sessions s c =
     bind_res (row_number ''bytes'' printed_row) (\<lambda>b.
     bind_res (row_number ''seconds'' printed_row) (\<lambda>secs.
     bind_res (py_div (b * 8) secs) (\<lambda>rate.
     let total = side_cpu s + side_cpu c in
     Inr \<lparr>rival_printed = printed_row, rival_pair = pr, concurrency = conc, physical_sessions = sessions, server_side = s, client_side = c,
       gbit_s = rate / 10 ^ 9, gib_per_cpu_second = (if 0 < total then Some (b / 2 ^ 30 / total) else None)\<rparr>)))"

definition rival_measure ::
  "rival_world \<Rightarrow> rival_options \<Rightarrow> string \<Rightarrow> int \<Rightarrow> path \<Rightarrow> int \<Rightarrow> nat \<Rightarrow> nat \<Rightarrow> nat \<Rightarrow> (lab, rival_result) io" where
  "rival_measure R a pr conc folder sp server client load =
     (let W = ring R in
      bnd (rival_line W load) (\<lambda>v.
      bnd (lift_res (jget ''ready'' v)) (\<lambda>ready.
      seq (ensure (truthy ready))
      (bnd (ask (Examined ''/proc/net/tcp'' 0) (net_tcp R)) (\<lambda>r.
      bnd (lift_res (bind_res r (physical_sessions_of sp))) (\<lambda>sessions.
      bnd (rival_counters W server) (\<lambda>s0.
      bnd (rival_counters W client) (\<lambda>c0.
      seq (when_io (\<not> no_perf a) (for_io [(''server'', server), (''client'', client)] (add_rival W folder)))
      (seq (tell W load [nl])
      (bnd (rival_line W load) (\<lambda>v.
      bnd (gets counters) (\<lambda>ks.
      seq (for_io ks (rival_command W ''disable''))
      (bnd (rival_counters W server) (\<lambda>s1.
      bnd (rival_counters W client) (\<lambda>c1.
      bnd (wait_exit W load) (\<lambda>rc.
      if rc \<noteq> 0 then raise (RuntimeError ''benchmark exit failure'')
      else bnd (lift_res (row_of v)) (\<lambda>printed_row.
      bnd (counted_side W ks 0 (plain_side s0 s1)) (\<lambda>s.
      bnd (counted_side W ks 1 (plain_side c0 c1)) (\<lambda>c.
      seq (modify (\<lambda>l. l\<lparr>counters := []\<rparr>))
      (lift_res (finish_rival printed_row pr conc sessions s c)))))))))))))))))))))"

text \<open>The final block: counters, processes, logs, and the configurations with the secret.\<close>

definition close_rivals :: "outside \<Rightarrow> (lab, unit) io" where
  "close_rivals W = bnd (gets counters) (\<lambda>ks. for_io ks (rival_close W))"

definition end_rival :: "outside \<Rightarrow> path \<Rightarrow> (lab, unit) io" where
  "end_rival W folder =
     seq (close_rivals W)
     (seq (stop_all W)
     (seq close_logs
     (for_io [''client.json'', ''server.json''] (\<lambda>name. on_machine (on_files (unlink True (folder @ [name])))))))"

definition rival_trial ::
  "rival_world \<Rightarrow> (rival_result \<Rightarrow> string) \<Rightarrow> rival_options \<Rightarrow> string \<Rightarrow> char \<Rightarrow> int \<Rightarrow> path \<Rightarrow> path \<Rightarrow> path \<Rightarrow> (lab, rival_result) io" where
  "rival_trial R show a pr mode conc folder cert key =
     (let W = ring R in
      seq (new_folder folder)
      (bnd (port W) (\<lambda>bp. bnd (port W) (\<lambda>sp. bnd (port W) (\<lambda>cp.
      bnd (lift_res (pair_names pr)) (\<lambda>names.
      bnd (ask (Examined ''urandom'' 32) (entropy R)) (\<lambda>rnd.
      try_finally
        (bnd (rival_setup R a names mode conc folder (rival_server (secret_text rnd) sp cert key, rival_client (secret_text rnd) sp cp cert) bp sp cp)
          (\<lambda>(server, client, load).
         bnd (rival_measure R a pr conc folder sp server client load) (\<lambda>result.
         seq (on_machine (write_file (folder @ [''result.json'']) (show result @ [nl])))
         (ret result))))
        (end_rival W folder))))))))"

section \<open>The main program\<close>

definition mode_parts :: "string \<Rightarrow> (char \<times> int) res" where
  "mode_parts mode = bind_res (Prelude.at mode 0) (\<lambda>c. bind_res (py_int (drop 1 mode)) (\<lambda>n. Inr (c, n)))"

definition rival_folder :: "rival_options \<Rightarrow> nat \<Rightarrow> string \<times> string \<times> nat \<Rightarrow> path" where
  "rival_folder a i job = (case job of (pr, mode, turn) \<Rightarrow> rival_out a @ [pad3 i @ ''-'' @ pr @ ''-'' @ mode @ ''-'' @ dec turn])"

primrec rival_loop ::
  "rival_world \<Rightarrow> (rival_result \<Rightarrow> string) \<Rightarrow> rival_options \<Rightarrow> path \<Rightarrow> path \<Rightarrow> nat \<Rightarrow> (string \<times> string \<times> nat) list \<Rightarrow> rival_result list \<Rightarrow>
   (lab, rival_result list) io" where
  "rival_loop R show a cert key i [] results = ret results"
| "rival_loop R show a cert key i (job # jobs) results =
     bnd (lift_res (mode_parts (fst (snd job)))) (\<lambda>mc.
     seq fresh_lists
     (bnd (rival_trial R show a (fst job) (fst mc) (snd mc) (rival_folder a i job) cert key) (\<lambda>r.
     rival_loop R show a cert key (Suc i) jobs (results @ [r]))))"

definition rival_jobs :: "rival_options \<Rightarrow> (string \<times> string \<times> nat) list" where
  "rival_jobs a = List.product (rival_pairs a) (List.product (rival_modes a) [0..<nat (rival_repeats a)])"

text \<open>The rows of a pair and a mode; what is compared first decides whether the rest is looked at.\<close>

definition same_case :: "string \<Rightarrow> string \<Rightarrow> rival_result \<Rightarrow> bool res" where
  "same_case pr mode r =
     (if rival_pair r \<noteq> pr then Inr False
      else bind_res (dict_get ''mode'' (rival_printed r)) (\<lambda>m.
           bind_res (Prelude.at mode 0) (\<lambda>c.
           if cell_text m \<noteq> Inr [c] then Inr False
           else bind_res (py_int (drop 1 mode)) (\<lambda>n. Inr (concurrency r = n)))))"

definition case_rows :: "string \<Rightarrow> string \<Rightarrow> rival_result list \<Rightarrow> rival_result list res" where
  "case_rows pr mode rs =
     bind_res (map_res (\<lambda>r. bind_res (same_case pr mode r) (\<lambda>b. Inr (r, b))) rs) (\<lambda>rbs. Inr (map fst (filter snd rbs)))"

record spread =
  spread_median :: rat
  spread_min :: rat
  spread_max :: rat

definition rival_field :: "string \<Rightarrow> rival_result \<Rightarrow> rat option res" where
  "rival_field field r =
     (if field = ''gbit_s'' then Inr (Some (gbit_s r))
      else if field = ''gib_per_cpu_second'' then Inr (gib_per_cpu_second r)
      else case map_of (rival_printed r) field of
             None \<Rightarrow> Inr None
           | Some c \<Rightarrow> if c = Plain JNull then Inr None else bind_res (row_number field (rival_printed r)) (\<lambda>x. Inr (Some x)))"

definition spread_of :: "string \<Rightarrow> rival_result list \<Rightarrow> (string \<times> spread) list res" where
  "spread_of field rs =
     bind_res (map_res (rival_field field) rs) (\<lambda>os.
     let vs = map the (filter (\<lambda>x. x \<noteq> None) os) in
     if vs = [] then Inr []
     else bind_res (median vs) (\<lambda>m.
          Inr [(field, \<lparr>spread_median = m, spread_min = Min (set vs), spread_max = Max (set vs)\<rparr>)]))"

record rival_entry =
  entry_pair :: string
  entry_mode :: string
  samples :: nat
  spreads :: "(string \<times> spread) list"
  server_cpu_seconds :: rat
  server_peak_rss_kib :: rat
  client_cpu_seconds :: rat
  client_peak_rss_kib :: rat

definition rival_entry_of :: "rival_result list \<Rightarrow> string \<times> string \<Rightarrow> rival_entry res" where
  "rival_entry_of results pm =
     bind_res (case_rows (fst pm) (snd pm) results) (\<lambda>rs.
     bind_res (map_res (\<lambda>field. spread_of field rs) [''gbit_s'', ''gib_per_cpu_second'', ''seconds'', ''p50_us'', ''p99_us'']) (\<lambda>ss.
     bind_res (median (map (\<lambda>r. side_cpu (server_side r)) rs)) (\<lambda>sc.
     bind_res (median (map (\<lambda>r. of_int (side_peak (server_side r))) rs)) (\<lambda>sp.
     bind_res (median (map (\<lambda>r. side_cpu (client_side r)) rs)) (\<lambda>cc.
     bind_res (median (map (\<lambda>r. of_int (side_peak (client_side r))) rs)) (\<lambda>cp.
     Inr \<lparr>entry_pair = fst pm, entry_mode = snd pm, samples = length rs, spreads = concat ss, server_cpu_seconds = sc, server_peak_rss_kib = sp,
       client_cpu_seconds = cc, client_peak_rss_kib = cp\<rparr>))))))"

definition rival_summary :: "rival_options \<Rightarrow> rival_result list \<Rightarrow> rival_entry list res" where
  "rival_summary a results = map_res (rival_entry_of results) (List.product (rival_pairs a) (rival_modes a))"

definition rival_metadata :: "site \<Rightarrow> string \<Rightarrow> rival_options \<Rightarrow> (host, json) io" where
  "rival_metadata S date a =
     bnd (map_io (\<lambda>(name, p). bnd (read_digest S p) (\<lambda>d. ret (name, JStr d)))
       [(''go'', go_path a), (''rust'', rust_path a), (''openssl'', openssl_path a), (''peer'', load_path a)]) (\<lambda>bd.
     bnd (tool_output S [''lscpu'']) (\<lambda>cpu_text.
     ret (JObj [(''cpus'', JArr (map JInt (cpus a))), (''size'', JInt (rival_size a)), (''rounds'', JInt (rival_rounds a)), (''repeats'', JInt (rival_repeats a)),
       (''transport'', JStr ''TLS 1.3 AES-128-GCM, two-lane pool policy, no TLS padding; handshake excluded (Go default hybrid group, Rust X25519)''),
       (''binaries'', JObj bd), (''host'', JStr cpu_text), (''date'', JStr date)])))"

definition rival_openssl :: "path \<Rightarrow> path \<Rightarrow> string list" where
  "rival_openssl cert key =
     [''openssl'', ''req'', ''-x509'', ''-newkey'', ''ec'', ''-pkeyopt'', ''ec_paramgen_curve:P-256'', ''-nodes'', ''-days'', ''1'',
      ''-subj'', ''/CN=cover.test'', ''-addext'', ''subjectAltName=DNS:cover.test'', ''-addext'', ''basicConstraints=critical,CA:FALSE'',
      ''-keyout'', str key, ''-out'', str cert]"

text \<open>\<open>tempfile.TemporaryDirectory\<close> around the trials; \<open>tmp\<close> is the directory of the system for temporary files.\<close>

definition lab_temp :: "outside \<Rightarrow> string \<Rightarrow> path \<Rightarrow> (path \<Rightarrow> (lab, 'a) io) \<Rightarrow> (lab, 'a) io" where
  "lab_temp W pre tmp body =
     bnd (gets (\<lambda>l. (is_dir (files (machine l)) tmp, temp_name (lab_site W) (files (machine l)) tmp))) (\<lambda>(ok, n).
     if \<not> ok then raise enoent
     else let temp = tmp @ [pre @ n] in
       seq (on_machine (on_files (modify (put temp Dir))))
           (try_finally (body temp) (on_machine (on_files (modify (del (inside temp)))))))"

definition rival_runs ::
  "rival_world \<Rightarrow> (rival_result \<Rightarrow> string) \<Rightarrow> ((string \<times> string \<times> nat) list \<Rightarrow> (string \<times> string \<times> nat) list) \<Rightarrow> path \<Rightarrow> rival_options \<Rightarrow>
   (lab, rival_result list) io" where
  "rival_runs R show shuffle tmp a =
     lab_temp (ring R) ''veil-rust-bench-'' tmp (\<lambda>temp.
       let cert = temp @ [''cert.pem'']; key = temp @ [''key.pem'']; S = lab_site (ring R) in
       seq (on_machine (run (tool S) (cwd S) (environ S) (rival_openssl cert key)))
       (rival_loop R show a cert key 0 (shuffle (rival_jobs a)) []))"

definition rival_main ::
  "rival_world \<Rightarrow> (rival_result \<Rightarrow> string) \<Rightarrow> (rival_entry list \<Rightarrow> string) \<Rightarrow> string \<Rightarrow>
   ((string \<times> string \<times> nat) list \<Rightarrow> (string \<times> string \<times> nat) list) \<Rightarrow> path \<Rightarrow> rival_options \<Rightarrow> (lab, rival_result list \<times> rival_entry list) io" where
  "rival_main R show show_all date shuffle tmp a =
     seq (on_machine (mkdirs (rival_out a)))
     (seq (on_machine (bnd (rival_metadata (lab_site (ring R)) date a) (\<lambda>m. write_file (rival_out a @ [''metadata.json'']) (dumps (Some 2) m @ [nl]))))
     (bnd (rival_runs R show shuffle tmp a) (\<lambda>results.
     bnd (lift_res (rival_summary a results)) (\<lambda>summary.
     seq (on_machine (write_file (rival_out a @ [''summary.json'']) (show_all summary @ [nl])))
     (ret (results, summary))))))"

section \<open>What the parts keep\<close>

context stable
begin

lemma keeps_rivals [keeps_intros]:
  "keeps I (rival_line W n)" "keeps I (rival_wait W p n)" "keeps I (rival_counters W n)" "keeps I (rival_perf_new W n folder)"
  "keeps I (rival_command W t k)" "keeps I (rival_result_of W k)" "keeps I (save_secret q cfg)"
  unfolding rival_line_def rival_wait_def rival_counters_def rival_perf_new_def rival_command_def rival_result_of_def save_secret_def Let_def
  by (intro keeps_intros; simp)+

lemma keeps_rival_close [keeps_intros]: "keeps I (rival_close W k)"
  unfolding rival_close_def by (intro keeps_intros)

lemma keeps_rival_measure [keeps_intros]: "keeps I (rival_measure R a pr conc folder sp server client load)"
  unfolding rival_measure_def add_rival_def counted_side_def ensure_def Let_def by (intro keeps_intros; simp)

lemma keeps_close_rivals [keeps_intros]: "keeps I (close_rivals W)"
  unfolding close_rivals_def by (intro keeps_intros)

end

lemma rival_launch_keeps [keeps_intros]: "keeps accounted (rival_launch W folder cmd core)" "keeps (\<lambda>l. \<not> tap l) (rival_launch W folder cmd core)"
  unfolding rival_launch_def by (intro keeps_intros keeps_modify; simp)+

lemma rival_setup_keeps [keeps_intros]:
  "keeps accounted (rival_setup R a names mode conc folder cfgs bp sp cp)"
  "keeps (\<lambda>l. \<not> tap l) (rival_setup R a names mode conc folder cfgs bp sp cp)"
  unfolding rival_setup_def ready_program_def Let_def by (intro keeps_intros)+

section \<open>The final block\<close>

definition rival_close_fails :: "outside \<Rightarrow> exn \<Rightarrow> bool" where
  "rival_close_fails W e \<longleftrightarrow> (\<exists>k l l'. rival_close W k l = (Inl e, l'))"

lemma close_rivals_error: "close_rivals W l = (Inl e, l') \<Longrightarrow> rival_close_fails W e"
  unfolding close_rivals_def rival_close_fails_def by (auto simp: bnd_def gets_def dest: for_io_error)

interpretation rivalry: trial_block "end_rival W folder" "\<lambda>l. \<not> tap l" "rival_close_fails W" for W folder
proof
  fix l l' :: lab and r
  assume untapped: "\<not> tap l" and run: "end_rival W folder l = (r, l')"
  obtain rc l1 where c: "close_rivals W l = (rc, l1)" by fastforce
  have l1: "\<not> tap l1" using keepsD [OF untapped.keeps_close_rivals c] untapped by blast
  obtain l2 where s: "stop_all W l1 = (Inr (), l2)" "calmer l1 l2" "\<And>n. n < length (table l2) \<Longrightarrow> \<not> alive (process_of l2 n)"
    by (rule stop_all_run [of W l1]) blast
  let ?l = "l2\<lparr>logs := map (\<lambda>_. False) (logs l2)\<rparr>"
  have "clean ?l" using s l1 by (auto simp: clean_nth process_of_def calmer_def)
  moreover have "keeps clean (for_io [''client.json'', ''server.json''] (\<lambda>name. on_machine (on_files (unlink True (folder @ [name])))))"
    by (intro keeps_intros)
  ultimately have "clean l'" if "rc = Inr ()"
    using run c s(1) that by (auto simp: end_rival_def seq_def [of "close_rivals W"] seq_def [of "stop_all W"] seq_def [of close_logs] bnd_def close_logs_run
        dest: keepsD)
  moreover have "r = Inl e \<and> rival_close_fails W e" if "rc = Inl e" for e
    using run c that close_rivals_error by (auto simp: end_rival_def seq_def bnd_def)
  ultimately show "clean l' \<or> (\<exists>e. r = Inl e \<and> rival_close_fails W e)" by (cases rc) auto
next
  show "keeps accounted (end_rival W folder)" unfolding end_rival_def by (intro keeps_intros)
qed

lemma on_machine_Inr_iff: "on_machine m l = (Inr x, l') \<longleftrightarrow> (\<exists>h. m (machine l) = (Inr x, h) \<and> l' = l\<lparr>machine := h\<rparr>)"
  by (auto simp: on_machine_def split: prod.splits)

lemma unlink_keeps_none: "unlink ok p fs = (r, fs') \<Longrightarrow> lookup fs q = None \<Longrightarrow> lookup fs' q = None"
  by (auto simp: unlink_def lookup_del split: option.splits node.splits if_splits)

lemma end_rival_gone:
  assumes "end_rival W folder l = (Inr u, l')"
  shows "lookup (files (machine l')) (folder @ [''client.json'']) = None" "lookup (files (machine l')) (folder @ [''server.json'']) = None"
proof -
  from assms obtain h1 h2 h3 where u: "on_files (unlink True (folder @ [''client.json''])) h1 = (Inr (), h2)"
    "on_files (unlink True (folder @ [''server.json''])) h2 = (Inr (), h3)" "machine l' = h3"
    by (auto simp: end_rival_def seq_Inr_iff on_machine_Inr_iff ret_iff)
  then obtain fs2 fs3 where f: "unlink True (folder @ [''client.json'']) (files h1) = (Inr (), fs2)" "files h2 = fs2"
    "unlink True (folder @ [''server.json'']) fs2 = (Inr (), fs3)" "files h3 = fs3"
    by (auto simp: on_files_Inr_iff)
  have "lookup fs2 (folder @ [''client.json'']) = None" by (rule unlink_gone [OF f(1)])
  then show "lookup (files (machine l')) (folder @ [''client.json'']) = None"
    using unlink_keeps_none [OF f(3)] f(4) u(3) by simp
  show "lookup (files (machine l')) (folder @ [''server.json'']) = None"
    using unlink_gone [OF f(3)] f(4) u(3) by simp
qed

text \<open>What closing a counter leaves.\<close>

lemma keeps_frame [keeps_intros]:
  "keeps (\<lambda>l. counters l = cs \<and> table l = t \<and> length (perfs l) = n) (on_machine m)"
  "keeps (\<lambda>l. counters l = cs \<and> table l = t \<and> length (perfs l) = n) (ask x g)"
  "keeps (\<lambda>l. counters l = cs \<and> table l = t \<and> length (perfs l) = n) (set_perf k f)"
  by (auto simp: keeps_def on_machine_def ask_def noted_def set_perf_def io_simps split: prod.splits)

lemma interrupt_run: "interrupt_perf W k l = (Inr u, l') \<Longrightarrow> k < length (perfs l) \<Longrightarrow> \<not> perf_runs (perfs l' ! k) \<and> length (perfs l') = length (perfs l)"
  by (auto simp: interrupt_perf_def ask_def noted_def set_perf_def on_machine_def io_simps split: if_splits prod.splits sum.splits)

lemma rival_close_run:
  assumes "rival_close W k l = (Inr (), l')" and "k < length (perfs l)"
  shows "counters l' = counters l \<and> table l' = table l \<and> \<not> cf_open (perfs l' ! k) \<and> \<not> perf_runs (perfs l' ! k) \<and> k < length (perfs l')"
proof -
  have "keeps (\<lambda>l'. counters l' = counters l \<and> table l' = table l \<and> length (perfs l') = length (perfs l)) (rival_close W k)"
    unfolding rival_close_def interrupt_perf_def close_pipe_def by (intro keeps_intros)
  from keepsD [OF this assms(1)] have kept: "counters l' = counters l" "table l' = table l" "length (perfs l') = length (perfs l)" by simp_all
  obtain u l1 where i: "interrupt_perf W k l = (Inr u, l1)"
    and rest: "seq (close_pipe k cf_open (\<lambda>c. c\<lparr>cf_open := False\<rparr>))
     (seq (close_pipe k af_open (\<lambda>c. c\<lparr>af_open := False\<rparr>))
     (seq (bnd (gets (\<lambda>l. perfs l ! k)) (\<lambda>c. on_machine (on_files (unlink False (rival_ctl c)))))
     (seq (bnd (gets (\<lambda>l. perfs l ! k)) (\<lambda>c. on_machine (on_files (unlink False (rival_ack c)))))
     (set_perf k (\<lambda>c. c\<lparr>perf_log := False\<rparr>))))) l1 = (Inr (), l')"
    using assms(1) unfolding rival_close_def by (subst (asm) seq_Inr_iff) blast
  from interrupt_run [OF i assms(2)] rest assms(2) have "\<not> cf_open (perfs l' ! k) \<and> \<not> perf_runs (perfs l' ! k)"
    by (auto simp: seq_Inr_iff bnd_Inr_iff on_machine_Inr_iff close_pipe_def set_perf_def gets_def modify_def raise_def split: if_splits)
  then show ?thesis using kept assms(2) by simp
qed

section \<open>Secrets\<close>

lemma sextet_alphabet: "sextet n \<in> set b64_alphabet"
proof -
  have "length b64_alphabet = 64" by (simp add: b64_alphabet_def)
  then show ?thesis unfolding sextet_def by (intro nth_mem) simp
qed

lemma b64encode_shape:
  "\<exists>body k. b64encode bs = body @ replicate k (CHR ''='') \<and> set body \<subseteq> set b64_alphabet \<and> length body = (4 * length bs + 2) div 3"
proof (induction bs rule: b64encode.induct)
  case (2 a)
  show ?case by (rule exI [of _ "butlast (butlast (b64encode [a]))"], rule exI [of _ 2]) (simp add: Let_def sextet_alphabet numeral_2_eq_2)
next
  case (3 a b)
  show ?case by (rule exI [of _ "butlast (b64encode [a, b])"], rule exI [of _ 1]) (simp add: Let_def sextet_alphabet)
next
  case (4 a b c bs)
  from "4.IH" [OF refl] obtain body k where "b64encode bs = body @ replicate k (CHR ''='')" "set body \<subseteq> set b64_alphabet" "length body = (4 * length bs + 2) div 3"
    by blast
  then show ?case
    by (intro exI [of _ "take 4 (b64encode (a # b # c # bs)) @ body"] exI [of _ k]) (simp add: Let_def sextet_alphabet)
qed simp

lemma rstrip_body: "c \<notin> set body \<Longrightarrow> rev (dropWhile (\<lambda>x. x = c) (rev (body @ replicate k c))) = body"
proof -
  assume "c \<notin> set body"
  then have "dropWhile (\<lambda>x. x = c) (rev body) = rev body" by (cases body rule: rev_cases) auto
  moreover have "dropWhile (\<lambda>x. x = c) (replicate k c @ rev body) = dropWhile (\<lambda>x. x = c) (rev body)" by (induction k) simp_all
  ultimately show ?thesis by simp
qed

lemma secret_text_shape: "set (secret_text bs) \<subseteq> set b64_alphabet" "length (secret_text bs) = (4 * length bs + 2) div 3"
proof -
  obtain body k where b: "b64encode bs = body @ replicate k (CHR ''='')" "set body \<subseteq> set b64_alphabet" "length body = (4 * length bs + 2) div 3"
    using b64encode_shape by blast
  have "CHR ''='' \<notin> set b64_alphabet" by (simp add: b64_alphabet_def)
  with b(2) have "CHR ''='' \<notin> set body" by blast
  then have "secret_text bs = body" unfolding secret_text_def b(1) by (rule rstrip_body)
  then show "set (secret_text bs) \<subseteq> set b64_alphabet" "length (secret_text bs) = (4 * length bs + 2) div 3" using b by simp_all
qed

section \<open>Results and entries\<close>

definition rival_ok :: "nat \<times> string \<times> string \<times> nat \<Rightarrow> rival_result \<Rightarrow> bool" where
  "rival_ok ijob r \<longleftrightarrow> rival_pair r = fst (snd ijob) \<and> py_int (drop 1 (fst (snd (snd ijob)))) = Inr (concurrency r)"

definition entry_ok :: "rival_result list \<Rightarrow> string \<times> string \<Rightarrow> rival_entry \<Rightarrow> bool" where
  "entry_ok results pm e \<longleftrightarrow> entry_pair e = fst pm \<and> entry_mode e = snd pm \<and>
     samples e = length (filter (\<lambda>r. same_case (fst pm) (snd pm) r = Inr True) results) \<and> 0 < samples e"

lemma finish_rival_case: "finish_rival printed_row pr conc sessions s c = Inr r \<Longrightarrow> rival_pair r = pr \<and> concurrency r = conc"
  by (auto simp: finish_rival_def Let_def bind_res_Inr_iff)

lemma rival_measure_yields: "yields (\<lambda>r. rival_pair r = pr \<and> concurrency r = conc) (rival_measure R a pr conc folder sp server client load)"
  unfolding rival_measure_def Let_def
  by (intro yields_last yields_seq yields_unless) (simp add: yields_lift finish_rival_case)

lemma rival_trial_yields: "yields (\<lambda>r. rival_pair r = pr \<and> concurrency r = conc) (rival_trial R show a pr mode conc folder cert key)"
proof -
  have "yields (\<lambda>r. rival_pair r = pr \<and> concurrency r = conc) (case p of (server, client, load) \<Rightarrow>
      bnd (rival_measure R a pr conc folder sp server client load) (\<lambda>result. seq (k result) (ret result)))" for p sp and k :: "rival_result \<Rightarrow> (lab, unit) io"
    by (cases p) (auto intro!: yields_bnd [OF rival_measure_yields] yields_seq simp: yields_ret)
  then show ?thesis unfolding rival_trial_def Let_def by (intro yields_last yields_seq yields_finally)
qed

lemma rival_loop_yields:
  "yields (\<lambda>out. \<exists>new. out = results @ new \<and> list_all2 rival_ok (enumerate i jobs) new) (rival_loop R show a cert key i jobs results)"
proof (induction jobs arbitrary: i results)
  case (Cons job jobs)
  have parts: "mode_parts mode = Inr mc \<Longrightarrow> py_int (drop 1 mode) = Inr (snd mc)" for mode mc by (auto simp: mode_parts_def bind_res_Inr_iff)
  show ?case
    unfolding rival_loop.simps
    by (rule yields_lift_bnd, rule yields_seq, rule yields_bnd [OF rival_trial_yields], rule loop_step [OF Cons.IH]) (simp add: rival_ok_def parts [simplified])
qed (simp add: yields_ret)

lemma case_rows_exact: "case_rows pr mode rs = Inr out \<Longrightarrow> out = filter (\<lambda>r. same_case pr mode r = Inr True) rs"
proof -
  have "map_res (\<lambda>r. bind_res (same_case pr mode r) (\<lambda>b. Inr (r, b))) rs = Inr rbs \<Longrightarrow>
      map fst (filter snd rbs) = filter (\<lambda>r. same_case pr mode r = Inr True) rs" for rbs
    by (induction rs arbitrary: rbs) (auto simp: bind_res_Inr_iff)
  then show "case_rows pr mode rs = Inr out \<Longrightarrow> ?thesis" by (auto simp: case_rows_def bind_res_Inr_iff)
qed

lemma rival_entry_exact: "rival_entry_of results pm = Inr e \<Longrightarrow> entry_ok results pm e"
proof -
  assume "rival_entry_of results pm = Inr e"
  then obtain rs sc where rs: "case_rows (fst pm) (snd pm) results = Inr rs" "median (map (\<lambda>r. side_cpu (server_side r)) rs) = Inr sc"
    "entry_pair e = fst pm" "entry_mode e = snd pm" "samples e = length rs"
    by (auto simp: rival_entry_of_def bind_res_Inr_iff)
  moreover have "rs \<noteq> []" using rs(2) by (auto simp: median_def)
  ultimately show ?thesis using case_rows_exact [OF rs(1)] by (simp add: entry_ok_def)
qed

text \<open>A bench with one process and one counter, whose \<open>perf\<close> has ended.\<close>

definition counted_lab :: lab where
  "counted_lab = (new_lab \<lparr>files = [([''t''], Dir), ([''t'', ''ctl''], File (Bytes []) mode_644), ([''t'', ''ack''], File (Bytes []) mode_644)], ran = []\<rparr>)
     \<lparr>table := [([''veil-rust''], \<lparr>alive = True, heeds_term = True, signals = []\<rparr>)],
      perfs := [\<lparr>perf_folder = [''t''], cf_open = True, af_open = True, perf_log = True, perf_runs = True\<rparr>], counters := [0]\<rparr>"

definition ended_perf :: outside where
  "ended_perf = sample_outside\<lparr>perf_ended := \<lambda>_ _. True\<rparr>"

section \<open>Theorems\<close>


text \<open>
  C36. A counter that was closed but whose result cannot be read is closed again by the final block, which fails: the processes of the trial are left as they
  were and the configurations with the secret stay where they are.
\<close>

theorem unread_counter_leaves_processes:
  assumes "counters l = k # ks" and "k < length (perfs l)" and "rival_close W k l = (Inr (), l1)" and "rival_result_of W k l1 = (Inl e, l2)"
  shows "\<exists>l3. end_rival W folder l2 = (Inl ebadf, l3) \<and> table l3 = table l \<and> files (machine l3) = files (machine l2)"
proof -
  have l1: "counters l1 = k # ks" "table l1 = table l" "\<not> cf_open (perfs l1 ! k)" "\<not> perf_runs (perfs l1 ! k)" "k < length (perfs l1)"
    using rival_close_run [OF assms(3,2)] assms(1) by simp_all
  have l2: "counters l2 = counters l1" "table l2 = table l1" "perfs l2 = perfs l1"
    using assms(4) by (auto simp: rival_result_of_def ask_def noted_def Let_def io_simps split: sum.splits if_splits option.splits)
  then show ?thesis
    using l1 by (auto simp: end_rival_def close_rivals_def rival_close_def interrupt_perf_def close_pipe_def set_perf_def ask_def noted_def io_simps)
qed

theorem unread_counter_leaves_processes_witness:
  "\<exists>l3. end_rival ended_perf [''run''] (snd (rival_result_of ended_perf 0 (snd (rival_close ended_perf 0 counted_lab)))) = (Inl ebadf, l3) \<and>
     alive (process_of l3 0)"
proof -
  have c: "fst (rival_close ended_perf 0 counted_lab) = Inr ()"
    by (simp add: rival_close_def interrupt_perf_def close_pipe_def set_perf_def ended_perf_def sample_outside_def counted_lab_def new_lab_def
        rival_ctl_def rival_ack_def ask_def noted_def on_machine_def on_files_def unlink_def lookup_def del_def io_simps)
  have r: "fst (rival_result_of ended_perf 0 l) = Inl enoent" for l
    by (simp add: rival_result_of_def ended_perf_def sample_outside_def ask_def noted_def io_simps)
  from c obtain l1 where l1: "rival_close ended_perf 0 counted_lab = (Inr (), l1)" by (metis prod.collapse)
  from r [of l1] obtain l2 where l2: "rival_result_of ended_perf 0 l1 = (Inl enoent, l2)" by (metis prod.collapse)
  have "counters counted_lab = [0]" "0 < length (perfs counted_lab)" by (simp_all add: counted_lab_def)
  from unread_counter_leaves_processes [OF this l1 l2, of "[''run'']"] obtain l3 where
    l3: "end_rival ended_perf [''run''] l2 = (Inl ebadf, l3)" "table l3 = table counted_lab" by blast
  have "alive (process_of l3 0)" by (simp add: process_of_def l3(2)) (simp add: counted_lab_def)
  then show ?thesis unfolding l1 l2 snd_conv using l3(1) by blast
qed

text \<open>
  A comparison that returns has one result for each combination of pair, mode and repetition, in the order of the shuffle, with the pair and the concurrency of its job,
  and one entry of the summary for each pair and mode, made of exactly the results with that pair, mode and concurrency.
\<close>

theorem rival_main_rows:
  "case rival_main R show show_all date shuffle tmp a l of
     (Inl e, l') \<Rightarrow> True
   | (Inr (results, summary), l') \<Rightarrow>
       list_all2 rival_ok (enumerate 0 (shuffle (rival_jobs a))) results \<and>
       list_all2 (entry_ok results) (List.product (rival_pairs a) (rival_modes a)) summary"
proof (rule yields_case_pair)
  have runs: "yields (list_all2 rival_ok (enumerate 0 (shuffle (rival_jobs a)))) (rival_runs R show shuffle tmp a)"
    unfolding rival_runs_def lab_temp_def Let_def case_prod_beta
    by (intro yields_last yields_unless yields_seq yields_finally) (rule yields_mono [OF rival_loop_yields], simp)
  have entries: "list_all2 (entry_ok results) (List.product (rival_pairs a) (rival_modes a)) summary" if "rival_summary a results = Inr summary" for results summary
    using that unfolding rival_summary_def map_res_all2 by (rule list_all2_mono) (rule rival_entry_exact)
  show "yields (\<lambda>(results, summary). list_all2 rival_ok (enumerate 0 (shuffle (rival_jobs a))) results \<and>
      list_all2 (entry_ok results) (List.product (rival_pairs a) (rival_modes a)) summary) (rival_main R show show_all date shuffle tmp a)"
    unfolding rival_main_def
    by (intro yields_seq, rule yields_bnd [OF runs], rule yields_lift_bnd, rule yields_seq) (simp add: yields_ret entries)
qed

end
