(* ===== verification/Services.thy ===== *)
theory Services
  imports Rivals
begin

text \<open>
  Programs that run the service and the proxies end to end: the demonstration \<^verbatim>\<open>veil-core/scripts/demo.py\<close>, the comparison of the service with the
  command line, \<^verbatim>\<open>veil-service/scripts/regression.py\<close>, and the smoke test of the daemon, \<^verbatim>\<open>veil-service/scripts/smoke.py\<close>. The daemon and its controller answer
  through a record of functions of the past, as the rest of the outside does, and may change files.
\<close>

section \<open>\<^verbatim>\<open>demo.py\<close>\<close>

definition demo_read :: "nat \<Rightarrow> (conn, bytes) io" where
  "demo_read n = collect recv (EOFError ''truncated SOCKS reply'') n []"

definition demo_handshake :: "nat \<Rightarrow> (conn, unit) io" where
  "demo_handshake coverp =
     seq (sendall [5, 1, 0])
     (bnd (demo_read 2) (\<lambda>r.
     seq (ensure (r = [5, 0]))
     (bnd (lift_res (to_port coverp)) (\<lambda>p.
     seq (sendall ([5, 1, 0, 1, 127, 0, 0, 1] @ p))
     (bnd (demo_read 10) (\<lambda>r.
     bnd (lift_res (Prelude.at r 1)) (\<lambda>b. ensure (b = 0))))))))"

text \<open>The response: everything up to the end of the stream.\<close>

lemma recv_shrinks:
  assumes "recv (Suc n) c = (Inr part, c')" and "part \<noteq> []"
  shows "length (available (arrives c')) < length (available (arrives c))"
proof (cases "available (arrives c) = []")
  case True
  then have "part = [] \<or> False"
    using assms(1) sock.over [of c "Suc n"] sock.broken [of c _ "Suc n"] by (cases "ending (arrives c)") auto
  with assms(2) show ?thesis by simp
next
  case False
  then show ?thesis using sock.more [of "Suc n" c] assms by auto
qed

function drain :: "bytes \<Rightarrow> conn \<Rightarrow> bytes res \<times> conn" where
  "drain data c =
     (case recv 65536 c of
        (Inl e, c') \<Rightarrow> (Inl e, c')
      | (Inr part, c') \<Rightarrow> if part = [] then (Inr data, c') else drain (data @ part) c')"
  by pat_completeness auto
termination
  by (relation "measure (\<lambda>(data, c). length (available (arrives c)))") (auto dest!: recv_shrinks [of 65535, simplified] simp: eq_commute [of _ "recv _ _"])

declare drain.simps [simp del]

definition demo_request :: bytes where
  "demo_request =
     map of_char (''GET / HTTP/1.1'' @ [CHR 13, nl] @ ''Host: cover.test'' @ [CHR 13, nl] @ ''Connection: close'' @ [CHR 13, nl, CHR 13, nl])"

text \<open>\<open>data.split(b"\r\n")[0].decode()\<close>\<close>

definition response_line :: "bytes \<Rightarrow> string res" where
  "response_line data =
     (let b = (case find_sub [13, 10] data of None \<Rightarrow> data | Some i \<Rightarrow> take i data); s = map (\<lambda>w. char_of (unat w)) b in
      if utf8_ok s then Inr s else Inl (ValueError ''invalid UTF-8''))"

definition demo_get :: "(conn, string \<times> nat) io" where
  "demo_get =
     seq (sendall demo_request)
     (bnd (drain []) (\<lambda>data.
     bnd (lift_res (response_line data)) (\<lambda>status.
     seq (ensure (contains ''200'' status)) (ret (status, length data)))))"

text \<open>\<open>wrap\<close> is the TLS handshake on the connection, with the certificate of the target checked; it gives the connection inside.\<close>

definition demo_fetch :: "net \<Rightarrow> (conn \<Rightarrow> act list \<Rightarrow> conn res) \<Rightarrow> int \<Rightarrow> int \<Rightarrow> (lab, string \<times> nat) io" where
  "demo_fetch N wrap cp coverp =
     bnd (ask (Connected cp) (dial N cp)) (\<lambda>r.
     bnd (lift_res r) (\<lambda>raw.
     case demo_handshake (nat coverp) raw of
       (Inl e, raw') \<Rightarrow> raise e
     | (Inr u, raw') \<Rightarrow>
         bnd (ask (Connected coverp) (wrap raw')) (\<lambda>r.
         bnd (lift_res r) (\<lambda>c. lift_res (fst (try_finally demo_get close_conn c))))))"

text \<open>The final block of these programs: the processes, the last one first, then the logs.\<close>

definition end_service :: "outside \<Rightarrow> (lab, unit) io" where
  "end_service W = seq (stop_all W) close_logs"

definition demo_body :: "net \<Rightarrow> (conn \<Rightarrow> act list \<Rightarrow> conn res) \<Rightarrow> keys_of \<Rightarrow> (lab, string \<times> nat) io" where
  "demo_body N wrap f =
     (let W = bench N; folder = fixture_folder f in
      bnd (port W) (\<lambda>coverp. bnd (port W) (\<lambda>sp. bnd (port W) (\<lambda>cp.
      bnd (launch W folder (s_server f coverp ''TLS_AES_128_GCM_SHA256'') [] 1) (\<lambda>cover.
      seq (lab_wait_port W coverp cover)
      (bnd (on_machine (configurations (lab_site W) f ''veil-opt-reality'' sp cp coverp)) (\<lambda>(sc, cc).
      bnd (launch W folder sc [] 1) (\<lambda>server.
      seq (lab_wait_port W sp server)
      (bnd (launch W folder cc [] 1) (\<lambda>client.
      seq (lab_wait_port W cp client)
      (demo_fetch N wrap cp coverp)))))))))))"

definition demo_main :: "net \<Rightarrow> (conn \<Rightarrow> act list \<Rightarrow> conn res) \<Rightarrow> (lab, string \<times> nat) io" where
  "demo_main N wrap =
     bnd (on_machine (fixture (lab_site (bench N)) (core_root (lab_site (bench N)) @ [''.build'', ''demo'']) False)) (\<lambda>f.
     try_finally (demo_body N wrap f) (end_service (bench N)))"

section \<open>\<^verbatim>\<open>regression.py\<close>\<close>

record service_run =
  cli_path :: path
  daemon_path :: path
  service_peer :: path
  service_out :: path
  service_work :: regression_options
  service_args :: json

definition service_guards :: "int set \<Rightarrow> bool \<Rightarrow> regression_options \<Rightarrow> unit res" where
  "service_guards affinity isolated a =
     bind_res (guard isolated (UsageError ''requires a private network namespace with VEIL_ISOLATED_NETNS=1'')) (\<lambda>_.
     bind_res (guard (length (cores a) = 4 \<and> distinct (cores a) \<and> set (cores a) \<subseteq> affinity)
       (UsageError ''select four available distinct CPUs'')) (\<lambda>_.
     guard (1 \<le> reps a \<and> 1 \<le> payload_bytes a \<and> 1 \<le> rounds a) (UsageError ''workload values must be positive'')))"

text \<open>The wrapper that makes the daemon look like the command-line program; \<open>repr\<close> is that of a \<open>str\<close>.\<close>

definition wrapper_text :: "(string \<Rightarrow> string) \<Rightarrow> path \<Rightarrow> path \<Rightarrow> string" where
  "wrapper_text repr temp daemon =
     join [nl]
       [''#!/usr/bin/env python3'', ''import os, pathlib, shutil, sys'',
        ''assert len(sys.argv)==3 and sys.argv[1]=='' @ [CHR 39] @ ''-config'' @ [CHR 39],
        ''cfg=pathlib.Path(sys.argv[2])'',
        ''state=pathlib.Path('' @ repr (str temp) @ '') / cfg.stem'',
        ''state.mkdir(mode=0o700,exist_ok=True)'',
        ''shutil.copyfile(cfg,state/'' @ [CHR 39] @ ''config.json'' @ [CHR 39] @ '')'',
        ''(state/'' @ [CHR 39] @ ''config.json'' @ [CHR 39] @ '').chmod(0o600)'',
        ''os.execv('' @ repr (str daemon) @ '', ['' @ repr (str daemon) @ '', '' @ [CHR 39] @ ''-state-dir'' @ [CHR 39] @ '', str(state), '' @
          [CHR 39] @ ''-socket'' @ [CHR 39] @ '', str(state/'' @ [CHR 39] @ ''control.sock'' @ [CHR 39] @ ''), '' @
          [CHR 39] @ ''-autostart'' @ [CHR 39] @ ''])'', []]"

text \<open>The trials: both programs against each other, then for each repetition and mode both alone. The programs of a group: server, client.\<close>

definition managed_trials :: "(nat \<Rightarrow> string list \<Rightarrow> string list) \<Rightarrow> nat \<Rightarrow> string list \<Rightarrow> (string \<times> string \<times> int) list" where
  "managed_trials shuffle turns ms =
     [(''cli-client-managed-server'', ''S'', -1), (''managed-client-cli-server'', ''S'', -1)] @ paired_trials shuffle turns ms"

definition managed_binaries :: "path \<Rightarrow> path \<Rightarrow> string \<Rightarrow> path \<times> path" where
  "managed_binaries cli wrapper g =
     (if g = ''cli-client-managed-server'' then (wrapper, cli)
      else if g = ''managed-client-cli-server'' then (cli, wrapper)
      else if g = ''before'' then (cli, cli) else (wrapper, wrapper))"

primrec managed_loop ::
  "outside \<Rightarrow> (row \<Rightarrow> string) \<Rightarrow> (job_row list \<Rightarrow> string) \<Rightarrow> keys_of \<Rightarrow> service_run \<Rightarrow> path \<Rightarrow> (string \<times> string \<times> int) list \<Rightarrow> job_row list \<Rightarrow>
   (lab, job_row list) io" where
  "managed_loop W show show_all f a wrapper [] rows = ret rows"
| "managed_loop W show show_all f a wrapper (job # jobs) rows =
     (case job of (g, m, p) \<Rightarrow>
      let bins = managed_binaries (cli_path a) wrapper g in
      seq fresh_lists
      (bnd (regression_trial W show f (str (fst bins), str (snd bins)) (str (service_peer a)) m
          (if p = -1 then 0 else payload_bytes (service_work a)) (if p = -1 then 100 else rounds (service_work a))
          (service_out a @ [pad3 (length rows) @ ''-'' @ g @ ''-'' @ m])
          (\<lambda>i. dec_int (cores (service_work a) ! i)) True) (\<lambda>r.
      let rows = rows @ [(job, dict_update r [(''group'', Text g), (''pair'', Num (of_int p))])] in
      seq (on_machine (write_file (service_out a @ [''results.json'']) (show_all rows @ [nl])))
      (managed_loop W show show_all f a wrapper jobs rows))))"

definition service_metadata :: "site \<Rightarrow> service_run \<Rightarrow> (host, json) io" where
  "service_metadata S a =
     bnd (map_io (\<lambda>p. bnd (read_digest S p) (\<lambda>d. ret (str p, JStr d))) [cli_path a, daemon_path a, service_peer a]) (\<lambda>bd.
     ret (JObj [(''args'', service_args a), (''gomaxprocs'', JInt 1), (''cores'', JArr (map JInt (cores (service_work a)))),
       (''binaries'', JObj (dict_update [] bd))]))"

definition managed_runs ::
  "outside \<Rightarrow> (string \<Rightarrow> string) \<Rightarrow> (row \<Rightarrow> string) \<Rightarrow> (job_row list \<Rightarrow> string) \<Rightarrow> (nat \<Rightarrow> string list \<Rightarrow> string list) \<Rightarrow> path \<Rightarrow> keys_of \<Rightarrow> service_run \<Rightarrow>
   (lab, job_row list) io" where
  "managed_runs W repr show show_all shuffle tmp f a =
     lab_temp W ''veil-managed-'' tmp (\<lambda>temp.
       let wrapper = temp @ [''wrapper''] in
       seq (on_machine (write_file wrapper (wrapper_text repr temp (daemon_path a))))
       (seq (on_machine (on_files (chmod wrapper 448)))
       (managed_loop W show show_all f a wrapper (managed_trials shuffle (nat (reps (service_work a))) (modes_arg (service_work a))) [])))"

definition service_regression ::
  "outside \<Rightarrow> int set \<Rightarrow> bool \<Rightarrow> (string \<Rightarrow> string) \<Rightarrow> (row \<Rightarrow> string) \<Rightarrow> (job_row list \<Rightarrow> string) \<Rightarrow> ((string \<times> (string \<times> delta) list) list \<Rightarrow> string) \<Rightarrow>
   (nat \<Rightarrow> string list \<Rightarrow> string list) \<Rightarrow> path \<Rightarrow> service_run \<Rightarrow> (lab, job_row list \<times> (string \<times> (string \<times> delta) list) list) io" where
  "service_regression W affinity isolated repr show show_all show_summary shuffle tmp a =
     bnd (lift_res (service_guards affinity isolated (service_work a))) (\<lambda>_.
     seq (on_machine (on_files (mkdir_new (service_out a))))
     (seq (on_machine (bnd (service_metadata (lab_site W) a) (\<lambda>m. write_file (service_out a @ [''metadata.json'']) (dumps (Some 2) m @ [nl]))))
     (bnd (on_machine (fixture (lab_site W) (service_out a @ [''fixture'']) False)) (\<lambda>f.
     bnd (lift_res (guard (set (modes_arg (service_work a)) \<subseteq> {''U'', ''D'', ''E'', ''S''}) (UsageError ''unknown workload''))) (\<lambda>_.
     bnd (managed_runs W repr show show_all shuffle tmp f a) (\<lambda>rows.
     bnd (lift_res (bind_res (map_res trial_row_of rows) (\<lambda>ts. comparison ts (modes_arg (service_work a))))) (\<lambda>summary.
     seq (on_machine (write_file (service_out a @ [''summary.json'']) (show_summary summary @ [nl])))
     (ret (rows, summary)))))))))"

section \<open>\<^verbatim>\<open>smoke.py\<close>\<close>

text \<open>
  The daemon and its controller: what a call of the controller prints, what a second daemon on the same state answers (its status and its error output), what the
  daemons have made of the files so far, and connections to an address.
\<close>

record service_world =
  stage :: outside
  ctl_run :: "string list \<Rightarrow> string \<Rightarrow> act list \<Rightarrow> string res"
  second_daemon :: "string list \<Rightarrow> act list \<Rightarrow> (int \<times> string) res"
  daemon_files :: "act list \<Rightarrow> fs \<Rightarrow> fs"
  dial_at :: "string \<Rightarrow> int \<Rightarrow> act list \<Rightarrow> conn res"

record smoke_place =
  bin_dir :: path
  state_dir :: path
  control :: path

definition daemons_work :: "service_world \<Rightarrow> (lab, unit) io" where
  "daemons_work D = bnd (gets past) (\<lambda>acts. on_machine (on_files (modify (daemon_files D acts))))"

text \<open>Whether a file is there, after what the daemons have done.\<close>

definition seen :: "service_world \<Rightarrow> path \<Rightarrow> (lab, bool) io" where
  "seen D p = seq (daemons_work D) (gets (\<lambda>l. exists (files (machine l)) p))"

definition daemon_command :: "smoke_place \<Rightarrow> string list" where
  "daemon_command C = [str (bin_dir C @ [''veild'']), ''-state-dir'', str (state_dir C), ''-socket'', str (control C)]"

text \<open>The answer of the controller: no \<open>error\<close> in it, and its \<open>status\<close>.\<close>

definition ctl_status :: "json \<Rightarrow> json res" where
  "ctl_status v =
     bind_res (case v of
        JObj ms \<Rightarrow> Inr (map_of ms ''error'' \<noteq> None)
      | JArr vs \<Rightarrow> Inr (JStr ''error'' \<in> set vs)
      | JStr t \<Rightarrow> Inr (contains ''error'' t)
      | _ \<Rightarrow> Inl type_error) (\<lambda>bad.
     if bad then Inl (AssertionError (dumps None v)) else jget ''status'' v)"

definition veilctl :: "service_world \<Rightarrow> smoke_place \<Rightarrow> string \<Rightarrow> json option \<Rightarrow> (lab, json) io" where
  "veilctl D C action cfg =
     (let args = [str (bin_dir C @ [''veilctl'']), ''-socket'', str (control C)] @ (if cfg \<noteq> None then [''-config'', ''-''] else []) @ [action];
          input = (case cfg of None \<Rightarrow> [] | Some c \<Rightarrow> if truthy c then dumps None c else []) in
      bnd (ask (Called args) (ctl_run D args input)) (\<lambda>r.
      seq (daemons_work D)
      (bnd (lift_res r) (\<lambda>out. lift_res (bind_res (loads out) ctl_status)))))"

definition is_retried :: "exn \<Rightarrow> bool" where
  "is_retried e = (case e of OSError m \<Rightarrow> True | TimeoutError m \<Rightarrow> True | CalledProcessError c \<Rightarrow> True | _ \<Rightarrow> False)"

primrec startup :: "service_world \<Rightarrow> smoke_place \<Rightarrow> nat \<Rightarrow> nat \<Rightarrow> (lab, unit) io" where
  "startup D C n 0 = raise (TimeoutError ''daemon did not start'')"
| "startup D C n (Suc k) =
     seq (lab_poll (stage D) n)
     (bnd (gets (\<lambda>l. alive (process_of l n))) (\<lambda>up.
     if \<not> up then raise (RuntimeError ''daemon exited during startup'')
     else bnd (try_except (seq (veilctl D C ''status'' None) (ret True)) is_retried (\<lambda>_. ret False)) (\<lambda>ok.
          if ok then ret () else startup D C n k)))"

definition launch_daemon :: "service_world \<Rightarrow> smoke_place \<Rightarrow> bool \<Rightarrow> (lab, nat) io" where
  "launch_daemon D C autostart =
     bnd (lab_popen (stage D) (daemon_command C @ (if autostart then [''-autostart''] else [])) (environ (lab_site (stage D)))) (\<lambda>n.
     seq (daemons_work D) (seq (startup D C n 100) (ret n)))"

text \<open>\<open>terminate()\<close> and \<open>kill()\<close> signal a process that still runs.\<close>

definition signal_process :: "outside \<Rightarrow> nat \<Rightarrow> string \<Rightarrow> (lab, unit) io" where
  "signal_process W n s =
     seq (lab_poll W n) (set_process n (\<lambda>p. if alive p then p\<lparr>signals := signals p @ [s]\<rparr> else p))"

definition assert_io :: "bool \<Rightarrow> string \<Rightarrow> ('w, unit) io" where
  "assert_io b m = (if b then ret () else raise (AssertionError m))"

definition expect_state :: "service_world \<Rightarrow> smoke_place \<Rightarrow> string \<Rightarrow> json option \<Rightarrow> string \<Rightarrow> string \<Rightarrow> (lab, json) io" where
  "expect_state D C action cfg want m =
     bnd (veilctl D C action cfg) (\<lambda>st.
     bnd (lift_res (jget ''state'' st)) (\<lambda>v. seq (assert_io (v = JStr want) m) (ret st)))"

definition expect_exit :: "outside \<Rightarrow> nat \<Rightarrow> (lab, unit) io" where
  "expect_exit W n = seq (signal_process W n ''TERM'') (bnd (wait_exit W n) (\<lambda>rc. assert_io (rc = 0) []))"

definition smoke_config :: "string \<Rightarrow> (string \<times> json) list" where
  "smoke_config listen =
     [(''role'', JStr ''client''), (''listen'', JStr listen), (''server'', JStr ''127.0.0.1:9''),
      (''secret'', JStr (secret_text (map of_nat [0..<32]))),
      (''tls'', JObj [(''mode'', JStr ''tls''), (''server_name'', JStr ''cover.test'')])]"

text \<open>\<open>status["listen"].split(":")\<close>\<close>

definition listen_address :: "json \<Rightarrow> (string \<times> int) res" where
  "listen_address st =
     bind_res (jget ''listen'' st) (\<lambda>v.
     case v of
       JStr t \<Rightarrow> (let parts = split_char CHR '':'' t in
                  bind_res (Prelude.at parts 0) (\<lambda>host_text. bind_res (bind_res (Prelude.at parts 1) py_int) (\<lambda>p. Inr (host_text, p))))
     | _ \<Rightarrow> Inl type_error)"

definition required :: "json \<Rightarrow> bool res" where
  "required st = bind_res (jget ''restart_required'' st) (\<lambda>v. Inr (truthy v))"

definition same_listen :: "json \<Rightarrow> json \<Rightarrow> bool res" where
  "same_listen a b = bind_res (jget ''listen'' a) (\<lambda>x. bind_res (jget ''listen'' b) (\<lambda>y. Inr (x = y)))"

text \<open>A step on a connection the script holds; an exception closes it with the \<open>with\<close> block.\<close>

definition on_conn :: "(conn, 'a) io \<Rightarrow> conn \<Rightarrow> (lab, 'a \<times> conn) io" where
  "on_conn m c = (case m c of (Inl e, c') \<Rightarrow> raise e | (Inr x, c') \<Rightarrow> ret (x, c'))"

text \<open>Saving must not disturb an open connection; restarting ends it.\<close>

definition active_checks :: "service_world \<Rightarrow> smoke_place \<Rightarrow> json \<Rightarrow> json \<Rightarrow> (lab, unit) io" where
  "active_checks D C status cfg =
     bnd (lift_res (listen_address status)) (\<lambda>(host_text, p).
     bnd (ask (Connected p) (dial_at D host_text p)) (\<lambda>r.
     bnd (lift_res r) (\<lambda>c.
     bnd (on_conn (sendall [5]) c) (\<lambda>(_, c).
     bnd (veilctl D C ''save'' (Some cfg)) (\<lambda>saved.
     bnd (lift_res (required saved)) (\<lambda>restart.
     bnd (if restart then lift_res (same_listen saved status) else ret False) (\<lambda>kept.
     seq (assert_io kept [])
     (bnd (on_conn (sendall [1, 0]) c) (\<lambda>(_, c).
     bnd (on_conn (recv 2) c) (\<lambda>(reply, c).
     seq (assert_io (reply = [5, 0]) ''save interrupted active connection'')
     (bnd (veilctl D C ''start'' None) (\<lambda>started_again.
     bnd (lift_res (required started_again)) (\<lambda>restart.
     seq (assert_io restart [])
     (bnd (veilctl D C ''restart'' None) (\<lambda>changed.
     bnd (lift_res (required changed)) (\<lambda>restart.
     seq (assert_io (\<not> restart) [])
     (bnd (on_conn (recv 1) c) (\<lambda>(reply, c).
     assert_io (reply = []) ''restart left old connection open''))))))))))))))))))"

definition control_checks :: "service_world \<Rightarrow> smoke_place \<Rightarrow> (lab, json) io" where
  "control_checks D C =
     (let cfg = smoke_config ''127.0.0.1:0''; cfg' = JObj (dict_set ''max_connections'' (JInt 65) cfg) in
      seq (expect_state D C ''validate'' (Some (JObj cfg)) ''stopped'' [])
      (bnd (seen D (state_dir C @ [''config.json''])) (\<lambda>there.
      seq (assert_io (\<not> there) [])
      (seq (expect_state D C ''save'' (Some (JObj cfg)) ''stopped'' [])
      (bnd (veilctl D C ''start'' None) (\<lambda>status.
      seq (active_checks D C status cfg') (ret cfg')))))))"

text \<open>A second daemon is refused; a killed one is replaced by one that starts by itself.\<close>

definition recovery_checks :: "service_world \<Rightarrow> smoke_place \<Rightarrow> nat \<Rightarrow> (lab, unit) io" where
  "recovery_checks D C n =
     (let W = stage D in
      bnd (ask (Called (daemon_command C)) (second_daemon D (daemon_command C))) (\<lambda>r.
      bnd (lift_res r) (\<lambda>(rc, err).
      seq (assert_io (rc \<noteq> 0 \<and> contains ''owns this state directory'' err) err)
      (seq (expect_state D C ''status'' None ''running'' [])
      (seq (signal_process W n ''KILL'')
      (seq (wait_exit W n)
      (bnd (launch_daemon D C True) (\<lambda>n.
      seq (expect_state D C ''status'' None ''running'' ''crash recovery/autostart failed'')
      (seq (expect_state D C ''stop'' None ''stopped'' [])
      (seq (expect_exit W n)
      (bnd (seen D (control C)) (\<lambda>there.
      assert_io (\<not> there) ''control socket survived normal shutdown''))))))))))))"

text \<open>With a port that is taken the daemon cannot start its proxy, but stays controllable. The listener is open meanwhile.\<close>

definition busy_checks :: "service_world \<Rightarrow> smoke_place \<Rightarrow> json \<Rightarrow> (lab, unit) io" where
  "busy_checks D C cfg =
     (let W = stage D in
      bnd (tap_open W) (\<lambda>p.
      try_finally
        (bnd (lift_res (set_key ''listen'' (JStr (local_port p)) cfg)) (\<lambda>taken.
         seq (on_machine (write_file (state_dir C @ [''config.json'']) (dumps None taken)))
         (bnd (launch_daemon D C True) (\<lambda>n.
         bnd (expect_state D C ''status'' None ''stopped'' []) (\<lambda>st.
         seq (assert_io (case st of JObj ms \<Rightarrow> (case map_of ms ''error'' of None \<Rightarrow> False | Some e \<Rightarrow> truthy e) | _ \<Rightarrow> False) [])
         (bnd (lift_res (set_key ''listen'' (JStr ''127.0.0.1:0'') taken)) (\<lambda>free.
         seq (veilctl D C ''save'' (Some free))
         (seq (expect_state D C ''start'' None ''running'' [])
         (expect_exit W n)))))))))
        tap_close))"

definition service_smoke_body :: "service_world \<Rightarrow> smoke_place \<Rightarrow> (lab, unit) io" where
  "service_smoke_body D C =
     bnd (launch_daemon D C False) (\<lambda>n.
     bnd (control_checks D C) (\<lambda>cfg.
     seq (recovery_checks D C n)
     (busy_checks D C cfg)))"

text \<open>
  The guard: the marker, and a namespace that is not the parent's, which the launcher may name. Then a temporary directory with the log.
\<close>

definition require_private :: "env \<Rightarrow> string \<Rightarrow> string \<Rightarrow> unit res" where
  "require_private env own init =
     (let e = SystemExit ''requires a private network namespace with VEIL_ISOLATED_NETNS=1'';
          parent = (case map_of env ''VEIL_PARENT_NETNS'' of None \<Rightarrow> init | Some t \<Rightarrow> if t = [] then init else t) in
      if map_of env ''VEIL_ISOLATED_NETNS'' \<noteq> Some ''1'' then Inl e
      else if own = parent then Inl e else Inr ())"

definition service_smoke :: "service_world \<Rightarrow> string \<Rightarrow> string \<Rightarrow> path \<Rightarrow> path \<Rightarrow> (lab, unit) io" where
  "service_smoke D own init bins tmp =
     (let W = stage D in
      bnd (lift_res (require_private (environ (lab_site W)) own init)) (\<lambda>_.
      lab_temp W ''veil-smoke-'' tmp (\<lambda>folder.
        seq (on_machine (on_files (write_text (folder @ [''daemon.log'']) [])))
        (seq (modify (\<lambda>l. l\<lparr>logs := logs l @ [True]\<rparr>))
        (try_finally
          (service_smoke_body D \<lparr>bin_dir = bins, state_dir = folder @ [''state''], control = folder @ [''run'', ''control.sock'']\<rparr>)
          (end_service W))))))"

section \<open>Laws\<close>

lemma drain_run:
  "\<exists>es. drain data c =
     (case ending (arrives c) of None \<Rightarrow> Inr (data @ available (arrives c)) | Some e \<Rightarrow> Inl e, c\<lparr>arrives := es\<rparr>)"
proof (induction data c rule: drain.induct)
  case (1 data c)
  obtain r es where step: "recv 65536 c = (r, c\<lparr>arrives := es\<rparr>)" by (cases "recv_from 65536 (arrives c)") (simp add: recv_def)
  show ?case
  proof (cases "available (arrives c) = []")
    case True
    then show ?thesis
      using step sock.over [of c 65536] sock.broken [of c _ 65536] by (cases "ending (arrives c)") (auto simp: drain.simps [of data c])
  next
    case False
    then obtain b where b: "r = Inr b" "b \<noteq> []" "available (arrives c) = b @ available es" "ending es = ending (arrives c)"
      using sock.more [of 65536 c] step by auto
    from "1.IH" [OF step [symmetric] b(1,2)] obtain es' where
      "drain (data @ b) (c\<lparr>arrives := es\<rparr>) = (case ending es of None \<Rightarrow> Inr ((data @ b) @ available es) | Some e \<Rightarrow> Inl e, c\<lparr>arrives := es'\<rparr>)"
      by (auto cong: option.case_cong)
    then show ?thesis using step b by (auto simp: drain.simps [of data c] cong: option.case_cong)
  qed
qed

interpretation serviced: trial_end "end_service W" "\<lambda>l. \<not> tap l" "\<lambda>_. False" for W
proof
  fix l l' :: lab and u e
  assume untapped: "\<not> tap l"
  obtain l2 where s: "stop_all W l = (Inr (), l2)" "calmer l l2" "\<And>n. n < length (table l2) \<Longrightarrow> \<not> alive (process_of l2 n)"
    by (rule stop_all_run [of W l]) blast
  have run: "end_service W l = (Inr (), l2\<lparr>logs := map (\<lambda>_. False) (logs l2)\<rparr>)"
    using s(1) by (simp add: end_service_def seq_def bnd_def close_logs_run)
  show "end_service W l = (Inr u, l') \<Longrightarrow> clean l'"
    using run s untapped by (auto simp: clean_nth process_of_def calmer_def)
  show "end_service W l = (Inl e, l') \<Longrightarrow> False" using run by simp
next
  show "keeps accounted (end_service W)" unfolding end_service_def by (intro keeps_intros)
qed

context stable
begin

lemma keeps_demo_fetch [keeps_intros]: "keeps I (demo_fetch N wrap cp coverp)"
  unfolding demo_fetch_def
  by (intro keeps_intros; (simp split: sum.split)?; (intro conjI allI impI keeps_intros)?; simp)

lemma keeps_control [keeps_intros]:
  "keeps I (daemons_work D)" "keeps I (seen D q)" "keeps I (veilctl D C action cfg)" "keeps I (assert_io b m)" "keeps I (on_conn k c)"
proof -
  show w: "keeps I (daemons_work D)" unfolding daemons_work_def by (intro keeps_intros)
  show "keeps I (seen D q)" unfolding seen_def by (intro keeps_intros w)
  show "keeps I (veilctl D C action cfg)" unfolding veilctl_def Let_def by (intro keeps_intros w; simp)
  show "keeps I (assert_io b m)" unfolding assert_io_def by (intro keeps_intros)
  show "keeps I (on_conn k c)" unfolding on_conn_def by (auto split: prod.split sum.split intro: keeps_intros)
qed

lemma keeps_expect [keeps_intros]:
  "keeps I (signal_process W n s)" "keeps I (expect_state D C action cfg want m)" "keeps I (startup D C n k)"
proof -
  show "keeps I (signal_process W n s)" unfolding signal_process_def by (intro keeps_intros; simp split: if_splits)
  show "keeps I (expect_state D C action cfg want m)" unfolding expect_state_def by (intro keeps_intros)
  show "keeps I (startup D C n k)" by (induction k) (simp_all, (intro keeps_intros; simp)+)
qed

lemma keeps_checks [keeps_intros]:
  "keeps I (expect_exit W n)" "keeps I (active_checks D C status cfg)" "keeps I (control_checks D C)"
proof -
  show "keeps I (expect_exit W n)" unfolding expect_exit_def by (intro keeps_intros)
  show a: "keeps I (active_checks D C status cfg)" for status cfg unfolding active_checks_def by (intro keeps_intros; simp)
  show "keeps I (control_checks D C)" unfolding control_checks_def Let_def by (intro keeps_intros a)
qed

end

lemma demo_body_keeps [keeps_intros]: "keeps accounted (demo_body N wrap f)" "keeps (\<lambda>l. \<not> tap l) (demo_body N wrap f)"
  unfolding demo_body_def Let_def
  by (intro keeps_intros)+

text \<open>What holds in a world without an open listener holds after a block that closes the listener; opening the log before the block is as good as inside it.\<close>

lemma closed_untapped [keeps_intros]: "keeps (\<lambda>l. \<not> tap l) (bnd (tap_open W) (\<lambda>p. try_finally (m p) tap_close))"
  by (auto simp: keeps_def bnd_def tap_open_def ask_def noted_def try_finally_def tap_close_def io_simps split: prod.splits sum.splits)

lemma open_inside: "seq (modify f) (try_finally m k) = try_finally (seq (modify f) m) k"
  by (rule ext) (simp add: seq_def bnd_def modify_def try_finally_def)

lemma launch_daemon_keeps [keeps_intros]: "keeps accounted (launch_daemon D C autostart)" "keeps (\<lambda>l. \<not> tap l) (launch_daemon D C autostart)"
  unfolding launch_daemon_def by (intro keeps_intros)+

lemma recovery_keeps [keeps_intros]: "keeps accounted (recovery_checks D C n)" "keeps (\<lambda>l. \<not> tap l) (recovery_checks D C n)"
  unfolding recovery_checks_def Let_def by (intro keeps_intros; simp)+

lemma busy_keeps [keeps_intros]: "keeps accounted (busy_checks D C cfg)" "keeps (\<lambda>l. \<not> tap l) (busy_checks D C cfg)"
proof -
  show "keeps accounted (busy_checks D C cfg)" unfolding busy_checks_def Let_def by (intro keeps_intros)
  show "keeps (\<lambda>l. \<not> tap l) (busy_checks D C cfg)" unfolding busy_checks_def Let_def by (rule closed_untapped)
qed

lemma smoke_body_keeps [keeps_intros]: "keeps accounted (service_smoke_body D C)" "keeps (\<lambda>l. \<not> tap l) (service_smoke_body D C)"
  unfolding service_smoke_body_def by (intro keeps_intros)+

lemma leaves_around:
  assumes "leaves I (\<lambda>_. False) m" and "keeps accounted k" and "keeps clean k"
  shows "leaves I (\<lambda>_. False) (try_finally m k)"
  unfolding leaves_def
proof (intro allI impI)
  fix l
  assume l: "I l \<and> accounted l \<and> clean l"
  obtain r1 l1 where m: "m l = (r1, l1)" by fastforce
  with assms(1) l have l1: "accounted l1" "clean l1" by (auto simp: leaves_def dest!: spec [of _ l])
  obtain r2 l2 where k: "k l1 = (r2, l2)" by fastforce
  have "accounted l2" "clean l2" using keepsD [OF assms(2) k] keepsD [OF assms(3) k] l1 by blast+
  then show "case try_finally m k l of (r, l') \<Rightarrow> accounted l' \<and> (clean l' \<or> (\<exists>e. r = Inl e \<and> False))"
    using m k by (cases r2) (simp_all add: try_finally_def)
qed

lemma leaves_if: "leaves I fails m \<Longrightarrow> leaves I fails k \<Longrightarrow> leaves I fails (if b then m else k)"
  by simp

lemma leaves_raise: "leaves I fails (raise e)"
  by (simp add: leaves_def raise_def)

definition managed_row_ok :: "service_run \<Rightarrow> job_row \<Rightarrow> bool" where
  "managed_row_ok a jr \<longleftrightarrow> counted_row (if snd (snd (fst jr)) = -1 then 100 else rounds (service_work a)) jr"

lemma managed_loop_yields:
  "yields (\<lambda>out. \<exists>new. out = rows @ new \<and> map fst new = jobs \<and> list_all (managed_row_ok a) new) (managed_loop W show show_all f a wrapper jobs rows)"
proof (induction jobs arbitrary: rows)
  case (Cons job jobs)
  obtain g m p where job: "job = (g, m, p)" by (cases job)
  show ?case
    unfolding managed_loop.simps job prod.case Let_def
    by (intro yields_seq, rule yields_bnd [OF regression_trial_yields], intro yields_seq, rule job_step [OF Cons.IH])
      (simp only: managed_row_ok_def fst_conv snd_conv, rule counted_row_of)
qed (simp add: yields_ret)

lemma veilctl_table: "keeps (\<lambda>l. table l = t) (veilctl D C action cfg)"
  unfolding veilctl_def daemons_work_def Let_def by (intro keeps_intros keeps_table)

section \<open>Theorems\<close>

text \<open>
  However the demonstration ends, every process it started has ended and every log is closed.
\<close>

theorem demo_main_ends:
  "case demo_main N wrap (new_lab h) of (r, l) \<Rightarrow> accounted l \<and> clean l"
proof -
  have "leaves (\<lambda>l. \<not> tap l) (\<lambda>_. False) (demo_main N wrap)"
    unfolding demo_main_def by (intro leaves_intros keeps_intros)
  from leaves_new [OF this, of h] show ?thesis by simp
qed

text \<open>
  The demonstration sends its request and passes exactly when the stream ends and the first line of the response, which must be text, mentions 200;
  it then reports that line and the length of the response, however the response was cut into pieces.
\<close>

theorem demo_get_exact:
  "case demo_get c of (r, c') \<Rightarrow>
     sent c' = sent c @ demo_request \<and>
     (r = Inr (status, n)) = (ending (arrives c) = None \<and> response_line (available (arrives c)) = Inr status \<and> contains ''200'' status \<and>
       n = length (available (arrives c)))"
proof -
  obtain es where d: "drain [] (c\<lparr>sent := sent c @ demo_request\<rparr>) =
      (case ending (arrives c) of None \<Rightarrow> Inr (available (arrives c)) | Some e \<Rightarrow> Inl e, c\<lparr>sent := sent c @ demo_request, arrives := es\<rparr>)"
    using drain_run [of "[]" "c\<lparr>sent := sent c @ demo_request\<rparr>"] by (auto cong: option.case_cong)
  show ?thesis
    using d by (cases "ending (arrives c)"; cases "response_line (available (arrives c))")
      (auto simp: demo_get_def sendall_def ensure_def io_simps)
qed


text \<open>
  Waiting for the daemon returns only with a daemon that still ran when it was last looked at, and the errors that mean it is not ready yet are never passed on:
  the wait ends with the end of the daemon, after a hundred attempts, or with another error.
\<close>

theorem startup_outcome:
  "case startup D C n k l of
     (Inl e, l') \<Rightarrow> (if is_retried e then e = TimeoutError ''daemon did not start'' else True)
   | (Inr u, l') \<Rightarrow> alive (process_of l' n)"
proof (induction k arbitrary: l)
  case (Suc k)
  obtain l1 where p: "lab_poll (stage D) n l = (Inr (), l1)" by (rule lab_poll_run) blast
  obtain r l2 where v: "veilctl D C ''status'' None l1 = (r, l2)" by fastforce
  have "alive (process_of l2 n) = alive (process_of l1 n)" using keepsD [OF veilctl_table v, of "table l1"] by (simp add: process_of_def)
  moreover have "\<not> is_retried (RuntimeError m)" for m by (simp add: is_retried_def)
  ultimately show ?case
    using p v Suc.IH [of l2] by (cases r) (auto simp: try_except_def io_simps split: if_splits)
qed (simp add: raise_def is_retried_def)

text \<open>
  A comparison of the service with the command line that returns has one row for each trial, in their order: two across the programs and then, for each repetition and mode,
  one of each; every row has a throughput, and where streams are short, both sides served the rounds of the trial, a hundred across programs, and the sixteen of the
  warmup. The summary is the comparison of exactly these rows.
\<close>

theorem service_regression_rows:
  "case service_regression W affinity isolated repr show show_all show_summary shuffle tmp a l of
     (Inl e, l') \<Rightarrow> True
   | (Inr (rows, summary), l') \<Rightarrow>
       map fst rows = managed_trials shuffle (nat (reps (service_work a))) (modes_arg (service_work a)) \<and>
       list_all (managed_row_ok a) rows \<and>
       (\<exists>ts. map_res trial_row_of rows = Inr ts \<and> comparison ts (modes_arg (service_work a)) = Inr summary)"
proof (rule yields_case_pair)
  have runs: "yields (\<lambda>rows. map fst rows = managed_trials shuffle (nat (reps (service_work a))) (modes_arg (service_work a)) \<and> list_all (managed_row_ok a) rows)
    (managed_runs W repr show show_all shuffle tmp f a)" for f
    unfolding managed_runs_def lab_temp_def Let_def case_prod_beta
    by (intro yields_last yields_unless yields_seq yields_finally) (rule yields_mono [OF managed_loop_yields], simp)
  show "yields (\<lambda>(rows, summary). map fst rows = managed_trials shuffle (nat (reps (service_work a))) (modes_arg (service_work a)) \<and>
      list_all (managed_row_ok a) rows \<and>
      (\<exists>ts. map_res trial_row_of rows = Inr ts \<and> comparison ts (modes_arg (service_work a)) = Inr summary))
    (service_regression W affinity isolated repr show show_all show_summary shuffle tmp a)"
    unfolding service_regression_def
    by (rule yields_last, intro yields_seq, rule yields_last, rule yields_last, rule yields_bnd [OF runs], rule yields_lift_bnd, rule yields_seq)
      (auto simp: yields_ret bind_res_Inr_iff)
qed

end
