(* ===== verification/Catalogs.thy ===== *)
theory Catalogs
  imports Lab
begin

text \<open>
  The checks of translations and rights: \<^verbatim>\<open>openwrt_check.py\<close> with its reader of catalogs, \<^verbatim>\<open>opnsense_check.py\<close> and \<^verbatim>\<open>check_webui.py\<close> of
  \<^verbatim>\<open>veil-service/scripts\<close>, and \<^verbatim>\<open>veil-desktop/scripts/check_frontend.py\<close>. The regular expressions of the scripts are matchers that say what they capture and how
  much they take. Shown are the round trip of catalogs and of labels in a page, and what a check that passes has seen.
\<close>

section \<open>String literals\<close>

text \<open>
  \<open>ast.literal_eval\<close> of one string literal on one line, in quotes of either kind. Octal, hexadecimal and Unicode escapes, prefixes, adjacent literals and
  values that are no strings, none of which the catalogs use, count as malformed.
\<close>

abbreviation quote :: char where "quote \<equiv> CHR 34"
abbreviation apostrophe :: char where "apostrophe \<equiv> CHR 39"
abbreviation backslash :: char where "backslash \<equiv> CHR 92"

definition malformed :: exn where
  "malformed = ValueError ''malformed literal''"

definition simple_escape :: "char \<Rightarrow> char option" where
  "simple_escape c =
     map_of [(backslash, backslash), (quote, quote), (apostrophe, apostrophe), (CHR ''n'', nl), (CHR ''r'', CHR 13), (CHR ''t'', CHR 9),
       (CHR ''a'', CHR 7), (CHR ''b'', CHR 8), (CHR ''f'', CHR 12), (CHR ''v'', CHR 11)] c"

fun literal_body :: "char \<Rightarrow> string \<Rightarrow> (string \<times> string) res" where
  "literal_body q [] = Inl malformed"
| "literal_body q (c # s) =
     (if c = q then Inr ([], s)
      else if c = nl then Inl malformed
      else if c = backslash
      then (case s of
              [] \<Rightarrow> Inl malformed
            | d # t \<Rightarrow>
                (case simple_escape d of
                   Some e \<Rightarrow> bind_res (literal_body q t) (\<lambda>(v, r). Inr (e # v, r))
                 | None \<Rightarrow>
                     if d \<in> set ''01234567xuUN'' \<or> d = nl then Inl malformed
                     else bind_res (literal_body q t) (\<lambda>(v, r). Inr (c # d # v, r))))
      else bind_res (literal_body q s) (\<lambda>(v, r). Inr (c # v, r)))"

definition literal_eval :: "string \<Rightarrow> string res" where
  "literal_eval s =
     (case dropWhile (\<lambda>c. c = CHR 32 \<or> c = CHR 9) s of
        [] \<Rightarrow> Inl malformed
      | q # t \<Rightarrow>
          if q = quote \<or> q = apostrophe
          then bind_res (literal_body q t) (\<lambda>(v, r). if strip r = [] then Inr v else Inl malformed)
          else Inl malformed)"

section \<open>Catalogs\<close>

text \<open>The reader of a catalog: the entries so far, and the entry it is in. Lines end in a newline.\<close>

datatype field = In_key | In_value

record reading =
  entries :: "(string \<times> string) list"
  msg_key :: "string option"
  msg_value :: string
  msg_field :: "field option"

definition blank :: "(string \<times> string) list \<Rightarrow> reading" where
  "blank es = \<lparr>entries = es, msg_key = None, msg_value = [], msg_field = None\<rparr>"

text \<open>The end of an entry: one without a key, or with an empty one, is forgotten.\<close>

definition duplicate :: "string \<Rightarrow> exn" where
  "duplicate k = ValueError (''duplicate translation: '' @ k)"

definition finish_entry :: "reading \<Rightarrow> reading res" where
  "finish_entry st =
     (case msg_key st of
        None \<Rightarrow> Inr (blank (entries st))
      | Some k \<Rightarrow>
          if k = [] then Inr (blank (entries st))
          else if k \<in> fst ` set (entries st) then Inl (duplicate k)
          else Inr (blank (dict_set k (msg_value st) (entries st))))"

definition read_line :: "string \<Rightarrow> reading \<Rightarrow> reading res" where
  "read_line s st =
     (if strip s = [] then finish_entry st
      else if startswith s ''#'' then Inr st
      else if startswith s ''msgid '' then bind_res (literal_eval (drop 6 s)) (\<lambda>v. Inr (st\<lparr>msg_key := Some v, msg_field := Some In_key\<rparr>))
      else if startswith s ''msgstr '' then bind_res (literal_eval (drop 7 s)) (\<lambda>v. Inr (st\<lparr>msg_value := v, msg_field := Some In_value\<rparr>))
      else case (startswith s [quote], msg_field st) of
             (True, Some In_key) \<Rightarrow> bind_res (literal_eval s) (\<lambda>v. Inr (st\<lparr>msg_key := Some (the (msg_key st) @ v)\<rparr>))
           | (True, Some In_value) \<Rightarrow> bind_res (literal_eval s) (\<lambda>v. Inr (st\<lparr>msg_value := msg_value st @ v\<rparr>))
           | _ \<Rightarrow> Inl (ValueError (''unsupported catalog entry: '' @ s)))"

definition catalog :: "string \<Rightarrow> (string \<times> string) list res" where
  "catalog t = bind_res (fold_res read_line (lines_of t @ [[]]) (blank [])) (\<lambda>st. Inr (entries st))"

section \<open>Labels\<close>

text \<open>\<open>re.findall\<close>: a matcher gets the character before and the rest of the text, and says what it captures and how many characters it takes.\<close>

type_synonym matcher = "char option \<Rightarrow> string \<Rightarrow> (string \<times> nat) option"

function findall :: "matcher \<Rightarrow> char option \<Rightarrow> string \<Rightarrow> string list" where
  "findall m p [] = []"
| "findall m p (c # s) =
     (case m p (c # s) of
        None \<Rightarrow> findall m (Some c) s
      | Some (g, k) \<Rightarrow> let n = max 1 k in g # findall m (Some (last (take n (c # s)))) (drop n (c # s)))"
  by pat_completeness auto
termination
  by (relation "measure (\<lambda>(m, p, s). length s)") auto

text \<open>The end of \<^verbatim>\<open>'(?:[^'\\]|\\.)*'\<close> after its first character: what it takes, and the rest.\<close>

fun quoted_end :: "string \<Rightarrow> (string \<times> string) option" where
  "quoted_end [] = None"
| "quoted_end (c # s) =
     (if c = apostrophe then Some ([c], s)
      else if c = backslash
      then (case s of
              [] \<Rightarrow> None
            | d # t \<Rightarrow> if d = nl then None else map_option (\<lambda>(a, r). (c # d # a, r)) (quoted_end t))
      else map_option (\<lambda>(a, r). (c # a, r)) (quoted_end s))"

text \<open>\<^verbatim>\<open>NAME\(\s*('(?:[^'\\]|\\.)*')\s*,?\s*\)\<close> for one of several names\<close>

definition label_call :: "string list \<Rightarrow> matcher" where
  "label_call names p s =
     (case find (startswith s) names of
        None \<Rightarrow> None
      | Some n \<Rightarrow>
          (case dropWhile is_space (drop (length n) s) of
             [] \<Rightarrow> None
           | c # t \<Rightarrow>
               if c \<noteq> apostrophe then None
               else case quoted_end t of
                      None \<Rightarrow> None
                    | Some (lit, r) \<Rightarrow>
                        let r = dropWhile is_space r; r = (if startswith r '','' then drop 1 r else r); r = dropWhile is_space r in
                        if startswith r '')'' then Some (c # lit, length s - length (drop 1 r)) else None))"

text \<open>\<^verbatim>\<open>data-i18n="([...]+)"\<close> for a set of characters without the quote\<close>

definition i18n_attr :: "(char \<Rightarrow> bool) \<Rightarrow> matcher" where
  "i18n_attr ok p s =
     (let name = ''data-i18n='' @ [quote]; v = takeWhile ok (drop (length name) s) in
      if startswith s name \<and> v \<noteq> [] \<and> startswith (drop (length name + length v) s) [quote]
      then Some (v, length name + length v + 1) else None)"

definition is_letter :: "char \<Rightarrow> bool" where
  "is_letter c \<longleftrightarrow> is_lower c \<or> is_upper c"

text \<open>A character of a word; beyond ASCII, a byte of a letter.\<close>

definition is_word :: "char \<Rightarrow> bool" where
  "is_word c \<longleftrightarrow> is_alnum c \<or> c = CHR ''_'' \<or> 128 \<le> (of_char c :: nat)"

text \<open>\<^verbatim>\<open>\bt\((["'])([A-Za-z]+)\1\)\<close>, of which the script keeps the second group\<close>

definition t_call :: matcher where
  "t_call p s =
     (if startswith s ''t('' \<and> (case p of None \<Rightarrow> True | Some c \<Rightarrow> \<not> is_word c)
      then (case drop 2 s of
              [] \<Rightarrow> None
            | q # r \<Rightarrow>
                let v = takeWhile is_letter r in
                if (q = quote \<or> q = apostrophe) \<and> v \<noteq> [] \<and> startswith (drop (length v) r) [q, CHR '')''] then Some (v, length v + 5) else None)
      else None)"

definition js_labels :: "string list \<Rightarrow> string \<Rightarrow> string list res" where
  "js_labels names t = map_res literal_eval (findall (label_call names) None t)"

section \<open>\<^verbatim>\<open>check_webui.py\<close>\<close>

definition node_check :: "site \<Rightarrow> path \<Rightarrow> (host, unit) io" where
  "node_check S p = bnd (run (tool S) (cwd S) (environ S) [''node'', ''--check'', str p]) (\<lambda>_. ret ())"

definition script_labels :: "site \<Rightarrow> path \<Rightarrow> (host, string list) io" where
  "script_labels S p =
     seq (node_check S p) (bnd (read_file p) (\<lambda>t. lift_res (js_labels [''_('', ''tr(''] t)))"

text \<open>\<open>source[source.index("{"):].rstrip().removesuffix(";")\<close>\<close>

definition object_text :: "string \<Rightarrow> string res" where
  "object_text t =
     bind_res (index_from t ''{'' 0) (\<lambda>i. Inr (removesuffix (rev (dropWhile is_space (rev (drop i t)))) '';''))"

definition untranslated :: "json \<Rightarrow> string list \<Rightarrow> string list res" where
  "untranslated translations labels =
     (if labels = [] then Inr []
      else bind_res (jget ''zh'' translations) (\<lambda>zh.
      case zh of
        JObj ms \<Rightarrow> Inr (filter (\<lambda>k. \<not> (case map_of ms k of None \<Rightarrow> False | Some v \<Rightarrow> truthy v)) (sort (remdups labels)))
      | _ \<Rightarrow> Inl type_error))"

definition check_webui :: "site \<Rightarrow> (string list \<Rightarrow> string) \<Rightarrow> (host, string list) io" where
  "check_webui S show =
     (let common = service_root S @ [''webui'']; opnsense = service_root S @ [''platform'', ''opnsense'', ''src'', ''opnsense''] in
      bnd (script_labels S (common @ [''connections.js''])) (\<lambda>a.
      bnd (script_labels S (opnsense @ [''www'', ''js'', ''veil'', ''page.js''])) (\<lambda>b.
      bnd (read_file (opnsense @ [''mvc'', ''app'', ''views'', ''OPNsense'', ''Veil'', ''index.volt''])) (\<lambda>volt.
      let labels = remdups (a @ b @ findall (i18n_attr (\<lambda>c. c \<noteq> quote)) None volt) in
      bnd (read_file (common @ [''i18n.js''])) (\<lambda>src.
      bnd (lift_res (bind_res (object_text src) loads)) (\<lambda>translations.
      bnd (lift_res (untranslated translations labels)) (\<lambda>missing.
      if missing \<noteq> [] then raise (ValueError (''Shared Chinese labels missing: '' @ show missing))
      else seq (node_check S (common @ [''i18n.js''])) (ret labels))))))))"

section \<open>\<^verbatim>\<open>openwrt_check.py\<close>\<close>

definition luci_app :: "site \<Rightarrow> path" where
  "luci_app S = service_root S @ [''platform'', ''openwrt'', ''luci-app-veil'']"

text \<open>One catalog against the labels: all must be there, in a translation none empty.\<close>

definition check_entries :: "(string list \<Rightarrow> string) \<Rightarrow> string \<Rightarrow> string list \<Rightarrow> (string \<times> string) list \<Rightarrow> unit res" where
  "check_entries show relative labels es =
     (let missing = filter (\<lambda>k. k \<notin> fst ` set es) (sort (remdups labels)) in
      bind_res (guard (missing = []) (ValueError (relative @ '': untranslated labels: '' @ show missing))) (\<lambda>_.
      guard (\<not> (endswith relative ''.po'' \<and> list_ex (\<lambda>k. map_of es k = Some []) labels))
        (ValueError ''Chinese translations must not be empty'')))"

definition check_catalog :: "site \<Rightarrow> (string list \<Rightarrow> string) \<Rightarrow> string list \<Rightarrow> path \<Rightarrow> (host, unit) io" where
  "check_catalog S show labels relative =
     bnd (read_file (luci_app S @ relative)) (\<lambda>t.
     lift_res (bind_res (catalog t) (check_entries show (join ''/'' relative) labels)))"

text \<open>The rights of the read-only role: two methods that show no secret and change nothing.\<close>

definition read_only :: json where
  "read_only = JObj [(''ubus'', JObj [(''veil'', JArr [JStr ''status'', JStr ''connections''])])]"

definition check_acl :: "json \<Rightarrow> unit res" where
  "check_acl acl =
     bind_res (bind_res (jget ''luci-app-veil'' acl) (jget ''read'')) (\<lambda>rights.
     guard (py_eq (=) rights read_only) (ValueError ''read-only LuCI must not expose credentials or mutations''))"

definition luci_view :: "site \<Rightarrow> path" where
  "luci_view S = luci_app S @ [''htdocs'', ''luci-static'', ''resources'', ''view'', ''veil.js'']"

definition luci_acl :: "site \<Rightarrow> path" where
  "luci_acl S = luci_app S @ [''root'', ''usr'', ''share'', ''rpcd'', ''acl.d'', ''luci-app-veil.json'']"

definition luci_catalogs :: "path list" where
  "luci_catalogs = [[''po'', ''templates'', ''veil.pot''], [''po'', ''zh_Hans'', ''veil.po'']]"

definition luci_json :: "site \<Rightarrow> host \<Rightarrow> path list" where
  "luci_json S h = filter (\<lambda>p. endswith (last p) ''.json'') (below (files h) (luci_app S @ [''root'']))"

definition parse_file :: "path \<Rightarrow> (host, json) io" where
  "parse_file p = bnd (read_file p) (\<lambda>t. lift_res (loads t))"

definition check_luci :: "site \<Rightarrow> (string list \<Rightarrow> string) \<Rightarrow> (host, string list) io" where
  "check_luci S show =
     bnd (read_file (luci_view S)) (\<lambda>t.
     bnd (lift_res (js_labels [''_(''] t)) (\<lambda>labels.
     seq (for_io luci_catalogs (check_catalog S show labels))
     (seq (bnd (parse_file (luci_acl S)) (\<lambda>acl. lift_res (check_acl acl)))
     (bnd (gets (luci_json S)) (\<lambda>ps.
     seq (for_io ps (\<lambda>p. seq (parse_file p) (ret ())))
     (ret (remdups labels)))))))"

definition openwrt_check :: "site \<Rightarrow> (string list \<Rightarrow> string) \<Rightarrow> (host, string list) io" where
  "openwrt_check S show =
     seq (check_webui S show)
     (seq (node_check S (luci_view S))
     (seq (node_check S (service_root S @ [''scripts'', ''luci_smoke.cjs'']))
     (check_luci S show)))"

section \<open>\<^verbatim>\<open>opnsense_check.py\<close>\<close>

text \<open>\<open>patterns\<close> is the XML parser: of a text it gives the texts of the patterns of the status page, or the error of the parser.\<close>

definition opnsense_root :: "site \<Rightarrow> path" where
  "opnsense_root S = service_root S @ [''platform'', ''opnsense'']"

definition opnsense_app :: "site \<Rightarrow> path" where
  "opnsense_app S = opnsense_root S @ [''src'', ''opnsense'']"

definition status_rights :: "string list" where
  "status_rights = [''ui/veil/*'', ''api/veil/service/status'', ''api/veil/service/connections'']"

definition opnsense_xml :: "site \<Rightarrow> host \<Rightarrow> path list" where
  "opnsense_xml S h = filter (\<lambda>p. endswith (last p) ''.xml'') (below (files h) (opnsense_root S))"

definition opnsense_scripts :: "site \<Rightarrow> host \<Rightarrow> path list" where
  "opnsense_scripts S h =
     (opnsense_root S @ [''src'', ''etc'', ''rc.syshook.d'', ''start'', ''91-veil'']) #
     map (\<lambda>n. opnsense_root S @ [n]) (filter (\<lambda>n. startswith n ''+'') (children (files h) (opnsense_root S)))"

definition parse_xml :: "(string \<Rightarrow> string option list res) \<Rightarrow> path \<Rightarrow> (host, string option list) io" where
  "parse_xml patterns p = bnd (read_file p) (\<lambda>t. lift_res (patterns t))"

definition check_rights :: "string option list \<Rightarrow> unit res" where
  "check_rights ps = guard (set ps = Some ` set status_rights) (ValueError ''Status permission must not grant credential reads or mutation'')"

definition check_status_page :: "site \<Rightarrow> (string \<Rightarrow> string option list res) \<Rightarrow> (host, unit) io" where
  "check_status_page S patterns =
     bnd (gets (opnsense_xml S)) (\<lambda>xs.
     seq (for_io xs (\<lambda>p. seq (parse_xml patterns p) (ret ())))
     (bnd (parse_xml patterns (opnsense_app S @ [''mvc'', ''app'', ''models'', ''OPNsense'', ''Veil'', ''ACL'', ''ACL.xml''])) (\<lambda>ps.
     lift_res (check_rights ps))))"

definition shell_check :: "site \<Rightarrow> path \<Rightarrow> (host, unit) io" where
  "shell_check S p = bnd (run (tool S) (cwd S) (environ S) [''sh'', ''-n'', str p]) (\<lambda>_. ret ())"

definition opnsense_check :: "site \<Rightarrow> (string list \<Rightarrow> string) \<Rightarrow> (string \<Rightarrow> string option list res) \<Rightarrow> (host, unit) io" where
  "opnsense_check S show patterns =
     seq (check_webui S show)
     (seq (node_check S (opnsense_app S @ [''www'', ''js'', ''veil'', ''page.js'']))
     (seq (node_check S (service_root S @ [''scripts'', ''opnsense_smoke.cjs'']))
     (seq (check_status_page S patterns)
     (bnd (gets (opnsense_scripts S)) (\<lambda>ps. for_io ps (shell_check S))))))"

section \<open>\<^verbatim>\<open>check_frontend.py\<close>\<close>

text \<open>\<open>script\<close> is the program that \<open>node\<close> runs to compare both languages; it gets the labels as JSON.\<close>

definition check_frontend :: "site \<Rightarrow> string \<Rightarrow> (host, string list) io" where
  "check_frontend S script =
     (let front = desktop_root S @ [''frontend''] in
      seq (for_io [''app.js'', ''i18n.js''] (\<lambda>n. node_check S (front @ [n])))
      (bnd (read_file (front @ [''index.html''])) (\<lambda>html.
      bnd (read_file (front @ [''app.js''])) (\<lambda>app.
      let labels = remdups (findall (i18n_attr is_letter) None html @ findall t_call None app) in
      seq (run (tool S) (cwd S) (environ S)
            [''node'', ''-e'', script, str (front @ [''i18n.js'']), dumps None (JArr (map JStr (sort labels)))])
      (seq (run (tool S) (cwd S) (environ S) [''python3'', str (service_root S @ [''scripts'', ''check_webui.py''])])
      (ret labels))))))"

section \<open>Laws\<close>

text \<open>A literal as the catalogs and the pages write it.\<close>

definition escaped :: "char \<Rightarrow> char \<Rightarrow> string" where
  "escaped q c = (if c = q \<or> c = backslash then [backslash, c] else if c = nl then [backslash, CHR ''n''] else [c])"

definition quoted :: "char \<Rightarrow> string \<Rightarrow> string" where
  "quoted q s = q # concat (map (escaped q) s) @ [q]"

lemma literal_body_escaped:
  assumes "q = quote \<or> q = apostrophe"
  shows "literal_body q (escaped q c @ s) = bind_res (literal_body q s) (\<lambda>(v, r). Inr (c # v, r))"
proof -
  consider "c = q \<or> c = backslash" | "c = nl" "c \<noteq> q" | "c \<noteq> q" "c \<noteq> backslash" "c \<noteq> nl" by blast
  then show ?thesis
  proof cases
    case 1
    with assms have "simple_escape c = Some c" "backslash \<noteq> q" "nl \<noteq> backslash" by (auto simp: simple_escape_def)
    with 1 show ?thesis by (simp add: escaped_def)
  next
    case 2
    with assms show ?thesis by (auto simp: escaped_def simple_escape_def)
  next
    case 3
    then show ?thesis by (simp add: escaped_def)
  qed
qed

lemma literal_body_quoted:
  assumes "q = quote \<or> q = apostrophe"
  shows "literal_body q (concat (map (escaped q) s) @ q # r) = Inr (s, r)"
  by (induction s) (simp_all add: literal_body_escaped [OF assms] res_simps)

lemma literal_eval_quoted: "q = quote \<or> q = apostrophe \<Longrightarrow> literal_eval (quoted q s) = Inr s"
  using literal_body_quoted [of q s "[]"] by (auto simp: literal_eval_def quoted_def res_simps strip_def)

lemma no_newline_quoted [simp]: "q \<noteq> nl \<Longrightarrow> nl \<notin> set (quoted q s)"
  by (auto simp: quoted_def escaped_def)

text \<open>An entry as a catalog has it: comments, the pieces of the key, the pieces of the value, an empty line.\<close>

record po_entry =
  comments :: "string list"
  key_start :: string
  key_more :: "string list"
  value_start :: string
  value_more :: "string list"

definition po_key :: "po_entry \<Rightarrow> string" where
  "po_key e = key_start e @ concat (key_more e)"

definition po_value :: "po_entry \<Rightarrow> string" where
  "po_value e = value_start e @ concat (value_more e)"

definition id_line :: "string \<Rightarrow> string" where
  "id_line k = ''msgid '' @ quoted quote k"

definition str_line :: "string \<Rightarrow> string" where
  "str_line v = ''msgstr '' @ quoted quote v"

definition po_lines :: "po_entry \<Rightarrow> string list" where
  "po_lines e =
     map ((@) ''#'') (comments e) @ id_line (key_start e) # map (quoted quote) (key_more e) @
     str_line (value_start e) # map (quoted quote) (value_more e) @ [[]]"

definition po_text :: "po_entry list \<Rightarrow> string" where
  "po_text es = concat (map (\<lambda>s. s @ [nl]) (concat (map po_lines es)))"

lemma split_char_line: "d \<notin> set s \<Longrightarrow> split_char d (s @ d # t) = s # split_char d t"
  by (induction s) auto

lemma lines_of_lines: "list_all (\<lambda>s. nl \<notin> set s) ss \<Longrightarrow> lines_of (concat (map (\<lambda>s. s @ [nl]) ss)) = ss"
proof -
  assume ss: "list_all (\<lambda>s. nl \<notin> set s) ss"
  then have "split_char nl (concat (map (\<lambda>s. s @ [nl]) ss)) = ss @ [[]]"
    by (induction ss) (simp_all add: split_char_line)
  then show ?thesis by (simp add: lines_of_def)
qed

lemma strip_mark: "\<not> is_space c \<Longrightarrow> strip (c # s) \<noteq> []"
  by (simp add: strip_def dropWhile_append)

lemma read_comments: "fold_res read_line (map ((@) ''#'') cs) st = Inr st"
  by (induction cs) (simp_all add: read_line_def startswith_def res_simps strip_mark is_space_def)

lemma read_key: "read_line (id_line k) st = Inr (st\<lparr>msg_key := Some k, msg_field := Some In_key\<rparr>)"
  by (simp add: id_line_def read_line_def startswith_def res_simps strip_mark is_space_def literal_eval_quoted)

lemma read_value: "read_line (str_line v) st = Inr (st\<lparr>msg_value := v, msg_field := Some In_value\<rparr>)"
  by (simp add: str_line_def read_line_def startswith_def res_simps strip_mark is_space_def literal_eval_quoted)

lemma read_empty: "read_line [] st = finish_entry st"
  by (simp add: read_line_def strip_def)

lemma read_piece:
  "read_line (quoted quote s) st =
     (case msg_field st of
        None \<Rightarrow> Inl (ValueError (''unsupported catalog entry: '' @ quoted quote s))
      | Some In_key \<Rightarrow> Inr (st\<lparr>msg_key := Some (the (msg_key st) @ s)\<rparr>)
      | Some In_value \<Rightarrow> Inr (st\<lparr>msg_value := msg_value st @ s\<rparr>))"
proof -
  have "strip (quoted quote s) \<noteq> []" by (simp add: quoted_def strip_mark is_space_def)
  moreover have "startswith (quoted quote s) (c # a) \<Longrightarrow> c = quote" for c a by (simp add: quoted_def startswith_def)
  moreover have "startswith (quoted quote s) [quote]" by (simp add: quoted_def startswith_def)
  ultimately show ?thesis
    by (auto simp: read_line_def literal_eval_quoted res_simps split: option.split field.split)
qed

lemma read_more_key:
  "msg_field st = Some In_key \<Longrightarrow> msg_key st = Some k \<Longrightarrow>
   fold_res read_line (map (quoted quote) ks) st = Inr (st\<lparr>msg_key := Some (k @ concat ks)\<rparr>)"
  by (induction ks arbitrary: st k) (simp_all add: read_piece res_simps)

lemma read_more_value:
  "msg_field st = Some In_value \<Longrightarrow>
   fold_res read_line (map (quoted quote) vs) st = Inr (st\<lparr>msg_value := msg_value st @ concat vs\<rparr>)"
  by (induction vs arbitrary: st) (simp_all add: read_piece res_simps)

lemma read_entry:
  "fold_res read_line (po_lines e) (blank es) =
     finish_entry \<lparr>entries = es, msg_key = Some (po_key e), msg_value = po_value e, msg_field = Some In_value\<rparr>"
  by (simp add: po_lines_def fold_res_append read_comments read_key read_value read_more_key read_more_value read_empty
      blank_def po_key_def po_value_def bind_res_def split: sum.split)

text \<open>The entries with a key: those a catalog stands for.\<close>

definition named :: "po_entry list \<Rightarrow> (string \<times> string) list" where
  "named es = filter (\<lambda>(k, v). k \<noteq> []) (map (\<lambda>e. (po_key e, po_value e)) es)"

lemma named_simps [simp]:
  "named [] = []"
  "named (e # es) = (if po_key e = [] then named es else (po_key e, po_value e) # named es)"
  by (simp_all add: named_def)

lemma finish_named:
  "finish_entry \<lparr>entries = d, msg_key = Some k, msg_value = v, msg_field = f\<rparr> =
     (if k = [] then Inr (blank d)
      else if k \<in> fst ` set d then Inl (duplicate k)
      else Inr (blank (d @ [(k, v)])))"
  by (simp add: finish_entry_def dict_set_new)

lemma read_entries:
  "distinct (map fst (d @ named es)) \<Longrightarrow> fold_res read_line (concat (map po_lines es)) (blank d) = Inr (blank (d @ named es))"
proof (induction es arbitrary: d)
  case (Cons e es)
  then show ?case using Cons.IH [of d] Cons.IH [of "d @ [(po_key e, po_value e)]"]
    by (simp add: fold_res_append read_entry finish_named split: if_splits)
qed simp

lemma count_list_mem: "x \<in> set xs \<Longrightarrow> 1 \<le> count_list xs x"
  by (metis count_list_0_iff less_one not_le)

lemma read_entries_twice:
  assumes "distinct (map fst d)" and "\<not> distinct (map fst (d @ named es))"
  shows "\<exists>k. 2 \<le> count_list (map fst (d @ named es)) k \<and>
    fold_res read_line (concat (map po_lines es)) (blank d) = Inl (duplicate k)"
  using assms
proof (induction es arbitrary: d)
  case (Cons e es)
  let ?d = "d @ [(po_key e, po_value e)]"
  consider "po_key e = []" | "po_key e \<noteq> []" "po_key e \<in> fst ` set d" | "po_key e \<noteq> []" "po_key e \<notin> fst ` set d" by blast
  then show ?case
  proof cases
    case 1
    then show ?thesis using Cons.IH [of d] Cons.prems by (simp add: fold_res_append read_entry finish_named)
  next
    case 2
    then have "1 \<le> count_list (map fst d) (po_key e)" by (intro count_list_mem) simp
    with 2 show ?thesis by (intro exI [of _ "po_key e"]) (simp add: fold_res_append read_entry finish_named)
  next
    case 3
    then show ?thesis using Cons.IH [of ?d] Cons.prems by (simp add: fold_res_append read_entry finish_named)
  qed
qed simp

lemma po_lines_flat:
  "list_all (\<lambda>e. list_all (\<lambda>s. nl \<notin> set s) (comments e)) es \<Longrightarrow> list_all (\<lambda>s. nl \<notin> set s) (concat (map po_lines es))"
  by (induction es) (auto simp: po_lines_def id_line_def str_line_def list_all_iff)



text \<open>Whatever the text: the keys of a catalog are distinct, and none is empty.\<close>

definition sound :: "reading \<Rightarrow> bool" where
  "sound st \<longleftrightarrow> distinct (map fst (entries st)) \<and> [] \<notin> fst ` set (entries st)"

lemma read_line_sound: "read_line s st = Inr st' \<Longrightarrow> sound st \<Longrightarrow> sound st'"
  by (auto simp: read_line_def finish_entry_def sound_def blank_def dict_set_new res_simps split: if_splits option.splits field.splits bool.splits)

lemma fold_res_inv: "fold_res f xs st = Inr st' \<Longrightarrow> I st \<Longrightarrow> (\<And>x a b. f x a = Inr b \<Longrightarrow> I a \<Longrightarrow> I b) \<Longrightarrow> I st'"
  by (induction xs arbitrary: st) (auto simp: res_simps)

lemma catalog_keys: "catalog t = Inr es \<Longrightarrow> distinct (map fst es) \<and> [] \<notin> fst ` set es"
  using fold_res_inv [of read_line _ "blank []" _ sound] read_line_sound
  by (force simp: catalog_def res_simps sound_def blank_def)

text \<open>The labels of a page: calls with a literal, between pieces of text that open no call.\<close>

definition call_text :: "string \<times> string \<times> string \<Rightarrow> string" where
  "call_text c = (case c of (before, name, label) \<Rightarrow> before @ name @ quoted apostrophe label @ '')'')"

lemma quoted_end_escaped: "quoted_end (escaped apostrophe c @ s) = map_option (\<lambda>(a, r). (escaped apostrophe c @ a, r)) (quoted_end s)"
  by (cases "quoted_end s") (auto simp: escaped_def)

lemma quoted_end_quoted:
  "quoted_end (concat (map (escaped apostrophe) s) @ apostrophe # r) = Some (concat (map (escaped apostrophe) s) @ [apostrophe], r)"
  by (induction s) (simp_all add: quoted_end_escaped)

lemma label_call_here:
  assumes "find (startswith (n @ quoted apostrophe l @ '')'' @ s)) names = Some n"
  shows "label_call names p (n @ quoted apostrophe l @ '')'' @ s) = Some (quoted apostrophe l, length n + length (quoted apostrophe l) + 1)"
  using assms
  by (simp add: label_call_def quoted_def quoted_end_quoted is_space_def startswith_def Let_def)

lemma label_call_none: "find (startswith s) names = None \<Longrightarrow> label_call names p s = None"
  by (simp add: label_call_def)

lemma findall_skip:
  assumes "\<And>i. i < length f \<Longrightarrow> find (startswith (drop i (f @ s))) names = None"
  shows "\<exists>p'. findall (label_call names) p (f @ s) = findall (label_call names) p' s"
  using assms
proof (induction f arbitrary: p)
  case (Cons c f)
  have "label_call names p (c # f @ s) = None" using Cons.prems [of 0] by (simp add: label_call_none)
  moreover have "find (startswith (drop i (f @ s))) names = None" if "i < length f" for i
    using Cons.prems [of "Suc i"] that by simp
  ultimately show ?case using Cons.IH by simp
qed auto

lemma findall_match:
  "m p s = Some (g, k) \<Longrightarrow> 0 < k \<Longrightarrow> s \<noteq> [] \<Longrightarrow> findall m p s = g # findall m (Some (last (take k s))) (drop k s)"
  by (cases s) (auto simp: Let_def max_def simp del: take_Suc_Cons drop_Suc_Cons)

lemma findall_here:
  assumes "find (startswith (n @ quoted apostrophe l @ '')'' @ s)) names = Some n"
  shows "\<exists>p'. findall (label_call names) p (n @ quoted apostrophe l @ '')'' @ s) = quoted apostrophe l # findall (label_call names) p' s"
  using findall_match [of "label_call names", OF label_call_here [OF assms, of p]] by auto

text \<open>The two names the pages use: neither starts inside the other, so a call is found wherever the text before it opens none.\<close>

lemma no_overlap:
  assumes "\<not> contains a f" and "a = ''_('' \<or> a = ''tr(''" and "n = ''_('' \<or> n = ''tr('' \<or> n = [] \<and> s = []" and "i < length f"
  shows "\<not> startswith (drop i (f @ n @ s)) a"
proof
  assume st: "startswith (drop i (f @ n @ s)) a"
  define g where "g = drop i f"
  have g: "drop i (f @ n @ s) = g @ n @ s" "g \<noteq> []" using assms(4) by (auto simp: g_def)
  have "\<not> startswith g a"
  proof
    assume "startswith g a"
    then obtain t where "g = a @ t" by (rule startswithE)
    then have "f = take i f @ a @ t" by (metis g_def append_take_drop_id)
    then show False using assms(1) contains_appendI by metis
  qed
  then have "\<not> prefix a g" by (simp add: startswith_prefix)
  moreover have "prefix a (g @ n @ s)" using st g(1) by (simp add: startswith_prefix)
  ultimately show False using g(2) assms(2,3)
    by (cases g; cases "tl g"; cases "tl (tl g)") auto
qed

lemma names_fresh:
  assumes "\<not> contains ''_('' f" and "\<not> contains ''tr('' f" and "set names \<subseteq> {''_('', ''tr(''}"
    and "n = ''_('' \<or> n = ''tr('' \<or> n = [] \<and> s = []" and "i < length f"
  shows "find (startswith (drop i (f @ n @ s))) names = None"
  using assms(3) no_overlap [OF assms(1) _ assms(4,5)] no_overlap [OF assms(2) _ assms(4,5)] by (auto simp: find_None_iff)

lemma findall_calls:
  assumes "list_all (\<lambda>(f, n, l). n \<in> set names \<and> \<not> contains ''_('' f \<and> \<not> contains ''tr('' f) cs"
    and "set names \<subseteq> {''_('', ''tr(''}" and "\<not> contains ''_('' rest" and "\<not> contains ''tr('' rest"
  shows "findall (label_call names) p (concat (map call_text cs) @ rest) = map (\<lambda>(f, n, l). quoted apostrophe l) cs"
  using assms(1)
proof (induction cs arbitrary: p)
  case Nil
  show ?case
    using findall_skip [of rest "[]" names p] names_fresh [OF assms(3,4,2), of "[]" "[]"] by auto
next
  case (Cons c cs)
  obtain f n l where c: "c = (f, n, l)" by (cases c)
  let ?s = "concat (map call_text cs) @ rest"
  have n: "n \<in> set names" "n = ''_('' \<or> n = ''tr(''" and f: "\<not> contains ''_('' f" "\<not> contains ''tr('' f"
    using Cons.prems assms(2) by (auto simp: c)
  have "find (startswith (n @ quoted apostrophe l @ '')'' @ ?s)) names = Some n"
    using n assms(2) by (induction names) (auto simp: startswith_code)
  from findall_here [OF this] findall_skip [of f "n @ quoted apostrophe l @ '')'' @ ?s" names p]
    names_fresh [OF f assms(2), of n "quoted apostrophe l @ '')'' @ ?s"] n(2)
  obtain p' where "findall (label_call names) p (f @ n @ quoted apostrophe l @ '')'' @ ?s) = quoted apostrophe l # findall (label_call names) p' ?s"
    by metis
  moreover have "call_text c = f @ n @ quoted apostrophe l @ '')''" by (simp add: c call_text_def)
  ultimately show ?case using Cons by (simp add: c)
qed

text \<open>
  The labels that must be translated are exactly those the page asks for: from a text of calls with quoted labels, between pieces that open no call, the check
  takes every label, in order, with its escapes undone, and nothing else.
\<close>

theorem js_labels_exact:
  assumes "set names \<subseteq> {''_('', ''tr(''}"
    and "list_all (\<lambda>(f, n, l). n \<in> set names \<and> \<not> contains ''_('' f \<and> \<not> contains ''tr('' f) cs"
    and "\<not> contains ''_('' rest" and "\<not> contains ''tr('' rest"
  shows "js_labels names (concat (map call_text cs) @ rest) = Inr (map (\<lambda>(f, n, l). l) cs)"
proof -
  have "map_res literal_eval (map (quoted apostrophe) ls) = Inr ls" for ls
    by (induction ls) (simp_all add: literal_eval_quoted)
  from this [of "map (\<lambda>(f, n, l). l) cs"] show ?thesis
    by (simp add: js_labels_def findall_calls [OF assms(2,1,3,4)] comp_def case_prod_unfold)
qed

theorem js_labels_exact_witness:
  "js_labels [''_('', ''tr(''] (concat (map call_text [(''a = '', ''tr('', ''It'' @ [CHR 39] @ ''s''), ('' + _ + '', ''_('', ''Stop'')]) @ '';'') =
   Inr [''It'' @ [CHR 39] @ ''s'', ''Stop'']"
  using js_labels_exact [of "[''_('', ''tr('']" "[(''a = '', ''tr('', ''It'' @ [CHR 39] @ ''s''), ('' + _ + '', ''_('', ''Stop'')]" "'';''"]
  by (simp add: startswith_def)

section \<open>What a check that passes has seen\<close>

lemma check_entries_iff:
  "check_entries show relative labels es = Inr () \<longleftrightarrow>
   set labels \<subseteq> fst ` set es \<and> (endswith relative ''.po'' \<longrightarrow> (\<forall>k \<in> set labels. map_of es k \<noteq> Some []))"
  by (auto simp: check_entries_def Let_def res_simps list_ex_iff filter_empty_conv)

lemma parse_file_reads [reads_intros]: "reads (parse_file p)"
  unfolding parse_file_def by (intro reads_intros)

lemma check_catalog_reads [reads_intros]: "reads (check_catalog S show labels relative)"
  unfolding check_catalog_def by (intro reads_intros)

lemma check_luci_reads [reads_intros]: "reads (check_luci S show)"
  unfolding check_luci_def by (intro reads_intros)

text \<open>Checks that only read: one passes in the world as it is, a loop of them when each does.\<close>

lemma reads_run: "reads m \<Longrightarrow> m w = (r, w') \<longleftrightarrow> w' = w \<and> fst (m w) = r"
  by (auto simp: reads_def prod_eq_iff)

lemma for_io_reads_iff:
  assumes "\<And>x. reads (f x)"
  shows "for_io xs f w = (Inr (), w') \<longleftrightarrow> w' = w \<and> list_all (\<lambda>x. fst (f x w) = Inr ()) xs"
  by (induction xs) (auto simp: ret_iff seq_Inr_iff reads_run [OF assms])

lemma parsed_iff: "fst (seq (parse_file p) (ret ()) h) = Inr () \<longleftrightarrow> (\<exists>v. fst (parse_file p h) = Inr v)"
  by (cases "fst (parse_file p h)"; cases "parse_file p h") (auto simp: seq_def bnd_def ret_def)

lemma check_acl_iff:
  "check_acl acl = Inr () \<longleftrightarrow> (\<exists>v r. jget ''luci-app-veil'' acl = Inr v \<and> jget ''read'' v = Inr r \<and> py_eq (=) r read_only)"
  by (auto simp: check_acl_def res_simps)

text \<open>The catalog at a path has all the labels, and a translation has a text for each.\<close>

definition translated :: "site \<Rightarrow> string list \<Rightarrow> host \<Rightarrow> path \<Rightarrow> bool" where
  "translated S labels h relative \<longleftrightarrow>
     (\<exists>t es. fst (read_file (luci_app S @ relative) h) = Inr t \<and> catalog t = Inr es \<and> set labels \<subseteq> fst ` set es \<and>
       (if endswith (join ''/'' relative) ''.po'' then list_all (\<lambda>k. map_of es k \<noteq> Some []) labels else True))"

lemma check_catalog_iff: "fst (check_catalog S show labels relative h) = Inr () \<longleftrightarrow> translated S labels h relative"
  by (cases "read_file (luci_app S @ relative) h"; cases "fst (read_file (luci_app S @ relative) h)")
     (auto simp: translated_def check_catalog_def bnd_def lift_res_def res_simps check_entries_iff list_all_iff)

lemma check_luci_passes:
  assumes "check_luci S show h = (Inr labels, h')"
  shows "\<exists>t ls v. fst (read_file (luci_view S) h) = Inr t \<and> js_labels [''_(''] t = Inr ls \<and> labels = remdups ls \<and>
    list_all (translated S ls h) luci_catalogs \<and>
    fst (parse_file (luci_acl S) h) = Inr v \<and> check_acl v = Inr () \<and>
    list_all (\<lambda>p. \<exists>v. fst (parse_file p h) = Inr v) (luci_json S h)"
proof -
  have ps: "reads (\<lambda>h. seq (parse_file p) (ret ()) h)" for p by (intro reads_intros)
  from assms show ?thesis
    by (auto simp: check_luci_def bnd_Inr_iff seq_Inr_iff ret_iff lift_res_def gets_def reads_run [OF read_file_reads]
        reads_run [OF parse_file_reads] for_io_reads_iff [OF check_catalog_reads] for_io_reads_iff [OF ps] parsed_iff check_catalog_iff)
qed

lemma translated_remdups: "translated S (remdups ls) h r = translated S ls h r"
  by (simp add: translated_def list_all_iff)

text \<open>
  C39. When the check of the LuCI application passes, the files as they then are have what it stands for: its labels are those the page asks for, both catalogs
  have all of them and the Chinese one a text for each, the read-only role may call \<open>status\<close> and \<open>connections\<close> and nothing else, and every JSON file parses.
\<close>

theorem openwrt_check_passes:
  "case openwrt_check S show h of
     (Inl e, h') \<Rightarrow> True
   | (Inr labels, h') \<Rightarrow>
       (\<exists>t ls. fst (read_file (luci_view S) h') = Inr t \<and> js_labels [''_(''] t = Inr ls \<and> labels = remdups ls) \<and>
       list_all (translated S labels h') luci_catalogs \<and>
       (\<exists>acl v r. fst (parse_file (luci_acl S) h') = Inr acl \<and> jget ''luci-app-veil'' acl = Inr v \<and> jget ''read'' v = Inr r \<and>
          py_eq (=) r read_only) \<and>
       list_all (\<lambda>p. \<exists>v. fst (parse_file p h') = Inr v) (luci_json S h')"
proof (cases "openwrt_check S show h")
  case (Pair r h')
  show ?thesis
  proof (cases r)
    case (Inr labels)
    with Pair obtain h1 where "check_luci S show h1 = (Inr labels, h')" by (auto simp: openwrt_check_def seq_Inr_iff)
    moreover from this have "h1 = h'" using readsD [OF check_luci_reads] by metis
    ultimately have "check_luci S show h' = (Inr labels, h')" by simp
    from check_luci_passes [OF this] Pair Inr show ?thesis
      by (auto simp: check_acl_iff translated_remdups [abs_def])
  qed (simp add: Pair)
qed

lemma parse_xml_reads [reads_intros]: "reads (parse_xml patterns p)"
  unfolding parse_xml_def by (intro reads_intros)

lemma check_status_page_reads [reads_intros]: "reads (check_status_page S patterns)"
  unfolding check_status_page_def by (intro reads_intros)

lemma shell_checks_run: "for_io ps (shell_check S) h = (Inr u, h') \<Longrightarrow> ran h' = ran h @ map (\<lambda>p. [''sh'', ''-n'', str p]) ps"
  by (induction ps arbitrary: h)
    (auto simp: ret_iff seq_Inr_iff shell_check_def bnd_Inr_iff run_def call_def raise_def split: if_splits prod.splits)

text \<open>
  When the check of the OPNsense plugin passes, the status page of the files it has read grants exactly the page and the two methods that show no secret and change
  nothing, every XML file parses, and afterwards exactly the start script and the scripts of the package have been given to the shell, in this order.
\<close>

theorem opnsense_check_passes:
  "case opnsense_check S show patterns h of
     (Inl e, h') \<Rightarrow> True
   | (Inr u, h') \<Rightarrow>
       \<exists>h1 ps. fst (parse_xml patterns (opnsense_app S @ [''mvc'', ''app'', ''models'', ''OPNsense'', ''Veil'', ''ACL'', ''ACL.xml'']) h1) = Inr ps \<and>
         set ps = Some ` {''ui/veil/*'', ''api/veil/service/status'', ''api/veil/service/connections''} \<and>
         list_all (\<lambda>p. \<exists>v. fst (parse_xml patterns p h1) = Inr v) (opnsense_xml S h1) \<and>
         ran h' = ran h1 @ map (\<lambda>p. [''sh'', ''-n'', str p]) (opnsense_scripts S h1)"
proof (cases "opnsense_check S show patterns h")
  case (Pair r h')
  have each: "reads (\<lambda>h. seq (parse_xml patterns p) (ret ()) h)" for p by (intro reads_intros)
  have passed: "fst (seq (parse_xml patterns p) (ret ()) h) = Inr () \<longleftrightarrow> (\<exists>v. fst (parse_xml patterns p h) = Inr v)" for p h
    by (cases "fst (parse_xml patterns p h)"; cases "parse_xml patterns p h") (auto simp: seq_def bnd_def ret_def)
  show ?thesis
  proof (cases r)
    case (Inr u)
    with Pair obtain h1 where c: "check_status_page S patterns h1 = (Inr (), h1)" and s: "for_io (opnsense_scripts S h1) (shell_check S) h1 = (Inr u, h')"
      by (auto simp: opnsense_check_def seq_Inr_iff bnd_Inr_iff gets_def reads_run [OF check_status_page_reads])
    from c show ?thesis
      using shell_checks_run [OF s] Pair Inr
      by (auto simp: check_status_page_def bnd_Inr_iff seq_Inr_iff gets_def lift_res_def check_rights_def status_rights_def res_simps
          reads_run [OF parse_xml_reads] for_io_reads_iff [OF each] passed)
  qed (simp add: Pair)
qed

end
