(* ===== verification/Desktops.thy ===== *)
theory Desktops
  imports Services
begin

text \<open>
  Acceptance tests on Windows: the daemon and its controller over a named pipe, \<^verbatim>\<open>veil-service/scripts/windows_smoke.py\<close>, and the desktop program with the
  proxy settings of the user, \<^verbatim>\<open>veil-desktop/scripts/gui/check.py\<close> with \<^verbatim>\<open>windows.py\<close>. The programs, Windows itself and the web servers of the test answer
  through records of functions of the past; the calls of WinINet are kept in order, so that theorems can say what was set last.
\<close>

section \<open>\<^verbatim>\<open>windows_smoke.py\<close>\<close>

text \<open>A finished program: its status, its output and its error output, or that it took too long.\<close>

record pipe_world =
  pipe_stage :: outside
  pipe_run :: "string list \<Rightarrow> act list \<Rightarrow> (int \<times> string \<times> string) res"

record pipe_place =
  veild_exe :: string
  veilctl_exe :: string
  pipe_state :: string
  pipe_name :: string

definition finished :: "pipe_world \<Rightarrow> string list \<Rightarrow> (lab, int \<times> string \<times> string) io" where
  "finished D args = bnd (ask (Called args) (pipe_run D args)) lift_res"

definition pipe_call :: "pipe_world \<Rightarrow> pipe_place \<Rightarrow> string \<Rightarrow> string list \<Rightarrow> bool \<Rightarrow> (lab, int \<times> string) io" where
  "pipe_call D C action flags success =
     bnd (finished D ([veilctl_exe C, ''-socket'', pipe_name C] @ flags @ [action])) (\<lambda>(rc, out, err).
     if success \<and> rc \<noteq> 0 then raise (AssertionError err) else ret (rc, out))"

definition pipe_json :: "pipe_world \<Rightarrow> pipe_place \<Rightarrow> string \<Rightarrow> string list \<Rightarrow> (lab, json) io" where
  "pipe_json D C action flags = bnd (pipe_call D C action flags True) (\<lambda>(rc, out). lift_res (loads out))"

definition pipe_daemon :: "pipe_place \<Rightarrow> string \<Rightarrow> string list" where
  "pipe_daemon C pipe = [veild_exe C, ''-state-dir'', pipe_state C, ''-socket'', pipe]"

definition end_pipe :: "outside \<Rightarrow> nat \<Rightarrow> (lab, unit) io" where
  "end_pipe W n = seq (signal_process W n ''TERM'') (seq (wait_exit W n) (ret ()))"

text \<open>Waiting for the daemon: \<open>k\<close> is how often the loop is entered before the deadline, which the clock decides.\<close>

primrec pipe_ready :: "pipe_world \<Rightarrow> pipe_place \<Rightarrow> nat \<Rightarrow> nat \<Rightarrow> (lab, json) io" where
  "pipe_ready D C n 0 = raise (AssertionError ''daemon never became ready'')"
| "pipe_ready D C n (Suc k) =
     seq (lab_poll (pipe_stage D) n)
     (bnd (gets (\<lambda>l. alive (process_of l n))) (\<lambda>up.
     if \<not> up then raise (AssertionError ''daemon exited before ready'')
     else bnd (pipe_call D C ''status'' [] False) (\<lambda>(rc, out).
          if rc = 0 then lift_res (bind_res (loads out) (jget ''status'')) else pipe_ready D C n k)))"

definition pipe_start :: "pipe_world \<Rightarrow> pipe_place \<Rightarrow> nat \<Rightarrow> (lab, nat \<times> json) io" where
  "pipe_start D C k =
     (let W = pipe_stage D in
      bnd (lab_popen W (pipe_daemon C (pipe_name C)) (environ (lab_site W))) (\<lambda>n.
      try_except (bnd (pipe_ready D C n k) (\<lambda>st. ret (n, st))) (\<lambda>_. True) (\<lambda>e. seq (end_pipe W n) (raise e))))"

text \<open>A daemon for a block: started before it, terminated after it.\<close>

definition pipe_session :: "pipe_world \<Rightarrow> pipe_place \<Rightarrow> nat \<Rightarrow> (json \<Rightarrow> (lab, 'a) io) \<Rightarrow> (lab, 'a) io" where
  "pipe_session D C k body = bnd (pipe_start D C k) (\<lambda>(n, st). try_finally (body st) (end_pipe (pipe_stage D) n))"

definition has_value :: "string \<Rightarrow> string \<Rightarrow> json \<Rightarrow> bool res" where
  "has_value k want st = bind_res (jget k st) (\<lambda>v. Inr (v = JStr want))"

definition expect_value :: "string \<Rightarrow> string \<Rightarrow> json res \<Rightarrow> ('w, unit) io" where
  "expect_value k want st = bnd (lift_res (bind_res st (has_value k want))) (\<lambda>ok. assert_io ok [])"

definition has_key :: "string \<Rightarrow> json \<Rightarrow> bool" where
  "has_key k v = (case v of JObj ms \<Rightarrow> map_of ms k \<noteq> None | _ \<Rightarrow> False)"

definition json_string :: "json \<Rightarrow> string res" where
  "json_string v = (case v of JStr t \<Rightarrow> Inr t | _ \<Rightarrow> Inl type_error)"

definition pipe_checks :: "pipe_world \<Rightarrow> pipe_place \<Rightarrow> string \<Rightarrow> json \<Rightarrow> (lab, json) io" where
  "pipe_checks D C prof st =
     seq (expect_value ''state'' ''stopped'' (Inr st))
     (seq (pipe_call D C ''validate'' [''-config'', prof] True)
     (bnd (pipe_json D C ''save'' [''-config'', prof]) (\<lambda>saved.
     bnd (lift_res (jget ''revision'' saved)) (\<lambda>revision.
     bnd (finished D (pipe_daemon C (pipe_name C @ ''-other''))) (\<lambda>(rc, out, err).
     seq (assert_io (rc \<noteq> 0) ''state lock did not exclude duplicate daemon'')
     (bnd (lift_res (json_string revision)) (\<lambda>t.
     bnd (pipe_json D C ''start'' [''-if-revision'', t]) (\<lambda>running.
     seq (expect_value ''state'' ''running'' (jget ''status'' running))
     (bnd (pipe_call D C ''restart'' [''-if-revision'', ''stale''] False) (\<lambda>(rc, out).
     seq (assert_io (rc \<noteq> 0) [])
     (seq (assert_io (\<not> has_key ''config'' running) [])
     (bnd (pipe_call D C ''status'' [] True) (\<lambda>(rc, out).
     seq (assert_io (\<not> contains ''secret'' out) [])
     (bnd (pipe_json D C ''config'' []) (\<lambda>config.
     seq (expect_value ''inbound'' ''mixed'' (jget ''config'' config))
     (bnd (pipe_json D C ''stop'' []) (\<lambda>stopped.
     seq (expect_value ''state'' ''stopped'' (jget ''status'' stopped))
     (ret revision))))))))))))))))))"

definition pipe_restored :: "json \<Rightarrow> json \<Rightarrow> (lab, unit) io" where
  "pipe_restored revision st =
     bnd (lift_res (jget ''saved_revision'' st)) (\<lambda>r.
     seq (assert_io (r = revision) [])
     (expect_value ''state'' ''stopped'' (Inr st)))"

definition pipe_profile :: json where
  "pipe_profile =
     JObj [(''role'', JStr ''client''), (''inbound'', JStr ''mixed''), (''listen'', JStr ''127.0.0.1:0''), (''server'', JStr ''127.0.0.1:9''),
       (''secret'', JStr (secret_text (replicate 32 7))), (''tls'', JObj [(''mode'', JStr ''tls''), (''server_name'', JStr ''test.example'')])]"

definition windows_smoke :: "pipe_world \<Rightarrow> bool \<Rightarrow> path \<Rightarrow> path \<Rightarrow> string \<Rightarrow> nat \<Rightarrow> nat \<Rightarrow> (lab, unit) io" where
  "windows_smoke D nt bins tmp unique k k' =
     bnd (lift_res (guard nt (UsageError ''run this acceptance test on Windows''))) (\<lambda>_.
     lab_temp (pipe_stage D) ''veil-cli-'' tmp (\<lambda>root.
       let C = \<lparr>veild_exe = str (bins @ [''veild.exe'']), veilctl_exe = str (bins @ [''veilctl.exe'']), pipe_state = str (root @ [''state'']),
                 pipe_name = [CHR 92, CHR 92] @ ''.'' @ [CHR 92] @ ''pipe'' @ [CHR 92] @ ''veil-test-'' @ unique\<rparr>;
           prof = root @ [''import.json''] in
       seq (on_machine (write_file prof (dumps None pipe_profile)))
       (bnd (pipe_session D C k (pipe_checks D C (str prof))) (\<lambda>revision.
       pipe_session D C k' (pipe_restored revision)))))"

section \<open>\<^verbatim>\<open>gui/windows.py\<close>\<close>

text \<open>
  The options of a connection as WinINet takes them: a number and the value, of a union of a number and a text that may be null. The calls made, in their order;
  \<open>Freed\<close> is a text given back, by its place.
\<close>

datatype inet_value = Number "32 word" | Wide "string option"

type_synonym inet_option = "32 word \<times> inet_value"

datatype inet =
    Query "32 word list"
  | Set_options "inet_option list"
  | Notify "32 word"
  | Freed nat

record settings =
  proxy_flags :: int
  proxy_server :: string
  proxy_bypass :: string
  proxy_pac :: string

text \<open>
  The outside of the test: processes, what WinINet answers, whether a web server can be opened (plain or TLS) and on which port, and what the debugging port answers.
\<close>

record gui_world =
  gui_stage :: outside
  inet_query :: "32 word list \<Rightarrow> inet list \<Rightarrow> (32 word \<times> string option \<times> string option \<times> string option) option"
  inet_accepts :: "inet \<Rightarrow> inet list \<Rightarrow> bool"
  web_opens :: "bool \<Rightarrow> act list \<Rightarrow> int res"
  cdp_answers :: "act list \<Rightarrow> unit res"

text \<open>The state: the bench, the calls of WinINet, and for each web server whether it is open.\<close>

record desk =
  room :: lab
  inet_past :: "inet list"
  webs :: "bool list"

definition in_room :: "(lab, 'a) io \<Rightarrow> (desk, 'a) io" where
  "in_room m d = (case m (room d) of (r, l) \<Rightarrow> (r, d\<lparr>room := l\<rparr>))"

definition inet_ask :: "inet \<Rightarrow> (inet list \<Rightarrow> 'a) \<Rightarrow> (desk, 'a) io" where
  "inet_ask c f = bnd (gets (\<lambda>d. f (inet_past d))) (\<lambda>x. seq (modify (\<lambda>d. d\<lparr>inet_past := inet_past d @ [c]\<rparr>)) (ret x))"

definition win_error :: exn where
  "win_error = OSError ''WinError''"

definition inet_free :: "nat \<Rightarrow> string option \<Rightarrow> (desk, unit) io" where
  "inet_free i p = when_io (p \<noteq> None) (inet_ask (Freed i) (\<lambda>_. ()))"

definition wide_text :: "string option \<Rightarrow> string" where
  "wide_text p = (case p of None \<Rightarrow> [] | Some t \<Rightarrow> t)"

definition snapshot_ids :: "32 word list" where
  "snapshot_ids = [10, 2, 3, 4]"

definition snapshot :: "gui_world \<Rightarrow> (desk, settings) io" where
  "snapshot D =
     bnd (inet_ask (Query snapshot_ids) (inet_query D snapshot_ids)) (\<lambda>r.
     case r of
       None \<Rightarrow> raise win_error
     | Some (n, a, b, c) \<Rightarrow>
         seq (inet_free 1 a) (seq (inet_free 2 b) (seq (inet_free 3 c)
         (ret \<lparr>proxy_flags = uint n, proxy_server = wide_text a, proxy_bypass = wide_text b, proxy_pac = wide_text c\<rparr>))))"

text \<open>A \<open>DWORD\<close> takes a number modulo its width.\<close>

definition proxy_options :: "settings \<Rightarrow> inet_option list" where
  "proxy_options s =
     [(1, Number (word_of_int (proxy_flags s))), (2, Wide (Some (proxy_server s))), (3, Wide (Some (proxy_bypass s))), (4, Wide (Some (proxy_pac s)))]"

definition inet_set :: "gui_world \<Rightarrow> inet \<Rightarrow> (desk, unit) io" where
  "inet_set D c = bnd (inet_ask c (inet_accepts D c)) (\<lambda>ok. if ok then ret () else raise win_error)"

definition write_settings :: "gui_world \<Rightarrow> settings \<Rightarrow> (desk, unit) io" where
  "write_settings D s = seq (inet_set D (Set_options (proxy_options s))) (for_io [39, 37] (\<lambda>n. inet_set D (Notify n)))"

definition settings_json :: "settings \<Rightarrow> json" where
  "settings_json s =
     JObj [(''flags'', JInt (proxy_flags s)), (''server'', JStr (proxy_server s)), (''bypass'', JStr (proxy_bypass s)), (''pac'', JStr (proxy_pac s))]"

section \<open>\<^verbatim>\<open>gui/check.py\<close>\<close>

record gui_options =
  gui_package :: path
  gui_server :: path
  gui_artifacts :: path

text \<open>Unpacking a zip file: members keep below the folder, since empty parts, \<open>.\<close> and \<open>..\<close> are dropped from their names.\<close>

definition safe_parts :: "string \<Rightarrow> path" where
  "safe_parts name = filter (\<lambda>w. w \<notin> {[], ''.'', ''..''}) (split_char CHR ''/'' name)"

definition extract_member :: "path \<Rightarrow> member \<Rightarrow> (host, unit) io" where
  "extract_member dst m =
     (case m of (name, mode, c) \<Rightarrow>
      let p = dst @ safe_parts name in
      case c of None \<Rightarrow> mkdirs p | Some c \<Rightarrow> seq (mkdirs (butlast p)) (on_files (write_content p c)))"

definition extractall :: "path \<Rightarrow> path \<Rightarrow> (host, unit) io" where
  "extractall p dst =
     bnd (on_files (read_node p)) (\<lambda>c.
     case c of Bytes t \<Rightarrow> raise (ValueError ''File is not a zip file'') | Archive ms \<Rightarrow> for_io ms (extract_member dst))"

definition desktop_exes :: "path \<Rightarrow> fs \<Rightarrow> path list" where
  "desktop_exes folder fs =
     filter (exists fs) (map (\<lambda>d. folder @ [d, ''veil-desktop.exe'']) (filter (\<lambda>d. is_dir fs (folder @ [d])) (children fs folder)))"

definition the_exe :: "path list \<Rightarrow> path res" where
  "the_exe ps = (case ps of [p] \<Rightarrow> Inr p | _ \<Rightarrow> Inl (ValueError ''unpack''))"

definition gui_openssl :: "path \<Rightarrow> path \<Rightarrow> string list" where
  "gui_openssl cert key =
     [''openssl'', ''req'', ''-x509'', ''-newkey'', ''rsa:2048'', ''-nodes'', ''-keyout'', str key, ''-out'', str cert, ''-days'', ''1'', ''-subj'', ''/CN=localhost'',
      ''-addext'', ''subjectAltName=DNS:localhost,IP:127.0.0.1'']"

definition open_web :: "gui_world \<Rightarrow> bool \<Rightarrow> (desk, int) io" where
  "open_web D secure =
     bnd (in_room (ask (Tapped ''open'') (web_opens D secure))) (\<lambda>r.
     bnd (lift_res r) (\<lambda>p. seq (modify (\<lambda>d. d\<lparr>webs := webs d @ [True]\<rparr>)) (ret p)))"

definition gui_server_config :: "string \<Rightarrow> path \<Rightarrow> path \<Rightarrow> int \<Rightarrow> json" where
  "gui_server_config secret cert key p =
     JObj [(''role'', JStr ''server''), (''listen'', JStr (local_port p)), (''secret'', JStr secret),
       (''tls'', JObj [(''mode'', JStr ''tls''), (''server_name'', JStr ''localhost''), (''certificate'', JStr (str cert)), (''private_key_file'', JStr (str key))])]"

definition gui_client_config :: "string \<Rightarrow> path \<Rightarrow> int \<Rightarrow> int \<Rightarrow> json" where
  "gui_client_config secret cert proxy_p server_p =
     JObj [(''role'', JStr ''client''), (''listen'', JStr (local_port proxy_p)), (''inbound'', JStr ''mixed''), (''server'', JStr (local_port server_p)),
       (''secret'', JStr secret), (''tls'', JObj [(''mode'', JStr ''tls''), (''server_name'', JStr ''localhost''), (''ca_file'', JStr (str cert))])]"

definition gui_baseline :: settings where
  "gui_baseline = \<lparr>proxy_flags = 5, proxy_server = [], proxy_bypass = ''<local>'', proxy_pac = ''http://127.0.0.1:9/veil-test.pac''\<rparr>"

definition gui_launch :: "gui_world \<Rightarrow> gui_options \<Rightarrow> string \<Rightarrow> string list \<Rightarrow> (desk, nat) io" where
  "gui_launch D a name cmd =
     in_room (
       seq (on_machine (on_files (write_text (gui_artifacts a @ [name @ ''.log'']) [])))
       (seq (modify (\<lambda>l. l\<lparr>logs := logs l @ [True]\<rparr>))
       (lab_popen (gui_stage D) cmd (environ (lab_site (gui_stage D))))))"

text \<open>\<open>any(p.poll() is not None for p in processes)\<close> stops at the first that has ended.\<close>

primrec any_ended :: "outside \<Rightarrow> nat list \<Rightarrow> (lab, bool) io" where
  "any_ended W [] = ret False"
| "any_ended W (n # ns) =
     seq (lab_poll W n) (bnd (gets (\<lambda>l. alive (process_of l n))) (\<lambda>up. if up then any_ended W ns else ret True))"

text \<open>Whether the debugging port answers now; the loop ends with an error at the first failure after the deadline, \<open>k\<close> failures later.\<close>

definition cdp_open :: "gui_world \<Rightarrow> nat list \<Rightarrow> int \<Rightarrow> (lab, bool) io" where
  "cdp_open D ns p =
     bnd (any_ended (gui_stage D) ns) (\<lambda>gone.
     if gone then raise (RuntimeError ''desktop or fixture exited before CDP was ready'')
     else try_except (bnd (ask (Connected p) (cdp_answers D)) (\<lambda>r. bnd (lift_res r) (\<lambda>_. ret True))) is_os_error (\<lambda>_. ret False))"

primrec cdp_wait :: "gui_world \<Rightarrow> nat list \<Rightarrow> int \<Rightarrow> nat \<Rightarrow> (lab, unit) io" where
  "cdp_wait D ns p 0 =
     bnd (cdp_open D ns p) (\<lambda>ok. if ok then ret () else raise (TimeoutError ''WebView2 CDP did not become ready''))"
| "cdp_wait D ns p (Suc k) = bnd (cdp_open D ns p) (\<lambda>ok. if ok then ret () else cdp_wait D ns p k)"

definition gui_fixture :: "string \<Rightarrow> gui_options \<Rightarrow> path \<Rightarrow> int \<Rightarrow> int \<Rightarrow> int \<Rightarrow> int \<Rightarrow> json" where
  "gui_fixture exe a base cdp_p proxy_p http_p https_p =
     JObj [(''cdp'', JInt cdp_p), (''proxy'', JInt proxy_p), (''http'', JInt http_p), (''https'', JInt https_p),
       (''cert'', JStr (str (base @ [''cert.pem'']))), (''config'', JStr (str (base @ [''client.json'']))), (''python'', JStr exe),
       (''artifacts'', JStr (str (gui_artifacts a))), (''baseline'', settings_json gui_baseline)]"

text \<open>The test has the programs up: the desktop is driven by a script, must have ended well, restored the settings and left its port.\<close>

definition gui_drive :: "gui_world \<Rightarrow> gui_options \<Rightarrow> path \<Rightarrow> int \<Rightarrow> nat \<Rightarrow> (desk, unit) io" where
  "gui_drive D a base proxy_p desktop =
     (let W = gui_stage D; S = lab_site W in
      seq (in_room (on_machine (run (tool S) (cwd S) (environ S)
            [''node'', str (desktop_root S @ [''scripts'', ''gui'', ''check.mjs'']), str (base @ [''fixture.json''])])))
      (bnd (in_room (wait_exit W desktop)) (\<lambda>rc.
      seq (assert_io (rc = 0) ''explicit desktop exit failed'')
      (bnd (snapshot D) (\<lambda>now.
      bnd (in_room (on_machine (read_file (gui_artifacts a @ [''cleared-proxy.json''])))) (\<lambda>t.
      bnd (lift_res (loads t)) (\<lambda>cleared.
      seq (assert_io (py_eq (=) (settings_json now) cleared) ''explicit exit failed to restore cleared baseline'')
      (bnd (in_room (ask (Connected proxy_p) (connects W proxy_p))) (\<lambda>there.
      seq (assert_io (\<not> there) ''exit left proxy listening'')
      (in_room (on_machine (write_file (gui_artifacts a @ [''result.json''])
        (dumps None (JObj [(''passed'', JBool True), (''explicit_exit'', JBool True), (''proxy_restored'', JBool True)]))))))))))))))"

definition gui_body :: "gui_world \<Rightarrow> bytes \<Rightarrow> nat \<Rightarrow> gui_options \<Rightarrow> path \<Rightarrow> (desk, unit) io" where
  "gui_body D token k a base =
     (let W = gui_stage D; S = lab_site W; cert = base @ [''cert.pem'']; key = base @ [''key.pem'']; secret = secret_text token in
      seq (in_room (on_machine (extractall (gui_package a) (base @ [''package'']))))
      (bnd (in_room (gets (\<lambda>l. desktop_exes (base @ [''package'']) (files (machine l))))) (\<lambda>ps.
      bnd (lift_res (the_exe ps)) (\<lambda>exe.
      seq (in_room (on_machine (run (tool S) (cwd S) (environ S) (gui_openssl cert key))))
      (bnd (open_web D False) (\<lambda>http_p.
      bnd (open_web D True) (\<lambda>https_p.
      bnd (in_room (port W)) (\<lambda>server_p. bnd (in_room (port W)) (\<lambda>proxy_p. bnd (in_room (port W)) (\<lambda>cdp_p.
      seq (in_room (on_machine (write_file (base @ [''server.json'']) (dumps None (gui_server_config secret cert key server_p)))))
      (seq (in_room (on_machine (write_file (base @ [''client.json'']) (dumps None (gui_client_config secret cert proxy_p server_p)))))
      (seq (write_settings D gui_baseline)
      (bnd (gui_launch D a ''server'' [str (gui_server a), ''-config'', str (base @ [''server.json''])]) (\<lambda>server.
      bnd (gui_launch D a ''desktop'' [str exe, ''-state-dir'', str (base @ [''state'']), ''gui-acceptance'',
          ''--edge-webview-switches=--remote-debugging-port='' @ dec_int cdp_p]) (\<lambda>desktop.
      seq (in_room (cdp_wait D [server, desktop] cdp_p k))
      (seq (in_room (on_machine (write_file (base @ [''fixture.json'']) (dumps None (gui_fixture (python S) a base cdp_p proxy_p http_p https_p)))))
      (gui_drive D a base proxy_p desktop)))))))))))))))))"

text \<open>The final block: the processes, the last one first, then the web servers. What does not end within ten seconds ends the block.\<close>

definition gui_kill :: "outside \<Rightarrow> nat \<Rightarrow> (lab, unit) io" where
  "gui_kill W n =
     (let S = lab_site W in
      seq (lab_poll W n)
      (bnd (gets (\<lambda>l. alive (process_of l n))) (\<lambda>up.
      when_io up
        (seq (on_machine (call (tool S) (cwd S) (environ S) [''taskkill'', ''/PID'', dec (pid_of W n), ''/T'', ''/F'']))
        (seq (wait_exit W n) (ret ()))))))"

definition kill_all :: "outside \<Rightarrow> (lab, unit) io" where
  "kill_all W = bnd (gets (\<lambda>l. length (table l))) (\<lambda>n. for_io (rev [0..<n]) (gui_kill W))"

definition close_webs :: "(desk, unit) io" where
  "close_webs = modify (\<lambda>d. d\<lparr>webs := map (\<lambda>_. False) (webs d)\<rparr>)"

definition gui_end :: "gui_world \<Rightarrow> (desk, unit) io" where
  "gui_end D = seq (in_room (kill_all (gui_stage D))) close_webs"

text \<open>Leaving the stack: the logs are closed, then the settings of the user are written back, whatever was raised.\<close>

definition gui_unwind :: "gui_world \<Rightarrow> settings \<Rightarrow> (desk, unit) io" where
  "gui_unwind D original = seq (in_room close_logs) (write_settings D original)"

definition gui_block :: "gui_world \<Rightarrow> bytes \<Rightarrow> nat \<Rightarrow> gui_options \<Rightarrow> settings \<Rightarrow> path \<Rightarrow> (desk, unit) io" where
  "gui_block D token k a original base =
     try_finally (try_finally (gui_body D token k a base) (gui_end D)) (gui_unwind D original)"

definition gui_guard :: "bool \<Rightarrow> env \<Rightarrow> unit res" where
  "gui_guard nt env =
     guard (nt \<and> map_of env ''VEIL_TEST_SYSTEM_PROXY'' = Some ''1'')
       (UsageError ''requires Windows and VEIL_TEST_SYSTEM_PROXY=1 on an isolated user'')"

definition gui_present :: "path \<Rightarrow> (desk, unit) io" where
  "gui_present p = bnd (in_room (gets (\<lambda>l. exists (files (machine l)) p))) (\<lambda>there. if there then ret () else raise enoent)"

definition gui_temp :: "gui_world \<Rightarrow> path \<Rightarrow> (path \<Rightarrow> (desk, 'a) io) \<Rightarrow> (desk, 'a) io" where
  "gui_temp D tmp body =
     bnd (in_room (gets (\<lambda>l. (is_dir (files (machine l)) tmp, temp_name (lab_site (gui_stage D)) (files (machine l)) tmp)))) (\<lambda>(ok, n).
     if \<not> ok then raise enoent
     else let temp = tmp @ [''veil desktop gui '' @ n] in
       seq (in_room (on_machine (on_files (modify (put temp Dir)))))
           (try_finally (body temp) (in_room (on_machine (on_files (modify (del (inside temp))))))))"

definition gui_prepare :: "gui_options \<Rightarrow> (desk, unit) io" where
  "gui_prepare a =
     seq (gui_present (gui_server a)) (seq (gui_present (gui_package a)) (in_room (on_machine (mkdirs (gui_artifacts a)))))"

definition gui_main :: "gui_world \<Rightarrow> bool \<Rightarrow> bytes \<Rightarrow> nat \<Rightarrow> gui_options \<Rightarrow> path \<Rightarrow> (desk, unit) io" where
  "gui_main D nt token k a tmp =
     bnd (lift_res (gui_guard nt (environ (lab_site (gui_stage D))))) (\<lambda>_.
     seq (gui_prepare a)
     (bnd (snapshot D) (\<lambda>original.
     gui_temp D tmp (gui_block D token k a original))))"

section \<open>What a session leaves\<close>

text \<open>All but one process have ended, and nothing else is open.\<close>

definition others :: "nat \<Rightarrow> lab \<Rightarrow> bool" where
  "others n l \<longleftrightarrow> (\<forall>m<length (table l). m \<noteq> n \<longrightarrow> \<not> alive (process_of l m)) \<and> list_all Not (logs l) \<and> \<not> tap l"

definition is_expired :: "exn \<Rightarrow> bool" where
  "is_expired e = (case e of TimeoutExpired c \<Rightarrow> True | _ \<Rightarrow> False)"

lemma others_calmer: "others n l \<Longrightarrow> calmer l l' \<Longrightarrow> others n l'"
  by (auto simp: others_def calmer_def list_all_length)

interpretation alone: stable "others n" for n
proof
  fix l :: lab and g :: "process \<Rightarrow> process" and m
  assume c: "others n l" and g: "\<And>p. alive (g p) \<Longrightarrow> alive p"
  show "others n (l\<lparr>table := (table l)[m := map_prod id g (table l ! m)]\<rparr>)"
    by (rule others_calmer [OF c update_calmer [OF g]])
qed (simp_all add: others_def process_of_def)

lemma wait_exit_run:
  "wait_exit W n l = (case exit_status W n (past l) of
     None \<Rightarrow> (Inl (TimeoutExpired (fst (table l ! n))), l\<lparr>past := past l @ [Waited n]\<rparr>)
   | Some rc \<Rightarrow> (Inr rc, l\<lparr>past := past l @ [Waited n], table := (table l)[n := map_prod id (\<lambda>p. p\<lparr>alive := False\<rparr>) (table l ! n)]\<rparr>))"
  by (simp add: wait_exit_def ask_def noted_def set_process_def io_simps split: option.split)

interpretation session: trial_block "end_pipe W n" "others n" is_expired for W n
proof
  fix l l' r
  assume l: "others n l" and e: "end_pipe W n l = (r, l')"
  obtain l1 where s: "signal_process W n ''TERM'' l = (Inr (), l1)" by (auto simp: signal_process_def set_process_def seq_def io_simps intro: lab_poll_run [of W n l])
  have l1: "others n l1" by (rule keepsD [OF alone.keeps_expect(1) s l])
  show "clean l' \<or> (\<exists>e. r = Inl e \<and> is_expired e)"
  proof (cases "exit_status W n (past l1)")
    case None
    then show ?thesis using e s by (auto simp: end_pipe_def seq_def bnd_def wait_exit_run is_expired_def)
  next
    case (Some rc)
    then have "l' = l1\<lparr>past := past l1 @ [Waited n], table := (table l1)[n := map_prod id (\<lambda>p. p\<lparr>alive := False\<rparr>) (table l1 ! n)]\<rparr>"
      using e s by (auto simp: end_pipe_def seq_def bnd_def wait_exit_run ret_def)
    moreover have "\<not> alive (snd ((table l1)[n := map_prod id (\<lambda>p. p\<lparr>alive := False\<rparr>) (table l1 ! n)] ! m))" if "m < length (table l1)" for m
      using l1 that by (cases "m = n") (auto simp: others_def process_of_def)
    ultimately have "clean l'" using l1 by (auto simp: others_def clean_nth process_of_def list_all_length)
    then show ?thesis by simp
  qed
next
  show "keeps accounted (end_pipe W n)" unfolding end_pipe_def by (intro keeps_intros)
qed

context stable
begin

lemma keeps_pipe [keeps_intros]:
  "keeps I (finished D args)" "keeps I (pipe_call D C action flags success)" "keeps I (pipe_json D C action flags)" "keeps I (pipe_ready D C n k)"
  "keeps I (end_pipe W n)"
proof -
  show f: "keeps I (finished D args)" for args unfolding finished_def by (intro keeps_intros; simp)
  show c: "keeps I (pipe_call D C action flags success)" for action flags success unfolding pipe_call_def by (intro keeps_intros f)
  show "keeps I (pipe_json D C action flags)" unfolding pipe_json_def by (intro keeps_intros c)
  show "keeps I (pipe_ready D C n k)" by (induction k) (simp_all, (intro keeps_intros c; simp)+)
  show "keeps I (end_pipe W n)" unfolding end_pipe_def by (intro keeps_intros)
qed

lemma keeps_pipe_checks [keeps_intros]: "keeps I (expect_value k want r)" "keeps I (pipe_checks D C prof st)" "keeps I (pipe_restored revision st)"
proof -
  show e: "keeps I (expect_value k want r)" for k want r unfolding expect_value_def by (intro keeps_intros)
  show "keeps I (pipe_checks D C prof st)" unfolding pipe_checks_def by (intro keeps_intros e)
  show "keeps I (pipe_restored revision st)" unfolding pipe_restored_def by (intro keeps_intros e)
qed

end

text \<open>From a clean bench a start gives the only process that runs, or leaves the bench clean unless the daemon does not end.\<close>

lemma popen_alone:
  assumes "lab_popen W full env l = (Inr n, l')" and "clean l"
  shows "others n l'"
  using assms
  by (auto simp: lab_popen_def noted_def io_simps clean_nth others_def process_of_def nth_append list_all_length less_Suc_eq split: sum.splits)

lemma popen_fails: "lab_popen W full env l = (Inl e, l') \<Longrightarrow> l' = l"
  by (auto simp: lab_popen_def noted_def io_simps split: sum.splits)

lemma pipe_start_run:
  assumes "pipe_start D C k l = (r, l')" and "clean l" and "accounted l"
  shows "accounted l' \<and> (case r of Inl e \<Rightarrow> clean l' \<or> is_expired e | Inr (n, st) \<Rightarrow> others n l')"
proof -
  let ?W = "pipe_stage D"
  obtain rp lp where p: "lab_popen ?W (pipe_daemon C (pipe_name C)) (environ (lab_site ?W)) l = (rp, lp)" by fastforce
  have lp: "accounted lp" by (rule keepsD [OF spawn_accounted(1) p assms(3)])
  show ?thesis
  proof (cases rp)
    case (Inl e)
    then have "r = Inl e" "l' = l" using p assms(1) popen_fails by (auto simp: pipe_start_def Let_def bnd_def)
    with assms show ?thesis by simp
  next
    case (Inr n)
    have o: "others n lp" using popen_alone p Inr assms(2) by blast
    obtain rr lr where w: "pipe_ready D C n k lp = (rr, lr)" by fastforce
    have lr: "others n lr" "accounted lr" by (rule keepsD [OF alone.keeps_pipe(4) w o], rule keepsD [OF accounted.keeps_pipe(4) w lp])
    show ?thesis
    proof (cases rr)
      case bad: (Inl e)
      obtain re le where q: "end_pipe ?W n lr = (re, le)" by fastforce
      have "accounted le" by (rule keepsD [OF accounted.keeps_pipe(5) q lr(2)])
      moreover have "clean le \<or> (\<exists>e. re = Inl e \<and> is_expired e)" by (rule session.outcome [OF lr(1) q])
      moreover have "r = (case re of Inl e' \<Rightarrow> Inl e' | Inr u \<Rightarrow> Inl e)" "l' = le"
        using assms(1) p Inr w bad q by (auto simp: pipe_start_def Let_def bnd_def try_except_def seq_def raise_def split: sum.splits)
      ultimately show ?thesis by (cases re) auto
    next
      case (Inr st)
      then have "r = Inr (n, st)" "l' = lr"
        using assms(1) p \<open>rp = Inr n\<close> w by (auto simp: pipe_start_def Let_def bnd_def try_except_def ret_def)
      with lr show ?thesis by simp
    qed
  qed
qed

lemma session_leaves:
  assumes "\<And>n st. keeps (others n) (body st)" and "\<And>st. keeps accounted (body st)"
  shows "leaves (\<lambda>_. True) is_expired (pipe_session D C k body)"
  unfolding leaves_def
proof (intro allI impI, elim conjE)
  fix l
  assume l: "accounted l" "clean l"
  obtain r l1 where s: "pipe_start D C k l = (r, l1)" by fastforce
  note run = pipe_start_run [OF s l(2,1)]
  show "case pipe_session D C k body l of (r, l') \<Rightarrow> accounted l' \<and> (clean l' \<or> (\<exists>e. r = Inl e \<and> is_expired e))"
  proof (cases r)
    case (Inl e)
    then show ?thesis using s run by (simp add: pipe_session_def bnd_def)
  next
    case (Inr x)
    obtain n st where x: "x = (n, st)" by (cases x)
    have "pipe_session D C k body l = try_finally (body st) (end_pipe (pipe_stage D) n) l1"
      using s Inr x by (simp add: pipe_session_def bnd_def)
    then show ?thesis using session.ends_clean [of n "body st" l1, OF assms, of "pipe_stage D"] run Inr x by simp
  qed
qed

lemma leaves_then:
  assumes "leaves (\<lambda>_. True) fails m" and "\<And>x. leaves (\<lambda>_. True) fails (f x)"
  shows "leaves (\<lambda>_. True) fails (bnd m f)"
  unfolding leaves_def
proof (intro allI impI, elim conjE)
  fix l
  assume l: "accounted l" "clean l"
  obtain r l1 where m: "m l = (r, l1)" by fastforce
  with assms(1) l have l1: "accounted l1" "clean l1 \<or> (\<exists>e. r = Inl e \<and> fails e)" by (auto simp: leaves_def dest!: spec [of _ l])
  show "case bnd m f l of (r, l') \<Rightarrow> accounted l' \<and> (clean l' \<or> (\<exists>e. r = Inl e \<and> fails e))"
    using assms(2) l1 m by (cases r) (auto simp: bnd_def leaves_def)
qed

text \<open>A temporary folder around a program that leaves the bench clean.\<close>

lemma leaves_temp:
  assumes "\<And>folder. leaves (\<lambda>_. True) fails (body folder)"
  shows "leaves (\<lambda>_. True) fails (lab_temp W pre tmp body)"
proof -
  have "leaves (\<lambda>_. True) fails (try_finally (body folder) (on_machine (on_files (modify g))))" for folder g
    unfolding leaves_def
  proof (intro allI impI, elim conjE)
    fix l
    assume l: "accounted l" "clean l"
    obtain r l1 where m: "body folder l = (r, l1)" by fastforce
    with assms [of folder] l have l1: "accounted l1" "clean l1 \<or> (\<exists>e. r = Inl e \<and> fails e)" by (auto simp: leaves_def dest!: spec [of _ l])
    show "case try_finally (body folder) (on_machine (on_files (modify g))) l of
        (r, l') \<Rightarrow> accounted l' \<and> (clean l' \<or> (\<exists>e. r = Inl e \<and> fails e))"
      using l1 m by (auto simp: try_finally_def on_machine_def on_files_def modify_def accounted_def clean_def)
  qed
  then show ?thesis
    unfolding lab_temp_def Let_def case_prod_beta
    by (intro leaves_bnd leaves_seq keeps_intros leaves_if leaves_raise keeps_True)
qed

section \<open>What the test of the desktop leaves\<close>

lemma in_room_run: "in_room m d = (r, d') \<longleftrightarrow> (\<exists>l. m (room d) = (r, l) \<and> d' = d\<lparr>room := l\<rparr>)"
  by (auto simp: in_room_def split: prod.split)

lemma wait_exit_calmer:
  assumes "wait_exit W n l = (r, l')"
  shows "calmer l l' \<and> (case r of Inl e \<Rightarrow> is_expired e | Inr rc \<Rightarrow> n < length (table l) \<longrightarrow> \<not> alive (process_of l' n))"
proof (cases "exit_status W n (past l)")
  case None
  then show ?thesis using assms by (auto simp: wait_exit_run is_expired_def calmer_def process_of_def)
next
  case (Some rc)
  let ?l = "l\<lparr>past := past l @ [Waited n]\<rparr>"
  have l': "r = Inr rc" "l' = ?l\<lparr>table := (table ?l)[n := map_prod id (\<lambda>p. p\<lparr>alive := False\<rparr>) (table ?l ! n)]\<rparr>"
    using assms Some by (simp_all add: wait_exit_run)
  have "calmer l ?l" by (simp add: calmer_def process_of_def)
  moreover have "calmer ?l l'" unfolding l'(2) by (rule update_calmer) simp
  ultimately have "calmer l l'" by (rule calmer_trans)
  with l' show ?thesis by (simp add: process_of_def)
qed

text \<open>What a final step on a process promises: nothing comes back, and it has ended or did not end in time.\<close>

definition ends :: "nat list \<Rightarrow> lab \<Rightarrow> unit res \<Rightarrow> lab \<Rightarrow> bool" where
  "ends ns l r l' \<longleftrightarrow> calmer l l' \<and>
     (case r of Inl e \<Rightarrow> is_expired e | Inr u \<Rightarrow> \<forall>n \<in> set ns. n < length (table l) \<longrightarrow> \<not> alive (process_of l' n))"

lemma on_machine_calmer: "calmer l (snd (on_machine m l))"
  by (auto simp: on_machine_def calmer_def process_of_def split: prod.split)

lemma call_machine: "\<exists>x. fst (on_machine (call t p env args) l) = Inr x"
  by (simp add: on_machine_def call_def split: prod.split)

lemma gui_kill_ends: "ends [n] l (fst (gui_kill W n l)) (snd (gui_kill W n l))"
proof -
  obtain l1 where p: "lab_poll W n l = (Inr (), l1)" "calmer l l1" by (rule lab_poll_run) blast
  show ?thesis
  proof (cases "alive (process_of l1 n)")
    case False
    then show ?thesis using p by (simp add: gui_kill_def Let_def ends_def io_simps)
  next
    case True
    let ?t = "on_machine (call (tool (lab_site W)) (cwd (lab_site W)) (environ (lab_site W)) [''taskkill'', ''/PID'', dec (pid_of W n), ''/T'', ''/F'']) l1"
    obtain x where x: "fst ?t = Inr x" using call_machine by blast
    obtain r l2 where w: "wait_exit W n (snd ?t) = (r, l2)" by fastforce
    have "gui_kill W n l = (case r of Inl e \<Rightarrow> Inl e | Inr rc \<Rightarrow> Inr (), l2)"
      using p True x w by (cases ?t) (auto simp: gui_kill_def Let_def io_simps split: sum.splits)
    moreover have "calmer l (snd ?t)" by (rule calmer_trans [OF p(2) on_machine_calmer])
    moreover from this have "length (table (snd ?t)) = length (table l)" by (simp add: calmer_def)
    ultimately show ?thesis using wait_exit_calmer [OF w] calmer_trans by (cases r) (auto simp: ends_def)
  qed
qed

lemma kills_end: "ends ns l (fst (for_io ns (gui_kill W) l)) (snd (for_io ns (gui_kill W) l))"
proof (induction ns arbitrary: l)
  case Nil
  then show ?case by (simp add: ends_def ret_def)
next
  case (Cons n ns)
  obtain r l1 where k: "gui_kill W n l = (r, l1)" by fastforce
  note one = gui_kill_ends [of n l W, unfolded k fst_conv snd_conv] and rest = Cons.IH [of l1]
  have len: "length (table l1) = length (table l)" using one by (simp add: ends_def calmer_def)
  show ?case
  proof (cases r)
    case (Inl e)
    then show ?thesis using one k by (simp add: ends_def seq_def bnd_def)
  next
    case (Inr u)
    obtain r2 l2 where k2: "for_io ns (gui_kill W) l1 = (r2, l2)" by fastforce
    have "calmer l l2" using one rest calmer_trans by (auto simp: ends_def k2)
    moreover have "\<not> alive (process_of l2 n)" if "n < length (table l)"
      using one rest that Inr len by (auto simp: ends_def k2 calmer_def)
    ultimately show ?thesis using rest k k2 Inr len by (cases r2) (auto simp: ends_def seq_def bnd_def)
  qed
qed

definition quiet :: "desk \<Rightarrow> bool" where
  "quiet d \<longleftrightarrow> list_all (\<lambda>cp. \<not> alive (snd cp)) (table (room d)) \<and> list_all Not (webs d)"

lemma gui_end_run:
  assumes "gui_end D d = (r, d')"
  shows "quiet d' \<or> (\<exists>e. r = Inl e \<and> is_expired e)"
proof -
  let ?n = "length (table (room d))"
  obtain r1 l where k: "for_io (rev [0..<?n]) (gui_kill (gui_stage D)) (room d) = (r1, l)" by fastforce
  have e: "ends (rev [0..<?n]) (room d) r1 l" using kills_end [of "rev [0..<?n]" "room d" "gui_stage D"] k by simp
  have "in_room (kill_all (gui_stage D)) d = (r1, d\<lparr>room := l\<rparr>)"
    using k by (simp add: in_room_def kill_all_def bnd_def gets_def)
  then have "gui_end D d = (case r1 of Inl e \<Rightarrow> (Inl e, d\<lparr>room := l\<rparr>) | Inr u \<Rightarrow> (Inr (), d\<lparr>room := l, webs := map (\<lambda>_. False) (webs d)\<rparr>))"
    by (simp add: gui_end_def seq_def bnd_def close_webs_def modify_def split: sum.split)
  then show ?thesis
    using assms e by (cases r1) (auto simp: ends_def quiet_def list_all_length process_of_def calmer_def)
qed

lemma inet_ask_run: "inet_ask c f d = (Inr (f (inet_past d)), d\<lparr>inet_past := inet_past d @ [c]\<rparr>)"
  by (simp add: inet_ask_def io_simps)

text \<open>Writing settings: whatever WinINet says, the call with the settings is the last that sets any.\<close>

definition is_set :: "inet \<Rightarrow> bool" where
  "is_set c = (case c of Set_options os \<Rightarrow> True | _ \<Rightarrow> False)"

lemma inet_set_run:
  "inet_set D c d = (if inet_accepts D c (inet_past d) then Inr () else Inl win_error, d\<lparr>inet_past := inet_past d @ [c]\<rparr>)"
  by (simp add: inet_set_def bnd_def inet_ask_run ret_def raise_def)

lemma write_settings_run:
  assumes "write_settings D s d = (r, d')"
  obtains rest where "d' = d\<lparr>inet_past := inet_past d @ Set_options (proxy_options s) # rest\<rparr>" "filter is_set rest = []" "\<And>e. r = Inl e \<Longrightarrow> e = win_error"
  using assms by (auto simp: write_settings_def seq_def bnd_def inet_set_run ret_def is_set_def split: if_splits)

lemma gui_unwind_run:
  assumes "gui_unwind D s d = (r, d')"
  obtains rest where "d' = d\<lparr>room := (room d)\<lparr>logs := map (\<lambda>_. False) (logs (room d))\<rparr>, inet_past := inet_past d @ Set_options (proxy_options s) # rest\<rparr>"
    "filter is_set rest = []" "\<And>e. r = Inl e \<Longrightarrow> e = win_error"
proof -
  let ?d = "d\<lparr>room := (room d)\<lparr>logs := map (\<lambda>_. False) (logs (room d))\<rparr>\<rparr>"
  have "write_settings D s ?d = (r, d')"
    using assms by (simp add: gui_unwind_def seq_def bnd_def in_room_def close_logs_run)
  then show ?thesis by (rule write_settings_run) (rule that, simp_all)
qed

text \<open>
  Predicates of the calls that were made and of what the test holds open: they do not depend on the bench, and every further call and every web server keeps them.
\<close>

locale calls_kept =
  fixes I :: "desk \<Rightarrow> bool"
  assumes room: "I d \<Longrightarrow> I (d\<lparr>room := l\<rparr>)"
    and call: "I d \<Longrightarrow> I (d\<lparr>inet_past := inet_past d @ [c]\<rparr>)"
    and web: "I d \<Longrightarrow> I (d\<lparr>webs := ws\<rparr>)"
begin

lemma keeps_in_room [keeps_intros]: "keeps I (in_room m)"
  by (auto simp: keeps_def in_room_def room split: prod.split)

lemma keeps_inet_ask [keeps_intros]: "keeps I (inet_ask c f)"
  by (simp add: keeps_def inet_ask_run call)

lemma keeps_inet [keeps_intros]: "keeps I (inet_set D c)" "keeps I (inet_free i p)"
  unfolding inet_set_def inet_free_def by (intro keeps_intros)+

lemma keeps_settings [keeps_intros]: "keeps I (write_settings D s)" "keeps I (snapshot D)"
proof -
  show "keeps I (write_settings D s)" unfolding write_settings_def by (intro keeps_intros)
  show "keeps I (snapshot D)" unfolding snapshot_def
    by (intro keeps_intros; simp split: option.split prod.split; intro allI impI conjI keeps_intros)
qed

lemma keeps_webs [keeps_intros]: "keeps I (open_web D secure)" "keeps I close_webs"
proof -
  have w: "keeps I (modify (\<lambda>d. d\<lparr>webs := F d\<rparr>))" for F by (simp add: keeps_def modify_def web)
  show "keeps I (open_web D secure)" unfolding open_web_def by (intro keeps_intros w)
  show "keeps I close_webs" unfolding close_webs_def by (rule w)
qed

lemma keeps_gui_parts [keeps_intros]: "keeps I (gui_launch D a name cmd)" "keeps I (gui_drive D a base p n)" "keeps I (gui_end D)" "keeps I (gui_present q)"
  unfolding gui_launch_def gui_drive_def gui_end_def gui_present_def assert_io_def Let_def by (intro keeps_intros)+

lemma keeps_gui_body [keeps_intros]: "keeps I (gui_body D token k a base)"
  unfolding gui_body_def Let_def by (intro keeps_intros)

end

interpretation grown: calls_kept "\<lambda>d. \<exists>calls. inet_past d = base @ calls" for base
  by unfold_locales auto

text \<open>The bench, seen from the desk.\<close>

lemma keeps_room [keeps_intros]: "keeps J m \<Longrightarrow> keeps (\<lambda>d. J (room d)) (in_room m)"
  by (auto simp: keeps_def in_room_def split: prod.split)

lemma room_inet [keeps_intros]:
  "keeps (\<lambda>d. J (room d)) (inet_ask c f)" "keeps (\<lambda>d. J (room d)) (modify (\<lambda>d. d\<lparr>webs := F d\<rparr>))"
  by (simp_all add: keeps_def inet_ask_run modify_def)

lemma room_settings [keeps_intros]: "keeps (\<lambda>d. J (room d)) (write_settings D s)" "keeps (\<lambda>d. J (room d)) (snapshot D)"
proof -
  show "keeps (\<lambda>d. J (room d)) (write_settings D s)" unfolding write_settings_def inet_set_def by (intro keeps_intros)
  show "keeps (\<lambda>d. J (room d)) (snapshot D)" unfolding snapshot_def inet_free_def
    by (intro keeps_intros; simp split: option.split prod.split; intro allI impI conjI keeps_intros)
qed

context stable
begin

lemma keeps_cdp [keeps_intros]: "keeps I (any_ended W ns)" "keeps I (cdp_open D ns p)" "keeps I (cdp_wait D ns p k)"
proof -
  show a: "keeps I (any_ended W ns)" for W ns by (induction ns) (simp_all, (intro keeps_intros; simp)+)
  show o: "keeps I (cdp_open D ns p)" unfolding cdp_open_def by (intro keeps_intros a; simp)
  show "keeps I (cdp_wait D ns p k)" by (induction k) (simp_all, (intro keeps_intros o)+)
qed

lemma keeps_kill [keeps_intros]: "keeps I (gui_kill W n)" "keeps I (kill_all W)"
proof -
  show k: "keeps I (gui_kill W n)" for n unfolding gui_kill_def Let_def by (intro keeps_intros)
  show "keeps I (kill_all W)" unfolding kill_all_def by (intro keeps_intros k)
qed

end

lemma gui_body_accounted [keeps_intros]: "keeps (\<lambda>d. accounted (room d)) (gui_body D token k a base)"
  unfolding gui_body_def gui_drive_def gui_launch_def open_web_def assert_io_def Let_def
  by (intro keeps_intros; simp)

lemma gui_end_accounted [keeps_intros]: "keeps (\<lambda>d. accounted (room d)) (gui_end D)"
  unfolding gui_end_def close_webs_def by (intro keeps_intros)

text \<open>The block of the test, from any desk.\<close>

lemma gui_block_run:
  assumes "gui_block D token k a original base d = (r, d')"
  obtains calls rest where "inet_past d' = inet_past d @ calls @ Set_options (proxy_options original) # rest" "filter is_set rest = []"
    "list_all Not (logs (room d'))" "quiet d' \<or> (\<exists>e. r = Inl e \<and> (is_expired e \<or> e = win_error))" "accounted (room d) \<Longrightarrow> accounted (room d')"
proof -
  obtain rb d1 where b: "gui_body D token k a base d = (rb, d1)" by fastforce
  obtain re d2 where e: "gui_end D d1 = (re, d2)" by fastforce
  obtain ru d3 where u: "gui_unwind D original d2 = (ru, d3)" by fastforce
  have r: "r = (case ru of Inl x \<Rightarrow> Inl x | Inr v \<Rightarrow> (case re of Inl x \<Rightarrow> Inl x | Inr w \<Rightarrow> rb))" "d' = d3"
    using assms b e u by (auto simp: gui_block_def try_finally_def split: sum.splits)
  obtain c1 where "inet_past d1 = inet_past d @ c1" using keepsD [OF grown.keeps_gui_body b, of "inet_past d"] by auto
  moreover obtain c2 where "inet_past d2 = inet_past d1 @ c2" using keepsD [OF grown.keeps_gui_parts(3) e, of "inet_past d1"] by auto
  moreover obtain rest where rest: "d3 = d2\<lparr>room := (room d2)\<lparr>logs := map (\<lambda>_. False) (logs (room d2))\<rparr>,
      inet_past := inet_past d2 @ Set_options (proxy_options original) # rest\<rparr>" "filter is_set rest = []" "\<And>e. ru = Inl e \<Longrightarrow> e = win_error"
    using u by (rule gui_unwind_run) blast
  ultimately have calls: "inet_past d' = inet_past d @ (c1 @ c2) @ Set_options (proxy_options original) # rest" using r by simp
  have "quiet d' \<or> (\<exists>e. r = Inl e \<and> (is_expired e \<or> e = win_error))"
    using gui_end_run [OF e] rest r by (cases ru; cases re) (auto simp: quiet_def)
  moreover have "accounted (room d')" if "accounted (room d)"
    using keepsD [OF gui_end_accounted e] keepsD [OF gui_body_accounted b] that rest(1) r(2) by (simp add: accounted_def)
  moreover have "list_all Not (logs (room d'))" using rest(1) r(2) by (simp add: list_all_iff)
  ultimately show ?thesis using that [OF calls rest(2)] by blast
qed

text \<open>What WinINet said when the test began.\<close>

definition settings_at :: "gui_world \<Rightarrow> inet list \<Rightarrow> settings option" where
  "settings_at D calls =
     map_option (\<lambda>(n, a, b, c). \<lparr>proxy_flags = uint n, proxy_server = wide_text a, proxy_bypass = wide_text b, proxy_pac = wide_text c\<rparr>)
       (inet_query D snapshot_ids calls)"

lemma inet_free_run: "inet_free i p d = (Inr (), d\<lparr>inet_past := inet_past d @ (if p = None then [] else [Freed i])\<rparr>)"
  by (simp add: inet_free_def when_io_def inet_ask_run ret_def)

lemma snapshot_run:
  assumes "snapshot D d = (r, d')"
  obtains freed where "d' = d\<lparr>inet_past := inet_past d @ Query snapshot_ids # freed\<rparr>" "filter is_set freed = []"
    "r = (case settings_at D (inet_past d) of None \<Rightarrow> Inl win_error | Some s \<Rightarrow> Inr s)"
  using assms
  by (cases "inet_query D snapshot_ids (inet_past d)")
    (auto simp: snapshot_def inet_ask_run bnd_def seq_def settings_at_def raise_def ret_def inet_free_run is_set_def split: prod.splits)

text \<open>A temporary folder around a block touches the calls, the web servers and the processes as the block does.\<close>

lemma gui_temp_run:
  assumes "gui_temp D tmp body d = (r, d')"
  obtains "d' = d" "\<exists>e. r = Inl e"
  | base h h' d1 where "body base (d\<lparr>room := (room d)\<lparr>machine := h\<rparr>\<rparr>) = (r, d1)" "d' = d1\<lparr>room := (room d1)\<lparr>machine := h'\<rparr>\<rparr>"
proof (cases "is_dir (files (machine (room d))) tmp")
  case False
  then show ?thesis using assms that(1) by (auto simp: gui_temp_def bnd_def in_room_def gets_def raise_def)
next
  case True
  define base where "base = tmp @ [''veil desktop gui '' @ temp_name (lab_site (gui_stage D)) (files (machine (room d))) tmp]"
  let ?h = "(machine (room d))\<lparr>files := put base Dir (files (machine (room d)))\<rparr>"
  obtain r1 d1 where b: "body base (d\<lparr>room := (room d)\<lparr>machine := ?h\<rparr>\<rparr>) = (r1, d1)" by fastforce
  have "gui_temp D tmp body d = try_finally (body base) (in_room (on_machine (on_files (modify (del (inside base)))))) (d\<lparr>room := (room d)\<lparr>machine := ?h\<rparr>\<rparr>)"
    using True by (simp add: gui_temp_def base_def Let_def seq_def bnd_def in_room_def gets_def on_machine_def on_files_def modify_def)
  then have "r = r1" "d' = d1\<lparr>room := (room d1)\<lparr>machine := (machine (room d1))\<lparr>files := del (inside base) (files (machine (room d1)))\<rparr>\<rparr>\<rparr>"
    using assms b by (simp_all add: try_finally_def in_room_def on_machine_def on_files_def modify_def)
  with b show ?thesis using that(2) by blast
qed

lemma gui_prepare_run:
  obtains h where "snd (gui_prepare a d) = d\<lparr>room := (room d)\<lparr>machine := h\<rparr>\<rparr>"
proof -
  have "gui_present q d = (if exists (files (machine (room d))) q then Inr () else Inl enoent, d)" for q
    by (simp add: gui_present_def bnd_def in_room_def gets_def ret_def raise_def)
  then have "\<exists>h. snd (gui_prepare a d) = d\<lparr>room := (room d)\<lparr>machine := h\<rparr>\<rparr>"
    by (cases "exists (files (machine (room d))) (gui_server a)"; cases "exists (files (machine (room d))) (gui_package a)";
        cases "mkdirs (gui_artifacts a) (machine (room d))")
      (auto simp: gui_prepare_def seq_def bnd_def in_room_def on_machine_def intro: exI [of _ "machine (room d)"])
  then show ?thesis using that by blast
qed

text \<open>Either the test ended before it set anything, and only files have changed, or it went through its block with the settings it had found.\<close>

lemma gui_main_run:
  assumes "gui_main D nt token k a tmp d = (r, d')"
  obtains (early) h calls where "d' = d\<lparr>room := (room d)\<lparr>machine := h\<rparr>, inet_past := inet_past d @ calls\<rparr>" "filter is_set calls = []"
  | (block) original base h h' found d1 where "settings_at D (inet_past d) = Some original"
    "gui_block D token k a original base (d\<lparr>inet_past := inet_past d @ found, room := (room d)\<lparr>machine := h\<rparr>\<rparr>) = (r, d1)"
    "d' = d1\<lparr>room := (room d1)\<lparr>machine := h'\<rparr>\<rparr>" "filter is_set found = []"
proof (cases "gui_guard nt (environ (lab_site (gui_stage D)))")
  case (Inl e)
  then show ?thesis using assms early [of "[]" "machine (room d)"] by (simp add: gui_main_def bnd_def lift_res_def)
next
  case ok: (Inr u)
  obtain h where h: "snd (gui_prepare a d) = d\<lparr>room := (room d)\<lparr>machine := h\<rparr>\<rparr>" by (rule gui_prepare_run)
  show ?thesis
  proof (cases "fst (gui_prepare a d)")
    case (Inl e)
    then show ?thesis using assms ok h early [of "[]" h]
      by (cases "gui_prepare a d") (simp add: gui_main_def bnd_def seq_def lift_res_def)
  next
    case (Inr v)
    let ?d = "d\<lparr>room := (room d)\<lparr>machine := h\<rparr>\<rparr>"
    have run: "bnd (snapshot D) (\<lambda>original. gui_temp D tmp (gui_block D token k a original)) ?d = (r, d')"
      using assms ok h Inr by (cases "gui_prepare a d") (simp add: gui_main_def bnd_def seq_def lift_res_def)
    obtain rs ds where s: "snapshot D ?d = (rs, ds)" by fastforce
    then obtain freed where ds: "ds = ?d\<lparr>inet_past := inet_past ?d @ Query snapshot_ids # freed\<rparr>" "filter is_set freed = []"
      "rs = (case settings_at D (inet_past ?d) of None \<Rightarrow> Inl win_error | Some s \<Rightarrow> Inr s)" by (rule snapshot_run)
    have found: "filter is_set (Query snapshot_ids # freed) = []" using ds(2) by (simp add: is_set_def)
    show ?thesis
    proof (cases "settings_at D (inet_past d)")
      case None
      then have "d' = ds" using run s ds(3) by (simp add: bnd_def)
      then show ?thesis using early [OF _ found] ds(1) by simp
    next
      case (Some original)
      then have "gui_temp D tmp (gui_block D token k a original) ds = (r, d')" using run s ds(3) by (simp add: bnd_def)
      then show ?thesis
      proof (cases rule: gui_temp_run)
        case 1
        then show ?thesis using early [OF _ found] ds(1) by simp
      next
        case (2 base h1 h2 d1)
        then show ?thesis using block [OF Some _ 2(2) found, of base h1] ds(1) by simp
      qed
    qed
  qed
qed

section \<open>Theorems\<close>

text \<open>
  However the test on Windows ends, in its checks, between them or while a daemon starts, every daemon it started has ended, unless one did not end within
  ten seconds after it was terminated, which is then the error of the test.
\<close>

theorem windows_smoke_ends:
  "case windows_smoke D nt bins tmp unique k k' (new_lab h) of
     (r, l) \<Rightarrow> accounted l \<and> (clean l \<or> (\<exists>e. r = Inl e \<and> is_expired e))"
proof (rule leaves_new)
  show "leaves (\<lambda>_. True) is_expired (windows_smoke D nt bins tmp unique k k')"
    unfolding windows_smoke_def Let_def
    by (intro leaves_bnd leaves_seq leaves_temp leaves_then session_leaves keeps_intros keeps_True)
qed simp

text \<open>
  C40. However the test of the desktop ends, also when a program does not end or the block that ends the programs raises: either it has set no proxy settings at all, or
  the settings it set last are those it found before it set any.
\<close>

theorem gui_main_restores:
  "case gui_main D nt token k a tmp d of (r, d') \<Rightarrow>
     \<exists>calls. inet_past d' = inet_past d @ calls \<and>
       (filter is_set calls = [] \<or>
        (case settings_at D (inet_past d) of
           None \<Rightarrow> False
         | Some original \<Rightarrow> last (filter is_set calls) = Set_options (proxy_options original)))"
proof (cases "gui_main D nt token k a tmp d")
  case (Pair r d')
  then show ?thesis
  proof (cases rule: gui_main_run)
    case (early h calls)
    then show ?thesis using Pair by auto
  next
    case (block original base h h' found d1)
    from block(2) obtain calls rest where "inet_past d1 = inet_past d @ found @ calls @ Set_options (proxy_options original) # rest" "filter is_set rest = []"
      by (rule gui_block_run) simp
    then show ?thesis using Pair block(1,3) by (auto simp: is_set_def)
  qed
qed

text \<open>
  However the test of the desktop ends, no process is forgotten and every log is closed; and all processes have ended and the web servers are closed, unless
  a process did not end within ten seconds or the settings could not be written back, which is then the error of the test.
\<close>

theorem gui_main_ends:
  "case gui_main D nt token k a tmp \<lparr>room = new_lab h, inet_past = [], webs = []\<rparr> of (r, d) \<Rightarrow>
     accounted (room d) \<and> list_all Not (logs (room d)) \<and> (quiet d \<or> (\<exists>e. r = Inl e \<and> (is_expired e \<or> e = win_error)))"
proof (cases "gui_main D nt token k a tmp \<lparr>room = new_lab h, inet_past = [], webs = []\<rparr>")
  case (Pair r d)
  then show ?thesis
  proof (cases rule: gui_main_run)
    case (early h calls)
    then show ?thesis using Pair by (simp add: new_lab_def accounted_def started_commands_def quiet_def)
  next
    case (block original base h1 h' found d1)
    from block(2) have "list_all Not (logs (room d1))" "quiet d1 \<or> (\<exists>e. r = Inl e \<and> (is_expired e \<or> e = win_error))" "accounted (room d1)"
      by (rule gui_block_run, simp_all add: new_lab_def accounted_def started_commands_def)+
    then show ?thesis using Pair block(3) by (simp add: quiet_def accounted_def)
  qed
qed

end
