(* ===== verification/Platforms.thy ===== *)
theory Platforms
  imports Desktops
begin

text \<open>
  Acceptance tests in containers: the PHP adapter of OPNsense against a daemon, \<^verbatim>\<open>veil-service/scripts/opnsense_catalog_check.py\<close>, and installation and life cycle
  under systemd, \<^verbatim>\<open>systemd_check.py\<close>.
\<close>

section \<open>\<^verbatim>\<open>opnsense_catalog_check.py\<close>\<close>

record php_world =
  php_stage :: outside
  socket_there :: "act list \<Rightarrow> bool"

definition docker_build :: "string \<Rightarrow> string list" where
  "docker_build img =
     [''docker'', ''build'', ''-q'', ''--network'', ''host'', ''--build-arg'', ''http_proxy'', ''--build-arg'', ''https_proxy'', ''-t'', img, ''-'']"

definition docker_rm :: "string \<Rightarrow> string list" where
  "docker_rm img = [''docker'', ''image'', ''rm'', img]"

definition docker_php :: "site \<Rightarrow> path \<Rightarrow> string \<Rightarrow> string list" where
  "docker_php S runtime img =
     [''docker'', ''run'', ''--rm'', ''--network'', ''host'', ''-v'', str runtime @ '':/var/run/veil'', ''-v'', str (service_root S) @ '':/src:ro'', img, ''php84'',
      ''/src/scripts/opnsense_catalog_test.php'', ''/src/platform/opnsense/src/opnsense/mvc/app/library/OPNsense/Veil'']"

text \<open>A hundred looks at the socket; after them the test goes on without it.\<close>

primrec socket_wait :: "php_world \<Rightarrow> nat \<Rightarrow> nat \<Rightarrow> (lab, unit) io" where
  "socket_wait D n 0 = ret ()"
| "socket_wait D n (Suc k) =
     bnd (ask (Examined ''socket'' n) (socket_there D)) (\<lambda>there.
     if there then ret ()
     else seq (lab_poll (php_stage D) n)
       (bnd (gets (\<lambda>l. alive (process_of l n))) (\<lambda>up.
       if up then socket_wait D n k else raise (RuntimeError ''test daemon exited''))))"

definition php_daemon :: "php_world \<Rightarrow> path \<Rightarrow> string \<Rightarrow> path \<Rightarrow> (lab, unit) io" where
  "php_daemon D exe img base =
     (let W = php_stage D; S = lab_site W; runtime = base @ [''runtime''] in
      bnd (lab_popen W [str exe, ''-state-dir'', str (base @ [''state'']), ''-socket'', str (runtime @ [''control.sock''])] (environ S)) (\<lambda>n.
      try_finally
        (seq (socket_wait D n 100)
        (seq (on_machine (run (tool S) (cwd S) (environ S) (docker_php S runtime img))) (ret ())))
        (end_pipe W n)))"

definition php_run :: "php_world \<Rightarrow> path \<Rightarrow> string \<Rightarrow> path \<Rightarrow> (lab, unit) io" where
  "php_run D exe img tmp =
     lab_temp (php_stage D) ''veil-opn-catalog-'' tmp (\<lambda>base.
       seq (new_folder (base @ [''runtime'']))
       (seq (on_machine (on_files (write_text (base @ [''daemon.log'']) [])))
       (seq (modify (\<lambda>l. l\<lparr>logs := logs l @ [True]\<rparr>))
       (try_finally (php_daemon D exe img base) close_logs))))"

definition php_image :: "string \<Rightarrow> string" where
  "php_image unique = ''veil-php-test:'' @ unique"

definition php_main :: "php_world \<Rightarrow> path \<Rightarrow> string \<Rightarrow> path \<Rightarrow> (lab, unit) io" where
  "php_main D exe unique tmp =
     (let S = lab_site (php_stage D); img = php_image unique in
      seq (on_machine (run (tool S) (cwd S) (environ S) (docker_build img)))
      (try_finally (php_run D exe img tmp)
        (seq (on_machine (run (tool S) (cwd S) (environ S) (docker_rm img))) (ret ()))))"

section \<open>\<^verbatim>\<open>systemd_check.py\<close>\<close>

text \<open>
  Commands as before, and what they have made of the files so far; the owner and the permission bits of a path, the number of the user \<open>veil\<close>, and connections.
\<close>

record unit_world =
  unit_tools :: pipe_world
  unit_files :: "act list \<Rightarrow> fs \<Rightarrow> fs"
  unit_stat :: "path \<Rightarrow> act list \<Rightarrow> (int \<times> nat) res"
  unit_owner :: "act list \<Rightarrow> int res"
  unit_dial :: "string \<Rightarrow> int \<Rightarrow> act list \<Rightarrow> conn res"
  show_args :: "string list \<Rightarrow> string"

definition systemd_error :: exn where
  "systemd_error = SystemExit ''requires a disposable systemd container and VEIL_SYSTEMD_TEST=1''"

definition systemd_guard :: "env \<Rightarrow> (host, unit) io" where
  "systemd_guard env =
     (if map_of env ''VEIL_SYSTEMD_TEST'' \<noteq> Some ''1'' then raise systemd_error
      else bnd (gets (\<lambda>h. exists (files h) [''.dockerenv''])) (\<lambda>there.
           if \<not> there then raise systemd_error
           else bnd (read_file [''proc'', ''1'', ''comm'']) (\<lambda>t.
                if strip t \<noteq> ''systemd'' then raise systemd_error else ret ())))"

definition unit_cmd :: "unit_world \<Rightarrow> bool \<Rightarrow> string list \<Rightarrow> (lab, string) io" where
  "unit_cmd D ok args =
     bnd (finished (unit_tools D) args) (\<lambda>(rc, out, err).
     seq (bnd (gets past) (\<lambda>acts. on_machine (on_files (modify (unit_files D acts)))))
     (if ok \<and> rc \<noteq> 0 then raise (RuntimeError (show_args D args @ '': '' @ out @ err))
      else if \<not> ok \<and> rc = 0 then raise (RuntimeError (''unexpected success: '' @ show_args D args))
      else ret out))"

definition unit_status :: "unit_world \<Rightarrow> string \<Rightarrow> (lab, json) io" where
  "unit_status D inst = bnd (unit_cmd D True [''veil-system'', inst, ''status'']) (\<lambda>t. lift_res (bind_res (loads t) (jget ''status'')))"

text \<open>The errors after which another attempt is made; a \<open>TypeError\<close> is none of them.\<close>

definition is_unready :: "exn \<Rightarrow> bool" where
  "is_unready e = (case e of RuntimeError m \<Rightarrow> RuntimeError m \<noteq> type_error | KeyError k \<Rightarrow> True | _ \<Rightarrow> False)"

primrec unit_ready :: "unit_world \<Rightarrow> string \<Rightarrow> nat \<Rightarrow> (lab, json) io" where
  "unit_ready D inst 0 = raise (TimeoutError ''daemon control socket not ready'')"
| "unit_ready D inst (Suc k) =
     bnd (try_except (bnd (unit_status D inst) (\<lambda>st. ret (Some st))) is_unready (\<lambda>_. ret None)) (\<lambda>r.
     case r of Some st \<Rightarrow> ret st | None \<Rightarrow> unit_ready D inst k)"

definition unit_pid :: "unit_world \<Rightarrow> (lab, string) io" where
  "unit_pid D = unit_cmd D True [''systemctl'', ''show'', ''-p'', ''MainPID'', ''--value'', ''veil@check.service'']"

definition unit_install :: "unit_world \<Rightarrow> bool \<Rightarrow> path \<Rightarrow> string \<Rightarrow> (lab, string) io" where
  "unit_install D ok script action = unit_cmd D ok [''sh'', str script, action]"

definition unit_veil :: "unit_world \<Rightarrow> string list \<Rightarrow> (lab, string) io" where
  "unit_veil D args = unit_cmd D True (''veil-system'' # args)"

definition unit_expect :: "string \<Rightarrow> string \<Rightarrow> json \<Rightarrow> (lab, unit) io" where
  "unit_expect want m st = bnd (lift_res (has_value ''state'' want st)) (\<lambda>ok. assert_io ok m)"

definition unit_config :: "(string \<times> json) list" where
  "unit_config = smoke_config ''127.0.0.1:0''"

definition unit_file :: path where
  "unit_file = [''tmp'', ''test-config.json'']"

definition unit_saved :: path where
  "unit_saved = [''var'', ''lib'', ''veil-check'', ''config.json'']"

definition unit_installed :: "unit_world \<Rightarrow> path \<Rightarrow> (lab, unit) io" where
  "unit_installed D rel =
     seq (unit_install D True (rel @ [''install.sh'']) ''install'')
     (seq (unit_cmd D True [''systemd-analyze'', ''verify'', ''/usr/local/lib/systemd/system/veil@.service''])
     (seq (unit_veil D [''check'', ''enable''])
     (seq (bnd (unit_ready D ''check'' 100) (unit_expect ''stopped'' []))
     (seq (unit_veil D [''second'', ''enable''])
     (bnd (unit_ready D ''second'' 100) (unit_expect ''stopped'' []))))))"

definition truthy_key :: "string \<Rightarrow> json \<Rightarrow> bool res" where
  "truthy_key k st = (case st of JObj ms \<Rightarrow> Inr (case map_of ms k of None \<Rightarrow> False | Some v \<Rightarrow> truthy v) | _ \<Rightarrow> Inl type_error)"

definition private_paths :: "(path \<times> nat) list" where
  "private_paths =
     [([''var'', ''lib'', ''veil-check''], 448), ([''run'', ''veil-check''], 448), ([''run'', ''veil-check'', ''control.sock''], 384), (unit_saved, 384)]"

definition unit_private :: "unit_world \<Rightarrow> int \<Rightarrow> path \<times> nat \<Rightarrow> (lab, unit) io" where
  "unit_private D owner pm =
     bnd (ask (Examined (str (fst pm)) 0) (unit_stat D (fst pm))) (\<lambda>r.
     bnd (lift_res r) (\<lambda>(uid, mode). assert_io (uid = owner \<and> mode mod 512 = snd pm) (str (fst pm))))"

definition unit_started :: "unit_world \<Rightarrow> (lab, json) io" where
  "unit_started D =
     seq (on_machine (write_file unit_file (dumps None (JObj unit_config))))
     (seq (unit_veil D [''check'', ''validate'', str unit_file])
     (seq (unit_veil D [''check'', ''import'', str unit_file])
     (seq (unit_veil D [''check'', ''start''])
     (bnd (unit_status D ''check'') (\<lambda>current.
     seq (unit_expect ''running'' [] current)
     (bnd (unit_status D ''second'') (\<lambda>second.
     bnd (lift_res (truthy_key ''saved_revision'' second)) (\<lambda>leaked.
     seq (assert_io (\<not> leaked) [])
     (bnd (ask (Examined ''passwd'' 0) (unit_owner D)) (\<lambda>r.
     bnd (lift_res r) (\<lambda>owner.
     seq (for_io private_paths (unit_private D owner))
     (seq (unit_cmd D False [''runuser'', ''-u'', ''nobody'', ''--'', ''veil-system'', ''check'', ''status''])
     (ret current)))))))))))))"

text \<open>\<open>current["listen"].rsplit(":", 1)\<close>\<close>

definition listen_parts :: "json \<Rightarrow> (string \<times> int) res" where
  "listen_parts st =
     bind_res (bind_res (jget ''listen'' st) json_string) (\<lambda>t.
     let parts = split_char CHR '':'' t in
     if length parts < 2 then Inl (ValueError ''not enough values to unpack'')
     else bind_res (py_int (last parts)) (\<lambda>p. Inr (join '':'' (butlast parts), p)))"

text \<open>With a connection that is in the middle of its handshake: saving and upgrading leave it alone, a restart ends it.\<close>

definition unit_active :: "unit_world \<Rightarrow> path \<Rightarrow> json \<Rightarrow> (lab, unit) io" where
  "unit_active D rel current =
     bnd (lift_res (listen_parts current)) (\<lambda>(a, p).
     bnd (ask (Connected p) (unit_dial D a p)) (\<lambda>r.
     bnd (lift_res r) (\<lambda>c.
     bnd (on_conn (sendall [5]) c) (\<lambda>(_, c).
     seq (on_machine (write_file unit_file (dumps None (JObj (dict_set ''max_connections'' (JInt 65) unit_config)))))
     (bnd (unit_pid D) (\<lambda>before.
     seq (unit_veil D [''check'', ''import'', str unit_file])
     (bnd (unit_status D ''check'') (\<lambda>st.
     bnd (lift_res (required st)) (\<lambda>restart.
     seq (assert_io restart [])
     (seq (unit_install D True (rel @ [''install.sh'']) ''install'')
     (bnd (unit_pid D) (\<lambda>now.
     seq (assert_io (now = before) ''upgrade restarted the daemon'')
     (bnd (on_conn (sendall [1, 0]) c) (\<lambda>(_, c).
     bnd (on_conn (recv 2) c) (\<lambda>(reply, c).
     seq (assert_io (reply = [5, 0]) ''save/upgrade interrupted a connection'')
     (seq (unit_veil D [''check'', ''restart''])
     (bnd (on_conn (recv 1) c) (\<lambda>(reply, c).
     assert_io (reply = []) ''explicit restart left old connection open''))))))))))))))))))"

definition unit_cycle :: "unit_world \<Rightarrow> (lab, unit) io" where
  "unit_cycle D =
     bnd (unit_status D ''check'') (\<lambda>st.
     bnd (lift_res (required st)) (\<lambda>restart.
     seq (assert_io (\<not> restart) [])
     (seq (unit_veil D [''check'', ''stop''])
     (seq (bnd (unit_status D ''check'') (unit_expect ''stopped'' []))
     (seq (unit_veil D [''check'', ''daemon-restart''])
     (seq (bnd (unit_ready D ''check'' 100) (unit_expect ''running'' []))
     (seq (unit_veil D [''check'', ''daemon-status''])
     (bnd (unit_veil D [''check'', ''logs'']) (\<lambda>out.
     assert_io (contains ''control listening'' out \<and> \<not> contains (secret_text (map of_nat [0..<32])) out) [])))))))))"

definition unit_removal :: "unit_world \<Rightarrow> path \<Rightarrow> (lab, unit) io" where
  "unit_removal D rel =
     (let script = rel @ [''install.sh'']; remover = [''usr'', ''local'', ''share'', ''veil'', ''uninstall.sh''] in
      bnd (on_machine (on_files (read_node unit_saved))) (\<lambda>saved.
      seq (unit_install D False script ''uninstall'')
      (seq (unit_veil D [''check'', ''disable''])
      (seq (unit_cmd D True [''systemctl'', ''stop'', ''veil@second.service''])
      (seq (unit_install D False script ''uninstall'')
      (seq (unit_veil D [''second'', ''disable''])
      (seq (unit_install D True remover ''uninstall'')
      (bnd (gets (\<lambda>l. exists (files (machine l)) [''usr'', ''local'', ''bin'', ''veild''])) (\<lambda>there.
      seq (assert_io (\<not> there) [])
      (bnd (on_machine (on_files (read_node unit_saved))) (\<lambda>kept.
      seq (assert_io (kept = saved) [])
      (seq (unit_install D True script ''install'')
      (seq (unit_veil D [''check'', ''enable''])
      (seq (bnd (unit_ready D ''check'' 100) (unit_expect ''running'' ''reinstall did not recover saved config''))
      (seq (unit_veil D [''check'', ''disable''])
      (seq (unit_install D True remover ''uninstall'') (ret ())))))))))))))))))"

definition systemd_main :: "unit_world \<Rightarrow> path \<Rightarrow> (lab, unit) io" where
  "systemd_main D rel =
     seq (on_machine (systemd_guard (environ (lab_site (pipe_stage (unit_tools D))))))
     (seq (unit_installed D rel)
     (bnd (unit_started D) (\<lambda>current.
     seq (unit_active D rel current)
     (seq (unit_cycle D)
     (unit_removal D rel)))))"

section \<open>Laws\<close>

lemma end_pipe_ends: "ends [n] l (fst (end_pipe W n l)) (snd (end_pipe W n l))"
proof -
  obtain l1 where p: "lab_poll W n l = (Inr (), l1)" "calmer l l1" by (rule lab_poll_run) blast
  let ?l = "snd (set_process n (\<lambda>p. if alive p then p\<lparr>signals := signals p @ [''TERM'']\<rparr> else p) l1)"
  have c: "calmer l ?l" by (rule calmer_trans [OF p(2) set_process_calmer]) (simp split: if_splits)
  obtain r l2 where w: "wait_exit W n ?l = (r, l2)" by fastforce
  have "end_pipe W n l = (case r of Inl e \<Rightarrow> Inl e | Inr rc \<Rightarrow> Inr (), l2)"
    using p w by (auto simp: end_pipe_def signal_process_def set_process_def io_simps split: sum.splits)
  moreover have "length (table ?l) = length (table l)" using c by (simp add: calmer_def)
  ultimately show ?thesis using wait_exit_calmer [OF w] calmer_trans [OF c] by (cases r) (auto simp: ends_def)
qed

text \<open>All but one process have ended; logs may be open.\<close>

definition rest_ended :: "nat \<Rightarrow> lab \<Rightarrow> bool" where
  "rest_ended n l \<longleftrightarrow> (\<forall>m<length (table l). m \<noteq> n \<longrightarrow> \<not> alive (process_of l m)) \<and> \<not> tap l"

interpretation last_one: stable "rest_ended n" for n
proof
  fix l :: lab and g :: "process \<Rightarrow> process" and m
  assume c: "rest_ended n l" and g: "\<And>p. alive (g p) \<Longrightarrow> alive p"
  show "rest_ended n (l\<lparr>table := (table l)[m := map_prod id g (table l ! m)]\<rparr>)"
    using c update_calmer [of g l m] g by (auto simp: rest_ended_def calmer_def)
qed (simp_all add: rest_ended_def process_of_def)

lemma popen_last:
  assumes "lab_popen W full env l = (Inr n, l')" and "list_all (\<lambda>cp. \<not> alive (snd cp)) (table l)" and "\<not> tap l"
  shows "rest_ended n l'"
  using assms
  by (auto simp: lab_popen_def noted_def io_simps rest_ended_def process_of_def nth_append list_all_length less_Suc_eq split: sum.splits)

context stable
begin

lemma keeps_socket_wait [keeps_intros]: "keeps I (socket_wait D n k)"
  by (induction k) (simp_all, (intro keeps_intros; simp)+)

end

lemma php_daemon_run:
  assumes "php_daemon D exe img base l = (r, l')" and "list_all (\<lambda>cp. \<not> alive (snd cp)) (table l)" and "\<not> tap l" and "accounted l"
  shows "accounted l' \<and> \<not> tap l' \<and> (list_all (\<lambda>cp. \<not> alive (snd cp)) (table l') \<or> (\<exists>e. r = Inl e \<and> is_expired e))"
proof -
  let ?W = "php_stage D"
  let ?S = "lab_site ?W"
  let ?cmd = "[str exe, ''-state-dir'', str (base @ [''state'']), ''-socket'', str ((base @ [''runtime'']) @ [''control.sock''])]"
  let ?body = "\<lambda>n. seq (socket_wait D n 100)
    (seq (on_machine (run (tool ?S) (cwd ?S) (environ ?S) (docker_php ?S (base @ [''runtime'']) img))) (ret ()))"
  obtain rp lp where p: "lab_popen ?W ?cmd (environ ?S) l = (rp, lp)" by fastforce
  have run: "php_daemon D exe img base l = bnd (lab_popen ?W ?cmd (environ ?S)) (\<lambda>n. try_finally (?body n) (end_pipe ?W n)) l"
    by (simp only: php_daemon_def Let_def)
  have lp: "accounted lp" by (rule keepsD [OF spawn_accounted(1) p assms(4)])
  show ?thesis
  proof (cases rp)
    case (Inl e)
    then have "l' = l" using assms(1) p popen_fails unfolding run by (auto simp: bnd_def)
    with assms show ?thesis by simp
  next
    case (Inr n)
    have "rest_ended n lp" using popen_last p Inr assms(2,3) by blast
    obtain r1 l1 where b: "?body n lp = (r1, l1)" by fastforce
    obtain r2 l2 where e: "end_pipe ?W n l1 = (r2, l2)" by fastforce
    have "keeps (rest_ended n) (?body n)" "keeps accounted (?body n)" by (intro keeps_intros)+
    from keepsD [OF this(1) b \<open>rest_ended n lp\<close>] keepsD [OF this(2) b lp] have l1: "rest_ended n l1" "accounted l1" .
    have "accounted l2" by (rule keepsD [OF accounted.keeps_pipe(5) e l1(2)])
    moreover have "ends [n] l1 r2 l2" using end_pipe_ends [of n l1 ?W] e by simp
    moreover have "l' = l2" "\<And>e. r2 = Inl e \<Longrightarrow> r = Inl e"
      using assms(1) p Inr b e unfolding run by (auto simp: bnd_def try_finally_def split: sum.splits)
    ultimately show ?thesis using l1(1)
      by (cases r2) (auto simp: ends_def rest_ended_def calmer_def list_all_length process_of_def)
  qed
qed

lemma php_block_leaves:
  "leaves (\<lambda>_. True) is_expired
     (seq (modify (\<lambda>l. l\<lparr>logs := logs l @ [True]\<rparr>)) (try_finally (php_daemon D exe img base) close_logs))"
  unfolding leaves_def
proof (intro allI impI, elim conjE)
  fix l
  assume l: "accounted l" "clean l"
  let ?l = "l\<lparr>logs := logs l @ [True]\<rparr>"
  obtain r l1 where d: "php_daemon D exe img base ?l = (r, l1)" by fastforce
  have "accounted ?l" "list_all (\<lambda>cp. \<not> alive (snd cp)) (table ?l)" "\<not> tap ?l" using l by (simp_all add: accounted_def clean_def)
  note after = php_daemon_run [OF d this(2,3,1)]
  have "seq (modify (\<lambda>l. l\<lparr>logs := logs l @ [True]\<rparr>)) (try_finally (php_daemon D exe img base) close_logs) l =
      (r, l1\<lparr>logs := map (\<lambda>_. False) (logs l1)\<rparr>)"
    using d by (simp add: seq_def bnd_def modify_def try_finally_def close_logs_run)
  then show "case seq (modify (\<lambda>l. l\<lparr>logs := logs l @ [True]\<rparr>)) (try_finally (php_daemon D exe img base) close_logs) l of
      (r, l') \<Rightarrow> accounted l' \<and> (clean l' \<or> (\<exists>e. r = Inl e \<and> is_expired e))"
    using after by (auto simp: clean_def accounted_def list_all_iff)
qed

lemma php_run_leaves: "leaves (\<lambda>_. True) is_expired (php_run D exe img tmp)"
  unfolding php_run_def
  by (intro leaves_temp leaves_seq [OF _ _ _ leaves_seq] php_block_leaves keeps_intros keeps_True)

text \<open>Running a command logs it, whatever comes of it, and changes the host only.\<close>

lemma run_machine:
  obtains r h where "on_machine (run t p env args) l = (r, l\<lparr>machine := h\<rparr>)" "ran h = ran (machine l) @ [args]"
    "\<And>e. r = Inl e \<Longrightarrow> e = CalledProcessError args"
proof -
  obtain rc out fs' where t: "t p env args (files (machine l)) = (rc, out, fs')" by (cases "t p env args (files (machine l))") auto
  show ?thesis
    by (rule that [of "if rc = 0 then Inr out else Inl (CalledProcessError args)" "(machine l)\<lparr>files := fs', ran := ran (machine l) @ [args]\<rparr>"])
      (use t in \<open>auto simp: on_machine_def run_def call_def bnd_def ret_def raise_def split: if_splits\<close>)
qed

section \<open>Theorems\<close>

text \<open>
  However the test of the PHP adapter ends, its daemon has ended and its log is closed, unless the daemon did not end in time or the image could not be removed, which is
  then the error of the test; and the last command it runs removes the image, unless the image could not be built.
\<close>

theorem php_main_ends:
  "case php_main D exe unique tmp (new_lab h) of (r, l) \<Rightarrow>
     accounted l \<and>
     (clean l \<or> (\<exists>e. r = Inl e \<and> (is_expired e \<or> e = CalledProcessError (docker_rm (php_image unique))))) \<and>
     (r = Inl (CalledProcessError (docker_build (php_image unique))) \<or> last (ran (machine l)) = docker_rm (php_image unique))"
proof -
  let ?S = "lab_site (php_stage D)"
  obtain rb hb where b: "on_machine (run (tool ?S) (cwd ?S) (environ ?S) (docker_build (php_image unique))) (new_lab h) = (rb, (new_lab h)\<lparr>machine := hb\<rparr>)"
    "\<And>e. rb = Inl e \<Longrightarrow> e = CalledProcessError (docker_build (php_image unique))" by (rule run_machine) blast
  let ?l = "(new_lab h)\<lparr>machine := hb\<rparr>"
  have l: "accounted ?l" "clean ?l" by (simp_all add: new_lab_def accounted_def started_commands_def clean_def)
  obtain r1 l1 where m: "php_run D exe (php_image unique) tmp ?l = (r1, l1)" by fastforce
  have l1: "accounted l1" "clean l1 \<or> (\<exists>e. r1 = Inl e \<and> is_expired e)"
    using php_run_leaves [of D exe "php_image unique" tmp] l m by (auto simp: leaves_def dest!: spec [of _ ?l])
  obtain r2 h2 where f: "on_machine (run (tool ?S) (cwd ?S) (environ ?S) (docker_rm (php_image unique))) l1 = (r2, l1\<lparr>machine := h2\<rparr>)"
    "ran h2 = ran (machine l1) @ [docker_rm (php_image unique)]" "\<And>e. r2 = Inl e \<Longrightarrow> e = CalledProcessError (docker_rm (php_image unique))" by (rule run_machine) blast
  have l2: "accounted (l1\<lparr>machine := h2\<rparr>)" "clean (l1\<lparr>machine := h2\<rparr>) = clean l1" using l1 by (simp_all add: accounted_def clean_def)
  show ?thesis
  proof (cases rb)
    case (Inl e)
    then show ?thesis
      using b l by (simp add: php_main_def Let_def seq_def bnd_def)
  next
    case (Inr u)
    then have "php_main D exe unique tmp (new_lab h) =
        (case r2 of Inl e \<Rightarrow> Inl e | Inr v \<Rightarrow> r1, l1\<lparr>machine := h2\<rparr>)"
      using b(1) m f(1) by (auto simp: php_main_def Let_def seq_def bnd_def try_finally_def ret_def split: sum.split)
    then show ?thesis
      using l1 l2 f(2,3) by (cases r2) auto
  qed
qed

text \<open>
  The test of the installation touches nothing outside a container made for it: without the marker in the environment, the file of the container, or systemd as its first
  process, it ends with an error before it has run a command or changed a file.
\<close>

definition disposable :: "env \<Rightarrow> host \<Rightarrow> bool" where
  "disposable env h \<longleftrightarrow>
     map_of env ''VEIL_SYSTEMD_TEST'' = Some ''1'' \<and> exists (files h) [''.dockerenv''] \<and>
     (case fst (read_file [''proc'', ''1'', ''comm''] h) of Inl e \<Rightarrow> False | Inr t \<Rightarrow> strip t = ''systemd'')"

lemma systemd_guard_run: "snd (systemd_guard env h) = h \<and> (fst (systemd_guard env h) = Inr () \<longleftrightarrow> disposable env h)"
proof
  have "reads (systemd_guard env)" unfolding systemd_guard_def by (intro reads_intros)
  then show "snd (systemd_guard env h) = h" by (simp add: reads_def)
  show "fst (systemd_guard env h) = Inr () \<longleftrightarrow> disposable env h"
    by (cases "read_file [''proc'', ''1'', ''comm''] h"; cases "fst (read_file [''proc'', ''1'', ''comm''] h)")
      (auto simp: systemd_guard_def disposable_def bnd_def gets_def raise_def ret_def split: if_splits)
qed

theorem systemd_contained:
  "if disposable (environ (lab_site (pipe_stage (unit_tools D)))) (machine l) then True
   else \<exists>e. systemd_main D rel l = (Inl e, l)"
proof -
  let ?g = "systemd_guard (environ (lab_site (pipe_stage (unit_tools D)))) (machine l)"
  have "\<exists>e. systemd_main D rel l = (Inl e, l)" if "\<not> disposable (environ (lab_site (pipe_stage (unit_tools D)))) (machine l)"
    using that systemd_guard_run [of "environ (lab_site (pipe_stage (unit_tools D)))" "machine l"]
    by (cases ?g; cases "fst ?g") (auto simp: systemd_main_def seq_def bnd_def on_machine_def)
  then show ?thesis by simp
qed

text \<open>Waiting for the control socket never passes on an error that means the daemon is not ready yet.\<close>

theorem unit_ready_outcome:
  "case unit_ready D inst k l of (Inl e, l') \<Rightarrow> \<not> is_unready e | (Inr st, l') \<Rightarrow> True"
proof (induction k arbitrary: l)
  case (Suc k)
  obtain r l1 where u: "unit_status D inst l = (r, l1)" by fastforce
  then show ?case using Suc.IH [of l1] by (cases r) (auto simp: bnd_def try_except_def ret_def)
qed (simp add: raise_def is_unready_def)

end
