(* ===== verification/Spec2Isabelle.thy ===== *)
theory Spec2Isabelle
  imports Wire_Records Client_Hello Patches Json Install Ci Packages Openwrt Windows_Check Fixtures Captures Reports Trials Probes Campaigns Smoke Browsing Delays Rivals Services Catalogs Desktops Platforms
begin

text \<open>
  \<^bold>\<open>Project Veil: the Python programs that build, test, measure, package, release and install it.\<close>

  Veil is a proxy written in Go and Rust. What surrounds it is written in Python: scripts that
  patch and build the pinned TLS module, run and measure the programs, check the wire format, pack
  the results for every platform, decide in CI which checks a change needs, verify and publish
  a release, and install the desktop program. These scripts are the subject of this development; file
  names below are relative to \<^verbatim>\<open>src/\<close>.

  \<^bold>\<open>Method.\<close> Definitions are translations of the scripts, function by function. A \<open>str\<close> is
  its UTF-8 text, \<open>bytes\<close> a list of 8-bit words, a \<open>dict\<close> an association list in insertion order, an exception a value
  of \<open>exn\<close>. A script that changes its surroundings is a function from a state to a result and a state: an exception
  keeps the effects before it. The state is a file system with links (\<open>Filesys\<close>) with the log of the commands run (\<open>Tools\<close>); for the
  scripts that run and measure programs it is a bench (\<open>Lab\<close>) with that host, the processes, logs, counters and the past. Programs that are not part of
  the repository (\<open>git\<close>, \<open>go\<close>, \<open>gh\<close>, \<open>openssl\<close>, \<open>perf\<close>, \<open>tc\<close>, browsers, the compiled proxies and the daemon) are arguments: functions that answer, given
  what has happened so far. So are SHA-256, random shuffles and draws, and the texts of floats. Text that is only printed is left out.

  \<^bold>\<open>How to reason about it.\<close> \<open>Prelude\<close> has judgements with introduction rules, collected as named theorems: \<open>reads\<close> (no effect), \<open>raises\<close> (which errors),
  \<open>keeps\<close> (an invariant survives every outcome), \<open>yields\<close> (what a returned value satisfies); \<open>Trials\<close> adds \<open>leaves\<close> (what is left running and open), \<open>Delays\<close> \<open>runs\<close>
  (which commands, in which order). A property of a script is then a few steps over the rules of its parts.

  \<^bold>\<open>Theories.\<close>
  \<^item> \<open>Prelude\<close>, \<open>Py_Text\<close>, \<open>Json\<close>, \<open>Filesys\<close>, \<open>Tools\<close>: results and programs, Python's
    strings, the \<open>json\<close> module (printing, parsing, the round trip), \<open>pathlib\<close> and \<open>shutil\<close> on a table of nodes,
    \<open>subprocess\<close>. The locale \<open>store\<close> is the interface of a table, interpreted on the file system.
  \<^item> \<open>Framing\<close>, \<open>Wire_Records\<close>, \<open>Client_Hello\<close>: length-prefixed data (locales \<open>framed_encoder\<close> and \<open>framed_stream\<close>), the TLS record parsers of
    \<^verbatim>\<open>veil-core/scripts/reality_fingerprint.py\<close> and \<^verbatim>\<open>probe.py\<close>, and the ClientHello parser. Round trip and exactness of the parsers; the
    normalised profile ignores the order of the extensions and hides the secret fields.
  \<^item> \<open>Sockets\<close>, \<open>Captures\<close>: the receive loops and SOCKS handshakes of \<^verbatim>\<open>traffic_shapes.py\<close>, \<^verbatim>\<open>network_smoke.py\<close>,
    \<^verbatim>\<open>browser_hello.py\<close> and \<^verbatim>\<open>probe.py\<close>; the recording relays \<open>Capture\<close> and \<open>CaptureGroup\<close> as a step relation over the interleavings
    of their threads, with invariants of the reachable states (locales \<open>byte_source\<close>, \<open>recorder\<close>).
  \<^item> \<open>Patches\<close>, \<open>Core_Build\<close>, \<open>Builds\<close>: \<^verbatim>\<open>veil-core/scripts/build.py\<close> (the patches of the Go sources as edits of texts,
    \<open>generate\<close>, \<open>main\<close>), \<^verbatim>\<open>check.py\<close>, \<^verbatim>\<open>cross_check.py\<close>, \<^verbatim>\<open>bench_build.py\<close>, and the builds of \<^verbatim>\<open>veil-service\<close> and \<^verbatim>\<open>veil-desktop\<close>.
    A patch applies at anchors that occur exactly once, or refuses; the flags written are the flags returned.
  \<^item> \<open>Packages\<close>, \<open>Openwrt\<close>, \<open>Windows_Check\<close>, \<open>Release\<close>: \<^verbatim>\<open>package.py\<close> of service and desktop, \<^verbatim>\<open>opnsense_bundle.py\<close>,
    \<^verbatim>\<open>openwrt_package.py\<close>, \<^verbatim>\<open>windows_package_check.py\<close>, \<^verbatim>\<open>.github/scripts/release.py\<close>. What packaging writes is what the checks accept.
  \<^item> \<open>Ci\<close>: \<^verbatim>\<open>.github/scripts/ci.py\<close>, the routing of changes to groups of checks and the gate.
  \<^item> \<open>Install\<close>: \<^verbatim>\<open>veil-desktop/scripts/install.py\<close>, with the effect of every outcome on the file system.
  \<^item> \<open>Fixtures\<close>, \<open>Reports\<close>: the fixtures, configurations and processes of \<^verbatim>\<open>veil-core/scripts/fixtures.py\<close>,
    and the statistics of \<^verbatim>\<open>benchmark.py\<close>, \<^verbatim>\<open>core_regression.py\<close>, \<^verbatim>\<open>browser_shapes.py\<close> and \<^verbatim>\<open>reality_fingerprint.py\<close>.
  \<^item> \<open>Lab\<close>, \<open>Trials\<close>, \<open>Probes\<close>: the bench, and on it one trial of \<^verbatim>\<open>benchmark.py\<close>, \<^verbatim>\<open>core_regression.py\<close>, \<^verbatim>\<open>reality_benchmark.py\<close> and
    \<^verbatim>\<open>traffic_shapes.py\<close>, and the profiles of \<^verbatim>\<open>probe.py\<close>. The locale \<open>stable\<close> is the interface of an invariant of the bench (every operation that starts no
    process keeps it), \<open>trial_block\<close> and \<open>trial_end\<close> those of a final block; interpreted on the invariants and final blocks of the scripts, they give that
    a trial leaves no process running and no log or relay open, however it ends, unless a counter cannot be closed.
  \<^item> \<open>Campaigns\<close>, \<open>Browsing\<close>, \<open>Smoke\<close>: the main programs, which run trial after trial and keep the results: one row for each job, in order, with
    what the row claims checked. \<^verbatim>\<open>browser_shapes.py\<close>, \<^verbatim>\<open>browser_hello.py\<close>, and \<^verbatim>\<open>network_smoke.py\<close> with its target and its client, whose checks are proved against the target.
  \<^item> \<open>Delays\<close>, \<open>Rivals\<close>, \<open>Services\<close>: \<^verbatim>\<open>delayed_benchmark.py\<close> (which shapes a link only in a namespace of its own) and \<^verbatim>\<open>summarize.py\<close>
    (bounds of the bootstrap intervals); \<^verbatim>\<open>veil-rust/scripts/compare.py\<close>; \<^verbatim>\<open>demo.py\<close>, and \<^verbatim>\<open>regression.py\<close> and \<^verbatim>\<open>smoke.py\<close> of \<^verbatim>\<open>veil-service/scripts\<close>.
  \<^item> \<open>Catalogs\<close>: the checks of translations and rights, \<^verbatim>\<open>openwrt_check.py\<close>, \<^verbatim>\<open>opnsense_check.py\<close>, \<^verbatim>\<open>check_webui.py\<close> and
    \<^verbatim>\<open>check_frontend.py\<close>: the reader of catalogs, the matchers of labels, and what a check that passes has seen.
  \<^item> \<open>Desktops\<close>, \<open>Platforms\<close>: acceptance tests, \<^verbatim>\<open>windows_smoke.py\<close>, \<^verbatim>\<open>gui/check.py\<close> with \<^verbatim>\<open>gui/windows.py\<close>, \<^verbatim>\<open>opnsense_catalog_check.py\<close> and
    \<^verbatim>\<open>systemd_check.py\<close>: what they leave running, open, set or installed, however they end. The locale \<open>calls_kept\<close> is the interface of a predicate of the calls
    of Windows.

  \<^bold>\<open>Bounds and fuel.\<close> Following links is limited to forty, as on Linux. The JSON parser has fuel of twice the length of its input plus two, which
  \<open>loads_total\<close> shows to be enough. All other loops are structural or have a termination proof; waiting for a port or for the daemon is bounded by the
  scripts themselves, at three hundred and at a hundred attempts, or by a deadline: then the number of attempts it leaves is an argument, and theorems hold for any.

  \<^bold>\<open>Not modelled.\<close> The Go, Rust, JavaScript and PHP programs; option parsing beyond the choices and guards the scripts make
  themselves; times and floating-point rounding (numbers are rational); text that is printed; the handler of \<open>SIGTERM\<close> and the accept loop of the target of
  \<^verbatim>\<open>network_smoke.py\<close>, and the threads and TLS contexts of the website of \<^verbatim>\<open>traffic_shapes.py\<close>. In \<^verbatim>\<open>gui/windows.py\<close>, the report of the window and the main program, which
  pass calls to \<open>user32\<close>, and the pages of the web servers of \<^verbatim>\<open>gui/check.py\<close>. \<^verbatim>\<open>package_check.py\<close>, a set of tests of shell scripts, since every step runs
  such a script, and the unit tests.
\<close>

section \<open>A release consists of what the packaging scripts write\<close>

definition packaged :: "string \<Rightarrow> string list" where
  "packaged v =
     map (archive_name v ''linux'') [''amd64'', ''arm64'', ''armv7''] @ map (archive_name v ''windows'') [''amd64'', ''arm64''] @
     [desktop_archive v ''linux'' ''amd64'', desktop_archive v ''windows'' ''amd64''] @
     map (artifact_name ''ipk'' (v @ ''-1'')) (opkgs ''x86_64'' []) @ map (artifact_name ''apk'' (v @ ''-r1'')) (opkgs ''x86_64'' []) @
     [bundle_name v]"


end
